(* ===== verification/Prelude.thy ===== *)
theory Prelude
  imports Complex_Main "HOL-Library.Word" "HOL-Library.Monad_Syntax"
begin

text \<open>
  What every theory of the development shares: the C integer types of the target (Nios II,
  32 bit, little endian) as words, the C shift operators whose result is undefined when the
  shift count is not smaller than the width, the pointers and the results of the model, and
  the generic lemmas on words and lists that the component theories use.
\<close>

unbundle bit_operations_syntax

section \<open>Integer types\<close>

type_synonym INT8U = "8 word"
type_synonym INT16U = "16 word"
type_synonym INT32U = "32 word"

named_theorems fields "reading a bit field of a word as a number"

section \<open>Shifts\<close>

text \<open>
  In C a shift of a 32-bit operand by 32 or more has no defined value. The model leaves it to
  the parameter \<open>oob\<close>: what is proved holds whatever the hardware or the compiler makes of it.
\<close>

definition c_shl :: "(INT32U \<Rightarrow> INT32U \<Rightarrow> INT32U) \<Rightarrow> INT32U \<Rightarrow> INT32U \<Rightarrow> INT32U" where
  "c_shl oob x n = (if n < 32 then push_bit (unat n) x else oob x n)"

definition c_shr :: "(INT32U \<Rightarrow> INT32U \<Rightarrow> INT32U) \<Rightarrow> INT32U \<Rightarrow> INT32U \<Rightarrow> INT32U" where
  "c_shr oob x n = (if n < 32 then drop_bit (unat n) x else oob x n)"

text \<open>A C condition used as a number.\<close>

definition c_bool :: "bool \<Rightarrow> INT32U" where
  "c_bool b = (if b then 1 else 0)"

lemma c_bool_simps [simp]: "c_bool True = 1" "c_bool False = 0"
  by (simp_all add: c_bool_def)

section \<open>Words\<close>

lemma unat_take_bit_drop_bit:
  fixes x :: "'a::len word"
  shows "unat (take_bit k (drop_bit n x)) = unat x div 2 ^ n mod 2 ^ k"
proof -
  have "unat (take_bit k (drop_bit n x)) = take_bit k (drop_bit n (unat x))"
    by (simp only: unsigned_take_bit_eq unat_drop_bit_eq)
  then show ?thesis by (simp add: take_bit_eq_mod drop_bit_eq_div)
qed

lemma unat_or_disjoint:
  fixes a b :: "'a::len word"
  assumes "a AND b = 0"
  shows "unat (a OR b) = unat a + unat b"
proof -
  have "unat a AND unat b = 0"
    using assms by (metis unsigned_0 unsigned_and_eq)
  then have "unat a OR unat b = unat a + unat b"
    by (simp add: disjunctive_add_eq_or)
  then show ?thesis by (simp add: unsigned_or_eq)
qed


lemma unat_push:
  fixes x :: "'a::len word"
  shows "unat (push_bit n x) = unat x * 2 ^ n mod 2 ^ LENGTH('a)"
  by (simp only: unsigned_push_bit_eq) (simp only: push_bit_eq_mult take_bit_eq_mod)

lemma unat_shr:
  fixes x :: "'a::len word"
  shows "unat (drop_bit n x) = unat x div 2 ^ n"
  by (simp only: unat_drop_bit_eq) (simp only: drop_bit_eq_div)

lemma unat_ucast_up:
  fixes x :: "'a::len word"
  assumes "LENGTH('a) \<le> LENGTH('b)"
  shows "unat (ucast x :: 'b::len word) = unat x"
  using assms by (simp add: unsigned_ucast_eq take_bit_nat_eq_self_iff less_le_trans [OF unsigned_less])

lemma unat_and_field:
  fixes x :: "'a::len word"
  assumes "c = (2 ^ k - 1) * 2 ^ n"
  shows "unat (x AND c) = unat x div 2 ^ n mod 2 ^ k * 2 ^ n mod 2 ^ LENGTH('a)"
proof -
  have "x AND push_bit n (mask k) = push_bit n (take_bit k (drop_bit n x))"
    by (rule bit_word_eqI) (auto simp: bit_simps)
  then show ?thesis
    by (simp only: assms unat_push unat_take_bit_drop_bit flip: push_bit_eq_mult mask_eq_exp_minus_1)
qed

lemma unat_or_high:
  fixes a b :: "'a::len word"
  assumes "2 ^ n dvd unat a" "unat b < 2 ^ n"
  shows "unat (a OR b) = unat a + unat b"
proof -
  from assms(1) obtain q where q: "unat a = push_bit n q"
    by (auto simp: push_bit_eq_mult mult.commute)
  have b: "take_bit n (unat b) = unat b"
    using assms(2) by (simp only: take_bit_nat_eq_self)
  have "unat a AND unat b = 0"
    by (subst b [symmetric], unfold q, rule bit_eqI) (auto simp: bit_simps simp del: push_bit_eq_mult take_bit_eq_mod)
  then show ?thesis
    by (simp add: unsigned_or_eq disjunctive_add_eq_or)
qed

lemma unat_of_nat_small: "n < 2 ^ LENGTH('a) \<Longrightarrow> unat (of_nat n :: 'a::len word) = n"
  by (simp add: unat_of_nat)

lemma nat_fields:
  "(n::nat) = n div 2 ^ (a + b) * 2 ^ (a + b) + n div 2 ^ a mod 2 ^ b * 2 ^ a + n mod 2 ^ a"
proof -
  define q where "q = n div 2 ^ a"
  have "q * 2 ^ a = (q div 2 ^ b * 2 ^ b + q mod 2 ^ b) * 2 ^ a" by (simp only: div_mult_mod_eq)
  also have "\<dots> = q div 2 ^ b * 2 ^ (a + b) + q mod 2 ^ b * 2 ^ a"
    by (simp only: add_mult_distrib add_mult_distrib2 power_add mult_ac)
  finally have "q * 2 ^ a = q div 2 ^ b * 2 ^ (a + b) + q mod 2 ^ b * 2 ^ a" .
  moreover have "n = q * 2 ^ a + n mod 2 ^ a" by (simp only: q_def div_mult_mod_eq)
  moreover have "q div 2 ^ b = n div 2 ^ (a + b)" by (simp add: q_def power_add div_mult2_eq)
  ultimately show ?thesis by (simp only: q_def)
qed

lemma or_mask_full:
  fixes a :: "'a::len word"
  assumes "unat a < 2 ^ n" "c = 2 ^ n - 1"
  shows "a OR c = c"
proof -
  have "a = take_bit n a"
    using assms by (metis take_bit_nat_eq_self unsigned_take_bit_eq unsigned_word_eqI)
  then have "a OR mask n = mask n"
    by (metis bit_eqI bit_mask_iff bit_or_iff bit_take_bit_iff)
  then show ?thesis by (simp add: assms(2) mask_eq_exp_minus_1)
qed

end
