(* ===== verification/Half_Float.thy ===== *)
theory Half_Float
  imports Prelude
begin

text \<open>
  The conversions between IEEE-754 single precision and a 16-bit float of
  \<^verbatim>\<open>server1/iniche_init.c\<close>, and the routines that print the bits of a number.
  A C \<open>float\<close> is its bit pattern; the value it denotes is \<open>val32\<close>.
\<close>

section \<open>Single precision floats as bit patterns\<close>

datatype float32 = Float32 (bits_of: INT32U)

definition as_uint :: "float32 \<Rightarrow> INT32U" where
  "as_uint x = bits_of x"

definition as_float :: "INT32U \<Rightarrow> float32" where
  "as_float x = Float32 x"

text \<open>
  The conversion \<open>(float)m\<close> of an unsigned 32-bit integer: IEEE-754 rounding to nearest, ties
  to even, as the C implementation and its library do it.
\<close>

fun top_bit :: "nat \<Rightarrow> nat" where
  "top_bit n = (if n < 2 then 0 else Suc (top_bit (n div 2)))"

declare top_bit.simps [simp del]

definition round_half_even :: "nat \<Rightarrow> nat \<Rightarrow> nat" where
  "round_half_even k n =
     (let q = n div 2 ^ k; r = n mod 2 ^ k
      in if 2 * r < 2 ^ k \<or> (2 * r = 2 ^ k \<and> even q) then q else Suc q)"

definition float_of_uint :: "INT32U \<Rightarrow> float32" where
  "float_of_uint m =
     (let n = unat m; k = top_bit n
      in if n = 0 then Float32 0
         else if k \<le> 23 then Float32 (of_nat ((k + 127) * 2 ^ 23 + (n * 2 ^ (23 - k) - 2 ^ 23)))
         else Float32 (of_nat ((k + 127) * 2 ^ 23 + (round_half_even (k - 23) n - 2 ^ 23))))"

section \<open>The conversions\<close>

definition half_to_float :: "(INT32U \<Rightarrow> INT32U \<Rightarrow> INT32U) \<Rightarrow> INT16U \<Rightarrow> float32" where
  "half_to_float oob x16 =
     (let x = (ucast x16 :: INT32U);
          e = drop_bit 10 (x AND 0x7C00);
          m = push_bit 13 (x AND 0x03FF);
          v = drop_bit 23 (as_uint (float_of_uint m))
      in as_float (push_bit 16 (x AND 0x8000)
           OR c_bool (e \<noteq> 0) * (push_bit 23 (e + 112) OR m)
           OR (c_bool (e = 0) AND c_bool (m \<noteq> 0)) *
              (push_bit 23 (v - 37) OR (c_shl oob m (150 - v) AND 0x007FE000))))"

definition float_to_half :: "(INT32U \<Rightarrow> INT32U \<Rightarrow> INT32U) \<Rightarrow> float32 \<Rightarrow> INT16U" where
  "float_to_half oob x =
     (let b = as_uint x + 0x00001000;
          e = drop_bit 23 (b AND 0x7F800000);
          m = b AND 0x007FFFFF
      in ucast (drop_bit 16 (b AND 0x80000000)
           OR c_bool (e > 112) * ((push_bit 10 (e - 112) AND 0x7C00) OR drop_bit 13 m)
           OR (c_bool (e < 113) AND c_bool (e > 101)) *
              drop_bit 1 (c_shr oob (0x007FF000 + m) (125 - e) + 1)
           OR c_bool (e > 143) * 0x7FFF))"

section \<open>Printing the bits of a number\<close>

text \<open>
  The three routines run the same loop, from the highest bit down; \<open>printf\<close> of a bit is the
  character it writes.
\<close>

definition print_bits :: "nat \<Rightarrow> INT32U \<Rightarrow> string" where
  "print_bits n f = map (\<lambda>i. if (f AND push_bit i 1) = push_bit i 1 then CHR ''1'' else CHR ''0'') (rev [0..<n])"

definition print_float32 :: "INT32U \<Rightarrow> string" where
  "print_float32 f = print_bits 32 f"

definition print_float :: "float32 \<Rightarrow> string" where
  "print_float f = print_bits 32 (bits_of f)"

definition print_half :: "INT16U \<Rightarrow> string" where
  "print_half h = print_bits 16 (ucast h)"

section \<open>What the bit patterns denote\<close>

text \<open>
  The fields of both formats, the magnitude as a natural number of units in the last place of
  the smallest denormal, and the value. The 16-bit format has no infinity: exponent 31 is a
  normal exponent (the comment above the functions gives its range as +-131008.0).
\<close>

definition sign16 :: "INT16U \<Rightarrow> nat" where "sign16 h = unat h div 2 ^ 15"
definition exp16 :: "INT16U \<Rightarrow> nat" where "exp16 h = unat h div 2 ^ 10 mod 2 ^ 5"
definition man16 :: "INT16U \<Rightarrow> nat" where "man16 h = unat h mod 2 ^ 10"

definition sign32 :: "float32 \<Rightarrow> nat" where "sign32 f = unat (bits_of f) div 2 ^ 31"
definition exp32 :: "float32 \<Rightarrow> nat" where "exp32 f = unat (bits_of f) div 2 ^ 23 mod 2 ^ 8"
definition man32 :: "float32 \<Rightarrow> nat" where "man32 f = unat (bits_of f) mod 2 ^ 23"

definition mag :: "nat \<Rightarrow> nat \<Rightarrow> nat \<Rightarrow> nat" where
  "mag w e m = (if e = 0 then m else (2 ^ w + m) * 2 ^ (e - 1))"

definition val16 :: "INT16U \<Rightarrow> real" where
  "val16 h = (- 1) ^ sign16 h * real (mag 10 (exp16 h) (man16 h)) / 2 ^ 24"

definition val32 :: "float32 \<Rightarrow> real" where
  "val32 f = (- 1) ^ sign32 f * real (mag 23 (exp32 f) (man32 f)) / 2 ^ 149"

section \<open>The fields of the results\<close>

lemma top_bit_bounds: "0 < n \<Longrightarrow> 2 ^ top_bit n \<le> n \<and> n < 2 ^ Suc (top_bit n)"
proof (induction n rule: top_bit.induct)
  case (1 n)
  show ?case
  proof (cases "n < 2")
    case True
    with 1 show ?thesis by (simp add: top_bit.simps [of n])
  next
    case False
    with 1 have "2 ^ top_bit (n div 2) \<le> n div 2 \<and> n div 2 < 2 ^ Suc (top_bit (n div 2))" by simp
    with False show ?thesis by (simp add: top_bit.simps [of n]) linarith
  qed
qed

lemma top_bit_eqI:
  assumes "2 ^ k \<le> n" "n < 2 ^ Suc k" shows "top_bit n = k"
proof -
  have n: "0 < n" using assms by (metis gr0I not_le zero_less_numeral zero_less_power)
  have "2 ^ top_bit n < (2::nat) ^ Suc k" "(2::nat) ^ k < 2 ^ Suc (top_bit n)"
    using top_bit_bounds [OF n] assms by linarith+
  then have "top_bit n < Suc k" "k < Suc (top_bit n)"
    by (metis nat_power_less_imp_less pos2)+
  then show ?thesis by simp
qed

lemma top_bit_mult: "0 < n \<Longrightarrow> top_bit (n * 2 ^ k) = top_bit n + k"
  using top_bit_bounds [of n] by (intro top_bit_eqI) (simp_all add: power_add)

definition norm_bits :: "nat \<Rightarrow> nat" where
  "norm_bits m = (top_bit m + 103) * 2 ^ 23 + (m * 2 ^ (23 - top_bit m) - 2 ^ 23)"

lemma top_bit_less: "0 < m \<Longrightarrow> m < 2 ^ k \<Longrightarrow> top_bit m < k"
  using top_bit_bounds [of m] by (metis le_less_trans nat_power_less_imp_less pos2)

lemma shift_norm:
  assumes "0 < m" "top_bit m \<le> k"
  shows "2 ^ k \<le> m * 2 ^ (k - top_bit m)" "m * 2 ^ (k - top_bit m) < 2 ^ Suc k"
proof -
  have "2 ^ k = 2 ^ top_bit m * (2::nat) ^ (k - top_bit m)"
    using assms(2) by (simp flip: power_add)
  then show "2 ^ k \<le> m * 2 ^ (k - top_bit m)"
    using top_bit_bounds [OF assms(1)] by simp
  have "m * 2 ^ (k - top_bit m) < 2 ^ Suc (top_bit m) * 2 ^ (k - top_bit m)"
    using top_bit_bounds [OF assms(1)] by (intro mult_strict_right_mono) simp_all
  also have "\<dots> = 2 ^ Suc k"
    using assms(2) by (simp flip: power_add power_Suc)
  finally show "m * 2 ^ (k - top_bit m) < 2 ^ Suc k" .
qed

lemma float_of_uint_exp:
  assumes "unat x = m * 2 ^ 13" "0 < m" "m < 2 ^ 10"
  shows "drop_bit 23 (as_uint (float_of_uint x)) = of_nat (top_bit m + 140)"
proof -
  have k: "top_bit (unat x) = top_bit m + 13" and k9: "top_bit m < 10"
    using assms top_bit_mult [of m 13] top_bit_less [of m 10] by simp_all
  define r where "r = unat x * 2 ^ (23 - top_bit (unat x)) - 2 ^ 23"
  have r: "r < 2 ^ 23"
    using shift_norm [of "unat x" 23] assms k k9 by (simp add: r_def)
  have "unat (as_uint (float_of_uint x)) = (top_bit m + 140) * 2 ^ 23 + r"
  proof -
    have "unat (of_nat ((top_bit m + 140) * 2 ^ 23 + r) :: INT32U) = (top_bit m + 140) * 2 ^ 23 + r"
      using k9 r by (intro unat_of_nat_small) simp
    then show ?thesis
      using assms k k9 by (simp add: float_of_uint_def as_uint_def Let_def r_def add.assoc del: of_nat_add of_nat_mult)
  qed
  then have "unat (drop_bit 23 (as_uint (float_of_uint x))) = top_bit m + 140"
    using r by (simp only: unat_shr) simp
  moreover have "unat (of_nat (top_bit m + 140) :: INT32U) = top_bit m + 140"
    using k9 by (intro unat_of_nat_small) simp
  ultimately show ?thesis by (metis unsigned_word_eqI)
qed

lemma half_to_float_unat:
  "unat (bits_of (half_to_float oob h)) = sign16 h * 2 ^ 31 +
     (if exp16 h \<noteq> 0 then (exp16 h + 112) * 2 ^ 23 + man16 h * 2 ^ 13
      else if man16 h \<noteq> 0 then norm_bits (man16 h) else 0)"
proof -
  define x where "x = (ucast h :: INT32U)"
  have x: "unat x = unat h" "unat h < 2 ^ 16"
    using unsigned_less [of h, where ?'a = nat] by (simp_all add: x_def unat_ucast_up)
  define e where "e = drop_bit 10 (x AND 0x7C00)"
  define m where "m = push_bit 13 (x AND 0x03FF)"
  define s where "s = push_bit 16 (x AND 0x8000)"
  have A: "(0x7C00 :: INT32U) = (2 ^ 5 - 1) * 2 ^ 10" "(0x03FF :: INT32U) = (2 ^ 10 - 1) * 2 ^ 0"
    "(0x8000 :: INT32U) = (2 ^ 1 - 1) * 2 ^ 15" "(0x007FE000 :: INT32U) = (2 ^ 10 - 1) * 2 ^ 13"
    by simp_all
  have e: "unat e = exp16 h"
    using unat_and_field [OF A(1), of x] x
    by (simp only: e_def unat_shr) (simp add: exp16_def)
  have "unat (x AND 0x03FF) = man16 h"
    using unat_and_field [OF A(2), of x] x by (simp add: man16_def)
  then have m: "unat m = man16 h * 2 ^ 13"
    by (simp only: m_def unat_push) (simp add: man16_def)
  have s: "unat s = sign16 h * 2 ^ 31"
    using unat_and_field [OF A(3), of x] x
    by (simp only: s_def unat_push) (simp add: sign16_def)
  have small: "exp16 h < 2 ^ 5" "man16 h < 2 ^ 10" "sign16 h < 2"
    using x(2) by (simp_all add: exp16_def man16_def sign16_def less_mult_imp_div_less)
  have nz: "e = 0 \<longleftrightarrow> exp16 h = 0" "m = 0 \<longleftrightarrow> man16 h = 0"
    using e m by (simp_all flip: unat_eq_0)
  define v where "v = drop_bit 23 (as_uint (float_of_uint m))"
  define body where "body = (if e \<noteq> 0 then push_bit 23 (e + 112) OR m
      else if m \<noteq> 0 then push_bit 23 (v - 37) OR (c_shl oob m (150 - v) AND 0x007FE000) else 0)"
  have eq: "bits_of (half_to_float oob h) = s OR body"
    by (simp add: half_to_float_def Let_def as_float_def body_def v_def s_def e_def m_def x_def)
  have "unat body = (if exp16 h \<noteq> 0 then (exp16 h + 112) * 2 ^ 23 + man16 h * 2 ^ 13
      else if man16 h \<noteq> 0 then norm_bits (man16 h) else 0)"
  proof (cases "exp16 h = 0")
    case False
    have "unat (push_bit 23 (e + 112)) = (exp16 h + 112) * 2 ^ 23"
      using small e by (simp add: unat_push unat_word_ariths)
    moreover have "unat m < 2 ^ 23" using m small by simp
    ultimately have "unat (push_bit 23 (e + 112) OR m) = (exp16 h + 112) * 2 ^ 23 + man16 h * 2 ^ 13"
      using m by (subst unat_or_high [of 23]) simp_all
    with False nz show ?thesis by (simp add: body_def)
  next
    case True
    show ?thesis
    proof (cases "man16 h = 0")
      case False
      define t where "t = top_bit (man16 h)"
      have t: "t < 10" using False small top_bit_less [of "man16 h" 10] by (simp add: t_def)
      have v: "v = of_nat (t + 140)"
        using float_of_uint_exp [OF m] False small by (simp add: v_def t_def)
      have v37: "unat (push_bit 23 (v - 37)) = (t + 103) * 2 ^ 23"
      proof -
        have "v - 37 = of_nat (t + 103)" by (simp add: v)
        then show ?thesis using t by (simp only: unat_push unat_of_nat) simp
      qed
      have sh: "150 - v = of_nat (10 - t)" using t by (simp add: v)
      have u: "unat (150 - v) = 10 - t"
        unfolding sh by (rule unat_of_nat_small) simp
      then have "150 - v < 32"
        by (simp only: word_less_nat_alt) simp
      with u have csh: "c_shl oob m (150 - v) = push_bit (10 - t) m"
        by (simp only: c_shl_def if_True)
      define w where "w = man16 h * 2 ^ (10 - t)"
      have w: "2 ^ 10 \<le> w" "w < 2 ^ 11"
        using shift_norm [of "man16 h" 10] False t by (simp_all add: w_def t_def)
      have nb: "man16 h * 2 ^ (23 - t) = w * 2 ^ 13"
      proof -
        have "23 - t = (10 - t) + 13" using t by simp
        then show ?thesis by (simp only: w_def power_add mult.assoc)
      qed
      have "unat (push_bit (10 - t) m) = w * 2 ^ 13"
      proof -
        have "man16 h * 2 ^ 13 * 2 ^ (10 - t) = w * 2 ^ 13" by (simp add: w_def)
        then have "unat (push_bit (10 - t) m) = w * 2 ^ 13 mod 2 ^ LENGTH(32)" by (simp only: unat_push m)
        then show ?thesis using w by simp
      qed
      then have "unat (c_shl oob m (150 - v) AND 0x007FE000) = w * 2 ^ 13 - 2 ^ 23"
      proof -
        have "w mod 2 ^ 10 = w - 2 ^ 10" "(w - 2 ^ 10) * 2 ^ 13 < 2 ^ LENGTH(32)"
          using w by (simp_all add: mod_if)
        with \<open>unat (push_bit (10 - t) m) = w * 2 ^ 13\<close> show ?thesis
          using unat_and_field [OF A(4), of "push_bit (10 - t) m"] csh by (simp add: diff_mult_distrib)
      qed
      then have "unat (push_bit 23 (v - 37) OR (c_shl oob m (150 - v) AND 0x007FE000)) = norm_bits (man16 h)"
        using w v37 by (subst unat_or_high [of 23]) (simp_all add: norm_bits_def nb flip: t_def)
      with True False nz show ?thesis by (simp add: body_def)
    next
      case True
      with \<open>exp16 h = 0\<close> nz show ?thesis by (simp add: body_def)
    qed
  qed
  moreover have "norm_bits (man16 h) < 2 ^ 31" if "man16 h \<noteq> 0"
    using that small shift_norm [of "man16 h" 23] top_bit_less [of "man16 h" 10] by (simp add: norm_bits_def)
  ultimately show ?thesis
    using small s by (subst eq, subst unat_or_high [of 31]) (simp_all)
qed

lemma fields16: "exp16 h < 2 ^ 5" "man16 h < 2 ^ 10" "sign16 h < 2"
  using unsigned_less [of h, where ?'a = nat]
  by (simp_all add: exp16_def man16_def sign16_def less_mult_imp_div_less)

lemma fields32: "exp32 f < 2 ^ 8" "man32 f < 2 ^ 23" "sign32 f < 2"
  using unsigned_less [of "bits_of f", where ?'a = nat]
  by (simp_all add: exp32_def man32_def sign32_def less_mult_imp_div_less)

lemma unat_fields16: "unat h = sign16 h * 2 ^ 15 + exp16 h * 2 ^ 10 + man16 h"
  using nat_fields [of "unat h" 10 5] by (simp add: sign16_def exp16_def man16_def)

lemma unat_fields32: "unat (bits_of f) = sign32 f * 2 ^ 31 + exp32 f * 2 ^ 23 + man32 f"
  using nat_fields [of "unat (bits_of f)" 23 8] by (simp add: sign32_def exp32_def man32_def)

lemma fields32_eqI:
  assumes "unat (bits_of f) = s * 2 ^ 31 + e * 2 ^ 23 + m" "e < 2 ^ 8" "m < 2 ^ 23"
  shows "sign32 f = s" "exp32 f = e" "man32 f = m"
proof -
  have d: "(s * 2 ^ 31 + e * 2 ^ 23 + m) div 2 ^ 23 = s * 2 ^ 8 + e"
    using assms(3) by simp
  then have "(s * 2 ^ 31 + e * 2 ^ 23 + m) div 2 ^ 31 = (s * 2 ^ 8 + e) div 2 ^ 8"
    by (simp flip: d div_mult2_eq)
  moreover have "(s * 2 ^ 31 + e * 2 ^ 23 + m) mod 2 ^ 23 = m"
    using assms(3) by (simp add: mod_add_left_eq [symmetric] mod_mult_self2_is_0 mod_mult_right_eq [symmetric])
  ultimately show "sign32 f = s" "exp32 f = e" "man32 f = m"
    using assms d by (simp_all add: sign32_def exp32_def man32_def)
qed

lemma norm_bits_less:
  assumes "0 < m" "m < 2 ^ 10"
  shows "m * 2 ^ (23 - top_bit m) - 2 ^ 23 < 2 ^ 23" "2 ^ 23 \<le> m * 2 ^ (23 - top_bit m)"
    "top_bit m < 10"
  using shift_norm [OF assms(1), of 23] top_bit_less [OF assms] by simp_all

lemma half_to_float_fields:
  "sign32 (half_to_float oob h) = sign16 h"
  "exp16 h \<noteq> 0 \<Longrightarrow> exp32 (half_to_float oob h) = exp16 h + 112"
  "exp16 h \<noteq> 0 \<Longrightarrow> man32 (half_to_float oob h) = man16 h * 2 ^ 13"
  "exp16 h = 0 \<Longrightarrow> man16 h \<noteq> 0 \<Longrightarrow> exp32 (half_to_float oob h) = top_bit (man16 h) + 103"
  "exp16 h = 0 \<Longrightarrow> man16 h \<noteq> 0 \<Longrightarrow>
     man32 (half_to_float oob h) = man16 h * 2 ^ (23 - top_bit (man16 h)) - 2 ^ 23"
  "exp16 h = 0 \<Longrightarrow> man16 h = 0 \<Longrightarrow> exp32 (half_to_float oob h) = 0 \<and> man32 (half_to_float oob h) = 0"
proof -
  let ?f = "half_to_float oob h"
  have "sign32 ?f = sign16 h \<and> exp32 ?f = exp16 h + 112 \<and> man32 ?f = man16 h * 2 ^ 13" if "exp16 h \<noteq> 0"
    using fields32_eqI [of ?f "sign16 h" "exp16 h + 112" "man16 h * 2 ^ 13"] half_to_float_unat [of oob h]
      fields16 [of h] that by simp
  moreover have "sign32 ?f = sign16 h \<and> exp32 ?f = top_bit (man16 h) + 103 \<and>
      man32 ?f = man16 h * 2 ^ (23 - top_bit (man16 h)) - 2 ^ 23" if "exp16 h = 0" "man16 h \<noteq> 0"
    using fields32_eqI [of ?f "sign16 h" "top_bit (man16 h) + 103" "man16 h * 2 ^ (23 - top_bit (man16 h)) - 2 ^ 23"]
      half_to_float_unat [of oob h] fields16 [of h] norm_bits_less [of "man16 h"] that by (simp add: norm_bits_def)
  moreover have "sign32 ?f = sign16 h \<and> exp32 ?f = 0 \<and> man32 ?f = 0" if "exp16 h = 0" "man16 h = 0"
    using fields32_eqI [of ?f "sign16 h" 0 0] half_to_float_unat [of oob h] that by simp
  ultimately show "sign32 ?f = sign16 h"
    "exp16 h \<noteq> 0 \<Longrightarrow> exp32 ?f = exp16 h + 112"
    "exp16 h \<noteq> 0 \<Longrightarrow> man32 ?f = man16 h * 2 ^ 13"
    "exp16 h = 0 \<Longrightarrow> man16 h \<noteq> 0 \<Longrightarrow> exp32 ?f = top_bit (man16 h) + 103"
    "exp16 h = 0 \<Longrightarrow> man16 h \<noteq> 0 \<Longrightarrow> man32 ?f = man16 h * 2 ^ (23 - top_bit (man16 h)) - 2 ^ 23"
    "exp16 h = 0 \<Longrightarrow> man16 h = 0 \<Longrightarrow> exp32 ?f = 0 \<and> man32 ?f = 0"
    by blast+
qed

lemma half_to_float_mag:
  "mag 23 (exp32 (half_to_float oob h)) (man32 (half_to_float oob h)) = mag 10 (exp16 h) (man16 h) * 2 ^ 125"
proof (cases "exp16 h = 0")
  case False
  then have "(2::nat) ^ (111 + exp16 h) = 2 ^ (exp16 h - 1) * 2 ^ 112"
    by (simp only: power_add [symmetric]) simp
  then show ?thesis
    using False half_to_float_fields(2,3) [of h oob] by (simp add: mag_def algebra_simps)
next
  case True
  show ?thesis
  proof (cases "man16 h = 0")
    case False
    define t where "t = top_bit (man16 h)"
    have t: "t < 10" "2 ^ 23 \<le> man16 h * 2 ^ (23 - t)"
      using norm_bits_less [of "man16 h"] False fields16 [of h] by (simp_all add: t_def)
    have "(2::nat) ^ (23 - t) * 2 ^ (102 + t) = 2 ^ 125"
      using t(1) by (simp only: power_add [symmetric]) simp
    then have "man16 h * 2 ^ (23 - t) * 2 ^ (102 + t) = man16 h * 2 ^ 125"
      by (simp only: mult.assoc)
    with True False t show ?thesis
      by (simp add: half_to_float_fields mag_def flip: t_def)
  qed (simp add: True half_to_float_fields mag_def)
qed

text \<open>C18: the conversion from 16-bit to single precision is exact: for every bit pattern, denormals and
  both zeros included, the float it returns denotes the same real number, whatever an
  out-of-range shift yields.\<close>

theorem half_to_float_exact: "val32 (half_to_float oob h) = val16 h"
  by (simp add: val32_def val16_def half_to_float_mag half_to_float_fields(1))

definition half_mag :: "nat \<Rightarrow> nat \<Rightarrow> nat" where
  "half_mag e m =
     (if e > 143 then 0x7FFF
      else if e > 112 then (e - 112) * 2 ^ 10 + m div 2 ^ 13
      else if e > 101 then ((0x007FF000 + m) div 2 ^ (125 - e) + 1) div 2 else 0)"

lemma half_mag_less: "m < 2 ^ 23 \<Longrightarrow> half_mag e m < 2 ^ 15"
proof -
  assume m: "m < 2 ^ 23"
  have "((0x007FF000 + m) div 2 ^ (125 - e) + 1) div 2 < 2 ^ 15" if "e \<le> 112"
  proof -
    have "(0x007FF000 + m) div 2 ^ (125 - e) \<le> (0x007FF000 + m) div 2 ^ 13"
      using that by (intro div_le_mono2 power_increasing) simp_all
    also have "\<dots> \<le> 2 ^ 11" using m by simp
    finally show ?thesis by simp
  qed
  moreover have "(e - 112) * 2 ^ 10 + m div 2 ^ 13 < 2 ^ 15" if "e \<le> 143"
    using that m less_mult_imp_div_less [of m "2 ^ 10" "2 ^ 13"] by (cases "e = 143") simp_all
  ultimately show ?thesis by (simp add: half_mag_def)
qed

lemma float_to_half_unat:
  assumes b: "b = bits_of x + 0x1000"
  shows "unat (float_to_half oob x) =
     unat b div 2 ^ 31 * 2 ^ 15 + half_mag (unat b div 2 ^ 23 mod 2 ^ 8) (unat b mod 2 ^ 23)"
proof -
  have A: "(0x7F800000 :: INT32U) = (2 ^ 8 - 1) * 2 ^ 23" "(0x007FFFFF :: INT32U) = (2 ^ 23 - 1) * 2 ^ 0"
    "(0x80000000 :: INT32U) = (2 ^ 1 - 1) * 2 ^ 31" "(0x7C00 :: INT32U) = (2 ^ 5 - 1) * 2 ^ 10"
    by simp_all
  define e where "e = drop_bit 23 (b AND 0x7F800000)"
  define m where "m = b AND 0x007FFFFF"
  define s where "s = drop_bit 16 (b AND 0x80000000)"
  define E where "E = unat b div 2 ^ 23 mod 2 ^ 8"
  define M where "M = unat b mod 2 ^ 23"
  have lim: "E < 2 ^ 8" "M < 2 ^ 23" "unat b div 2 ^ 31 < 2"
    using unsigned_less [of b, where ?'a = nat] by (simp_all add: E_def M_def less_mult_imp_div_less)
  have e: "unat e = E"
    using unat_and_field [OF A(1), of b] lim by (simp only: e_def unat_shr) (simp add: E_def)
  have m: "unat m = M"
    using unat_and_field [OF A(2), of b] lim by (simp add: m_def M_def)
  have s: "unat s = unat b div 2 ^ 31 * 2 ^ 15"
    using unat_and_field [OF A(3), of b] lim by (simp only: s_def unat_shr) simp
  have cmp: "e > 112 \<longleftrightarrow> E > 112" "e < 113 \<longleftrightarrow> E < 113" "e > 101 \<longleftrightarrow> E > 101" "e > 143 \<longleftrightarrow> E > 143"
    by (simp_all add: word_less_nat_alt e)
  define n where "n = (if E > 112 then (push_bit 10 (e - 112) AND 0x7C00) OR drop_bit 13 m else 0)"
  define d where "d = (if E < 113 \<and> E > 101 then drop_bit 1 (c_shr oob (0x007FF000 + m) (125 - e) + 1) else 0)"
  define c where "c = (if E > 143 then 0x7FFF else 0 :: INT32U)"
  have "float_to_half oob x = ucast (s OR c_bool (e > 112) * ((push_bit 10 (e - 112) AND 0x7C00) OR drop_bit 13 m) OR
      (c_bool (e < 113) AND c_bool (e > 101)) * drop_bit 1 (c_shr oob (0x007FF000 + m) (125 - e) + 1) OR
      c_bool (e > 143) * 0x7FFF)"
    by (simp only: float_to_half_def Let_def as_uint_def b e_def m_def s_def)
  then have eq: "float_to_half oob x = ucast (s OR (n OR d OR c))"
    by (simp only: cmp n_def d_def c_def c_bool_def or.assoc) simp
  have n: "unat n = (if E > 112 then (E - 112) mod 2 ^ 5 * 2 ^ 10 + M div 2 ^ 13 else 0)"
  proof (cases "E > 112")
    case True
    have "unat (e - 112) = E - 112"
      using True by (simp add: unat_sub word_le_nat_alt e)
    then have "unat (push_bit 10 (e - 112) AND 0x7C00) = (E - 112) mod 2 ^ 5 * 2 ^ 10"
      using unat_and_field [OF A(4), of "push_bit 10 (e - 112)"] lim True by (simp add: unat_push)
    then show ?thesis
      using True lim m by (simp add: n_def, subst unat_or_high [of 10])
        (simp_all add: unat_shr less_mult_imp_div_less del: drop_bit_eq_div)
  qed (simp add: n_def)
  have d: "unat d = (if E < 113 \<and> E > 101 then ((0x007FF000 + M) div 2 ^ (125 - E) + 1) div 2 else 0)"
  proof (cases "E < 113 \<and> E > 101")
    case True
    have u: "unat (125 - e) = 125 - E"
      using True by (simp add: unat_sub word_le_nat_alt e)
    then have "unat (125 - e) < 32" using True by linarith
    then have "125 - e < 32" by (simp add: word_less_nat_alt)
    with u have "c_shr oob (0x007FF000 + m) (125 - e) = drop_bit (125 - E) (0x007FF000 + m)"
      by (simp only: c_shr_def if_True)
    moreover have "unat (0x007FF000 + m) = 0x007FF000 + M"
      using lim m by (simp add: unat_word_ariths)
    moreover have "(0x007FF000 + M) div 2 ^ (125 - E) < 2 ^ 24"
      using lim by (intro le_less_trans [OF div_le_dividend]) simp
    ultimately have "unat (c_shr oob (0x007FF000 + m) (125 - e) + 1) = (0x007FF000 + M) div 2 ^ (125 - E) + 1"
      by (simp add: unat_word_ariths unat_shr del: drop_bit_eq_div)
    moreover have "d = drop_bit 1 (c_shr oob (0x007FF000 + m) (125 - e) + 1)"
      using True by (simp add: d_def)
    ultimately have "unat d = ((0x007FF000 + M) div 2 ^ (125 - E) + 1) div 2"
      by (simp only: unat_shr) simp
    with True show ?thesis by simp
  next
    case False
    then have "d = 0" unfolding d_def by (rule if_not_P)
    with False show ?thesis by auto
  qed
  have nlt: "unat n < 2 ^ 15"
  proof -
    have "(E - 112) mod 32 < 32" "M div 8192 < 1024"
      using lim less_mult_imp_div_less [of M 1024 8192] by simp_all
    then have "(E - 112) mod 32 * 1024 + M div 8192 < 32768" by linarith
    then show ?thesis by (simp add: n)
  qed
  have body: "unat (n OR d OR c) = half_mag E M"
  proof (cases "E > 143")
    case True
    then have "n OR d OR c = 0x7FFF"
      using or_mask_full [OF nlt, of "0x7FFF"] by (simp add: d_def c_def)
    with True show ?thesis by (simp add: half_mag_def)
  next
    case False
    show ?thesis
    proof (cases "E > 112")
      case True
      then have "(E - 112) mod 2 ^ 5 = E - 112" using False by simp
      with True False n show ?thesis by (simp add: d_def c_def half_mag_def)
    next
      case below: False
      with False d show ?thesis by (simp add: n_def c_def half_mag_def)
    qed
  qed
  have "unat (s OR (n OR d OR c)) = unat b div 2 ^ 31 * 2 ^ 15 + half_mag E M"
    using half_mag_less [OF lim(2), of E] s body by (subst unat_or_high [of 15]) simp_all
  moreover have "\<dots> < 2 ^ 16"
    using lim(3) half_mag_less [OF lim(2), of E] by simp
  ultimately show ?thesis
    unfolding eq E_def [symmetric] M_def [symmetric] by (simp add: unsigned_ucast_eq take_bit_nat_eq_self)
qed

lemma float_to_half_eqI:
  assumes "unat (bits_of x) + 0x1000 < 2 ^ 32"
    and "unat (bits_of x) + 0x1000 = s * 2 ^ 31 + e * 2 ^ 23 + m" "e < 2 ^ 8" "m < 2 ^ 23"
  shows "unat (float_to_half oob x) = s * 2 ^ 15 + half_mag e m"
proof -
  define b where "b = bits_of x + 0x1000"
  have "unat b = s * 2 ^ 31 + e * 2 ^ 23 + m"
    using assms(1,2) by (simp add: b_def unat_word_ariths)
  then have "bits_of (Float32 b) = b" "sign32 (Float32 b) = s" "exp32 (Float32 b) = e" "man32 (Float32 b) = m"
    using fields32_eqI [of "Float32 b" s e m] assms(3,4) by simp_all
  then show ?thesis
    using float_to_half_unat [OF b_def, of oob] by (simp add: sign32_def exp32_def man32_def)
qed

text \<open>C19: converting any 16-bit float to single precision and back gives the same bit pattern.\<close>

theorem half_float_roundtrip: "float_to_half oob (half_to_float oob' h) = h"
proof -
  let ?f = "half_to_float oob' h"
  have m16: "man16 h < 2 ^ 10" "exp16 h < 2 ^ 5" "sign16 h < 2" using fields16 by blast+
  have "unat (float_to_half oob ?f) = sign16 h * 2 ^ 15 + exp16 h * 2 ^ 10 + man16 h"
  proof (cases "exp16 h = 0")
    case False
    then have "unat (float_to_half oob ?f) = sign16 h * 2 ^ 15 + half_mag (exp16 h + 112) (man16 h * 2 ^ 13 + 0x1000)"
      using half_to_float_unat [of oob' h] m16 by (intro float_to_half_eqI) simp_all
    with False m16 show ?thesis by (simp add: half_mag_def)
  next
    case True
    show ?thesis
    proof (cases "man16 h = 0")
      case zero: True
      have "unat (float_to_half oob ?f) = sign16 h * 2 ^ 15 + half_mag 0 0x1000"
        using half_to_float_unat [of oob' h] m16 True zero by (intro float_to_half_eqI) simp_all
      with True zero show ?thesis by (simp add: half_mag_def)
    next
      case pos: False
      define t where "t = top_bit (man16 h)"
      define w where "w = man16 h * 2 ^ (10 - t)"
      have t: "t < 10" using norm_bits_less(3) [of "man16 h"] pos m16 by (simp add: t_def)
      have w: "2 ^ 10 \<le> w" "w < 2 ^ 11" "w mod 2 ^ (10 - t) = 0" "w div 2 ^ (10 - t) = man16 h"
        using shift_norm [of "man16 h" 10] pos t by (simp_all add: w_def t_def)
      have wm: "man16 h * 2 ^ (23 - t) = w * 2 ^ 13"
      proof -
        have "23 - t = (10 - t) + 13" using t by simp
        then show ?thesis by (simp only: w_def power_add mult.assoc)
      qed
      then have nb: "norm_bits (man16 h) = (t + 103) * 2 ^ 23 + (w * 2 ^ 13 - 2 ^ 23)"
        by (simp only: norm_bits_def flip: t_def)
      have "unat (float_to_half oob ?f) = sign16 h * 2 ^ 15 + half_mag (t + 103) (w * 2 ^ 13 - 2 ^ 23 + 0x1000)"
        using half_to_float_unat [of oob' h] m16 True pos t w nb by (intro float_to_half_eqI) simp_all
      moreover have "half_mag (t + 103) (w * 2 ^ 13 - 2 ^ 23 + 0x1000) = ((w * 2 ^ 13) div 2 ^ (22 - t) + 1) div 2"
      proof -
        have "0x007FF000 + (w * 2 ^ 13 - 2 ^ 23 + 0x1000) = w * 2 ^ 13" "125 - (t + 103) = 22 - t"
          using w(1) by simp_all
        with t show ?thesis by (simp only: half_mag_def) simp
      qed
      moreover have "((w * 2 ^ 13) div 2 ^ (22 - t) + 1) div 2 = man16 h"
      proof -
        have "23 - t = Suc (22 - t)" using t by simp
        then have "w * 2 ^ 13 = man16 h * 2 * 2 ^ (22 - t)" by (simp only: wm [symmetric] power_Suc mult.assoc)
        then have "(w * 2 ^ 13) div 2 ^ (22 - t) = man16 h * 2"
          by (simp only: nonzero_mult_div_cancel_right) simp
        then show ?thesis by simp
      qed
      ultimately show ?thesis using True by simp
    qed
  qed
  then show ?thesis
    using unat_fields16 [of h] by (metis unsigned_word_eqI)
qed

section \<open>Rounding\<close>



definition carry :: "nat \<Rightarrow> nat \<Rightarrow> nat \<times> nat" where
  "carry e m = (if m + 0x1000 < 2 ^ 23 then (e, m + 0x1000) else (Suc e, m + 0x1000 - 2 ^ 23))"

definition half_units :: "nat \<Rightarrow> nat" where
  "half_units r = mag 10 (r div 2 ^ 10) (r mod 2 ^ 10)"


lemma mag_less: "m < 2 ^ 23 \<Longrightarrow> mag 23 e m < 2 ^ (e + 23)"
proof (cases e)
  case (Suc n)
  assume "m < 2 ^ 23"
  then have "(2 ^ 23 + m) * 2 ^ n < 2 ^ 24 * 2 ^ n" by (intro mult_strict_right_mono) simp_all
  then show ?thesis by (simp add: Suc mag_def power_add mult.commute)
qed (simp add: mag_def)


lemma float_to_half_carry:
  assumes "exp32 x < 255"
  shows "unat (float_to_half oob x) = sign32 x * 2 ^ 15 + (case carry (exp32 x) (man32 x) of (e, m) \<Rightarrow> half_mag e m)"
proof -
  note x = fields32 [of x] unat_fields32 [of x]
  show ?thesis
  proof (cases "man32 x + 0x1000 < 2 ^ 23")
    case True
    then have "unat (float_to_half oob x) = sign32 x * 2 ^ 15 + half_mag (exp32 x) (man32 x + 0x1000)"
      using assms x by (intro float_to_half_eqI) simp_all
    with True show ?thesis by (simp add: carry_def)
  next
    case False
    then have "unat (float_to_half oob x) = sign32 x * 2 ^ 15 + half_mag (Suc (exp32 x)) (man32 x + 0x1000 - 2 ^ 23)"
      using assms x by (intro float_to_half_eqI) simp_all
    with False show ?thesis by (simp add: carry_def)
  qed
qed

lemma half_fields:
  assumes "unat h = s * 2 ^ 15 + r" "r < 2 ^ 15"
  shows "sign16 h = s" "mag 10 (exp16 h) (man16 h) = half_units r"
proof -
  have "unat h div 2 ^ 10 = s * 2 ^ 5 + r div 2 ^ 10" "unat h mod 2 ^ 10 = r mod 2 ^ 10"
    using assms(1) by (simp_all add: mod_mult_right_eq [symmetric] mod_add_left_eq [symmetric])
  moreover have "r div 2 ^ 10 < 2 ^ 5" using assms(2) by (simp add: less_mult_imp_div_less)
  ultimately show "sign16 h = s" "mag 10 (exp16 h) (man16 h) = half_units r"
    using assms by (simp_all add: sign16_def exp16_def man16_def half_units_def)
qed



text \<open>C21: a finite float of magnitude \<open>2 ^ 17\<close> or more becomes the largest 16-bit value
  (131008, the format has no infinity) with the same sign.\<close>

theorem float_to_half_saturates:
  assumes "exp32 x < 255" "2 ^ 17 \<le> \<bar>val32 x\<bar>"
  shows "sign16 (float_to_half oob x) = sign32 x \<and> \<bar>val16 (float_to_half oob x)\<bar> = 131008"
proof -
  let ?M = "mag 23 (exp32 x) (man32 x)"
  have "\<bar>val32 x\<bar> = real ?M / 2 ^ 149" by (simp add: val32_def abs_mult)
  with assms(2) have "real (2 ^ 166) \<le> real ?M" by (simp add: field_simps)
  then have "2 ^ 166 \<le> ?M" by (simp only: of_nat_le_iff)
  then have "(2::nat) ^ 166 < 2 ^ (exp32 x + 23)" using mag_less [OF fields32(2), of "exp32 x" x] by linarith
  then have "144 \<le> exp32 x" by (simp only: power_strict_increasing_iff)
  then have "unat (float_to_half oob x) = sign32 x * 2 ^ 15 + 0x7FFF"
    using float_to_half_carry [OF assms(1), of oob] by (simp add: carry_def half_mag_def)
  from half_fields [OF this] show ?thesis
    by (simp add: val16_def half_units_def mag_def abs_mult)
qed

theorem float_to_half_saturates_witness:
  "sign16 (float_to_half (\<lambda>_ _. 0) (Float32 0xC8000000)) = 1 \<and> \<bar>val16 (float_to_half (\<lambda>_ _. 0) (Float32 0xC8000000))\<bar> = 131008"
proof -
  have "exp32 (Float32 0xC8000000) < 255" "sign32 (Float32 0xC8000000) = 1"
    by (simp_all add: exp32_def sign32_def)
  moreover have "2 ^ 17 \<le> \<bar>val32 (Float32 0xC8000000)\<bar>"
    by (simp add: val32_def sign32_def exp32_def man32_def mag_def)
  ultimately show ?thesis using float_to_half_saturates [of "Float32 0xC8000000" "\<lambda>_ _. 0"] by simp
qed


text \<open>
  Adding the rounding constant to the bits of a NaN can wrap the whole word round: this NaN
  becomes the half float zero.
\<close>

lemma float_to_half_nan: "float_to_half oob (Float32 0xFFFFFFFF) = 0"
  by (simp add: float_to_half_def Let_def as_uint_def c_shr_def)

section \<open>Reading the printed bits\<close>

fun read_bits :: "nat \<Rightarrow> string \<Rightarrow> nat" where
  "read_bits a [] = a"
| "read_bits a (c # cs) = read_bits (2 * a + of_bool (c = CHR ''1'')) cs"

lemma and_push_one_eq:
  fixes x :: INT32U
  assumes "i < 32"
  shows "(x AND push_bit i 1) = push_bit i 1 \<longleftrightarrow> bit x i"
proof
  assume "(x AND push_bit i 1) = push_bit i 1"
  then have "bit (x AND push_bit i 1) i = bit (push_bit i 1 :: INT32U) i" by (rule arg_cong)
  then show "bit x i" using assms by (simp add: bit_and_iff bit_push_bit_iff del: push_bit_of_1)
next
  assume "bit x i"
  then show "(x AND push_bit i 1) = push_bit i 1"
    by (auto intro!: bit_word_eqI simp: bit_and_iff bit_push_bit_iff bit_1_iff simp del: push_bit_of_1)
qed

lemma print_bits_eq: "n \<le> 32 \<Longrightarrow> print_bits n f = map (\<lambda>i. if bit f i then CHR ''1'' else CHR ''0'') (rev [0..<n])"
  unfolding print_bits_def by (rule map_cong) (auto simp: and_push_one_eq simp del: push_bit_of_1)

lemma read_bits_map:
  "read_bits a (map (\<lambda>i. if bit f i then CHR ''1'' else CHR ''0'') (rev [0..<n])) =
     a * 2 ^ n + take_bit n (unat (f :: INT32U))"
proof (induction n arbitrary: a)
  case (Suc n)
  have "bit (unat f) n = bit f n" by (simp add: bit_unsigned_iff)
  then show ?case
    using Suc by (simp add: take_bit_Suc_from_most algebra_simps del: take_bit_eq_mod)
qed simp

lemma read_print_bits: "n \<le> 32 \<Longrightarrow> read_bits 0 (print_bits n f) = take_bit n (unat f)"
  by (simp add: print_bits_eq read_bits_map del: take_bit_eq_mod)

text \<open>The printed digits, read as a binary number, are the number printed; the widths are fixed.\<close>

theorem print_reads_back:
  "read_bits 0 (print_float32 f) = unat f \<and> length (print_float32 f) = 32 \<and>
   read_bits 0 (print_float x) = unat (bits_of x) \<and>
   read_bits 0 (print_half h) = unat h \<and> length (print_half h) = 16"
proof -
  have "take_bit 32 (unat g) = unat g" for g :: INT32U
    using unsigned_less [of g, where ?'a = nat] by (simp add: take_bit_nat_eq_self_iff)
  moreover have "take_bit 16 (unat (ucast h :: INT32U)) = unat h"
    using unsigned_less [of h, where ?'a = nat] by (simp add: unat_ucast_up take_bit_nat_eq_self)
  ultimately show ?thesis
    by (simp add: print_float32_def print_float_def print_half_def read_print_bits)
       (simp add: print_bits_def)
qed
end
