(* ===== verification/Prio_Table.thy ===== *)
theory Prio_Table
  imports Prelude
begin

text \<open>
  Sets of task priorities as uC/OS-II keeps them (\<^verbatim>\<open>UCOSII/src/os_core.c\<close>): a table of bytes with
  one bit for each priority and a group byte with one bit for each byte of the table that is
  not zero. The ready list (\<open>OSRdyGrp\<close>, \<open>OSRdyTbl\<close>) and the wait list of every event control
  block (\<open>OSEventGrp\<close>, \<open>OSEventTbl\<close>) are such tables, and the priority found first is the
  smallest one, read off with the table \<open>OSUnMapTbl\<close>. The locale states what the kernel
  relies on: the operations are insertion, deletion and minimum on a set of numbers.
\<close>

section \<open>The configuration\<close>

abbreviation OS_LOWEST_PRIO :: nat where "OS_LOWEST_PRIO \<equiv> 20"
abbreviation OS_RDY_TBL_SIZE :: nat where "OS_RDY_TBL_SIZE \<equiv> 3"

section \<open>The priority resolution table\<close>

definition OSUnMapTbl :: "INT8U list" where
  "OSUnMapTbl =
    concat [
     [0, 0, 1, 0, 2, 0, 1, 0, 3, 0, 1, 0, 2, 0, 1, 0],
     [4, 0, 1, 0, 2, 0, 1, 0, 3, 0, 1, 0, 2, 0, 1, 0],
     [5, 0, 1, 0, 2, 0, 1, 0, 3, 0, 1, 0, 2, 0, 1, 0],
     [4, 0, 1, 0, 2, 0, 1, 0, 3, 0, 1, 0, 2, 0, 1, 0],
     [6, 0, 1, 0, 2, 0, 1, 0, 3, 0, 1, 0, 2, 0, 1, 0],
     [4, 0, 1, 0, 2, 0, 1, 0, 3, 0, 1, 0, 2, 0, 1, 0],
     [5, 0, 1, 0, 2, 0, 1, 0, 3, 0, 1, 0, 2, 0, 1, 0],
     [4, 0, 1, 0, 2, 0, 1, 0, 3, 0, 1, 0, 2, 0, 1, 0],
     [7, 0, 1, 0, 2, 0, 1, 0, 3, 0, 1, 0, 2, 0, 1, 0],
     [4, 0, 1, 0, 2, 0, 1, 0, 3, 0, 1, 0, 2, 0, 1, 0],
     [5, 0, 1, 0, 2, 0, 1, 0, 3, 0, 1, 0, 2, 0, 1, 0],
     [4, 0, 1, 0, 2, 0, 1, 0, 3, 0, 1, 0, 2, 0, 1, 0],
     [6, 0, 1, 0, 2, 0, 1, 0, 3, 0, 1, 0, 2, 0, 1, 0],
     [4, 0, 1, 0, 2, 0, 1, 0, 3, 0, 1, 0, 2, 0, 1, 0],
     [5, 0, 1, 0, 2, 0, 1, 0, 3, 0, 1, 0, 2, 0, 1, 0],
     [4, 0, 1, 0, 2, 0, 1, 0, 3, 0, 1, 0, 2, 0, 1, 0]]"

definition unmap :: "INT8U \<Rightarrow> INT8U" where
  "unmap x = OSUnMapTbl ! unat x"

text \<open>The number of the lowest set bit, counted by halving.\<close>

fun low_bit :: "nat \<Rightarrow> nat" where
  "low_bit n = (if odd n \<or> n = 0 then 0 else Suc (low_bit (n div 2)))"

declare low_bit.simps [simp del]

lemma OSUnMapTbl_eq: "map unat OSUnMapTbl = 0 # 0 # map low_bit [2..<256]"
  by (simp add: OSUnMapTbl_def low_bit.simps upt_rec_numeral)

lemma unat_unmap:
  assumes "x \<noteq> 0"
  shows "unat (unmap x) = low_bit (unat x)"
proof -
  have x: "unat x < 256" "0 < unat x"
    using unsigned_less [of x, where ?'a = nat] assms by (simp_all add: unat_gt_0)
  have "length OSUnMapTbl = 256"
    using arg_cong [OF OSUnMapTbl_eq, of length] by simp
  then have eq: "unat (unmap x) = (0 # 0 # map low_bit [2..<256]) ! unat x"
    using x by (simp only: unmap_def flip: OSUnMapTbl_eq) simp
  show ?thesis
  proof (cases "unat x = 1")
    case True
    then show ?thesis by (simp add: eq low_bit.simps)
  next
    case False
    with x obtain n where n: "unat x = Suc (Suc n)" by (metis One_nat_def gr0_conv_Suc not0_implies_Suc)
    with x(1) have "n < 256 - 2" by simp
    then show ?thesis unfolding eq n by (simp only: nth_Cons_Suc nth_map_upt) simp
  qed
qed

lemma low_bit_lowest: "0 < n \<Longrightarrow> bit n (low_bit n) \<and> (\<forall>i < low_bit n. \<not> bit n i)"
proof (induction n rule: low_bit.induct)
  case (1 n)
  show ?case
  proof (cases "odd n")
    case True
    then show ?thesis by (simp add: low_bit.simps [of n] bit_0)
  next
    case False
    with 1 have "bit (n div 2) (low_bit (n div 2)) \<and> (\<forall>i < low_bit (n div 2). \<not> bit (n div 2) i)" by auto
    with False 1(2) show ?thesis
      by (auto simp: low_bit.simps [of n] bit_Suc bit_0 less_Suc_eq_0_disj)
  qed
qed

text \<open>C17: the table lookup finds the number of the lowest set bit of a byte, for each of the 255
  bytes that have one.\<close>

theorem OSUnMapTbl_lowest:
  assumes "x \<noteq> 0"
  shows "unat (unmap x) < 8 \<and> bit x (unat (unmap x)) \<and> (\<forall>i < unat (unmap x). \<not> bit x i)"
proof -
  have "0 < unat x" using assms by (simp add: unat_gt_0)
  from low_bit_lowest [OF this]
  have l: "bit x (low_bit (unat x))" "\<forall>i < low_bit (unat x). \<not> bit x i"
    by (simp_all add: bit_unsigned_iff)
  from l(1) have "low_bit (unat x) < 8" using bit_imp_le_length by fastforce
  with l show ?thesis using assms by (simp add: unat_unmap)
qed

theorem OSUnMapTbl_lowest_witness: "bit (0x50 :: INT8U) (unat (unmap 0x50)) \<and> unat (unmap 0x50) = 4"
  using OSUnMapTbl_lowest [of "0x50"] by (simp add: unmap_def OSUnMapTbl_def)

section \<open>Tables of priorities\<close>

text \<open>
  The pair of a group byte and a table of bytes. A task control block keeps the index of the
  byte of its priority (\<open>OSTCBY\<close>) and the two masks (\<open>OSTCBBitX\<close>, \<open>OSTCBBitY\<close>), and the code
  sets and clears bits with these; an index outside the table is a fault.
\<close>

record prio_tab =
  Grp :: INT8U
  Tbl :: "INT8U list"

definition pt_set :: "INT8U \<Rightarrow> INT8U \<Rightarrow> INT8U \<Rightarrow> prio_tab \<Rightarrow> prio_tab option" where
  "pt_set y bitx bity p =
     (if unat y < length (Tbl p)
      then Some (p\<lparr>Grp := Grp p OR bity, Tbl := (Tbl p)[unat y := Tbl p ! unat y OR bitx]\<rparr>)
      else None)"

definition pt_clear :: "INT8U \<Rightarrow> INT8U \<Rightarrow> INT8U \<Rightarrow> prio_tab \<Rightarrow> prio_tab option" where
  "pt_clear y bitx bity p =
     (if unat y < length (Tbl p)
      then let t = Tbl p ! unat y AND NOT bitx
           in Some (p\<lparr>Grp := (if t = 0 then Grp p AND NOT bity else Grp p), Tbl := (Tbl p)[unat y := t]\<rparr>)
      else None)"

definition pt_highest :: "prio_tab \<Rightarrow> (INT8U \<times> INT8U) option" where
  "pt_highest p =
     (let y = unmap (Grp p)
      in if unat y < length (Tbl p) then Some (y, unmap (Tbl p ! unat y)) else None)"

definition pt_empty :: prio_tab where
  "pt_empty = \<lparr>Grp = 0, Tbl = replicate OS_RDY_TBL_SIZE 0\<rparr>"

text \<open>The parts of a priority, as \<open>OS_TCBInit\<close> computes them.\<close>

definition prio_y :: "INT8U \<Rightarrow> INT8U" where "prio_y p = drop_bit 3 p"
definition prio_x :: "INT8U \<Rightarrow> INT8U" where "prio_x p = p AND 0x07"
definition bit8 :: "INT8U \<Rightarrow> INT8U" where "bit8 n = push_bit (unat n) 1"
definition prio_of :: "INT8U \<Rightarrow> INT8U \<Rightarrow> INT8U" where "prio_of y x = push_bit 3 y + x"

section \<open>The set a table stands for\<close>

definition pt_members :: "prio_tab \<Rightarrow> INT8U set" where
  "pt_members p = {q. unat q div 8 < length (Tbl p) \<and> bit (Tbl p ! (unat q div 8)) (unat q mod 8)}"

definition pt_ok :: "prio_tab \<Rightarrow> bool" where
  "pt_ok p \<longleftrightarrow> length (Tbl p) = OS_RDY_TBL_SIZE \<and>
     (\<forall>y < 8. bit (Grp p) y \<longleftrightarrow> y < OS_RDY_TBL_SIZE \<and> Tbl p ! y \<noteq> 0)"

lemma unat_prio_y: "unat (prio_y p) = unat p div 8"
  using unat_shr [of 3 p] by (simp add: prio_y_def)

lemma unat_prio_x: "unat (prio_x p) = unat p mod 8"
proof -
  have "unat (p AND 0x07) = unat p div 2 ^ 0 mod 2 ^ 3 * 2 ^ 0 mod 2 ^ LENGTH(8)"
    by (rule unat_and_field) simp
  moreover have "unat p mod 8 mod 256 = unat p mod 8" by (rule mod_less) (simp add: less_le_trans [OF mod_less_divisor])
  ultimately show ?thesis by (simp add: prio_x_def)
qed

lemma bit_bit8: "unat n < 8 \<Longrightarrow> bit (bit8 n) i \<longleftrightarrow> i = unat n"
  by (auto simp: bit8_def bit_push_bit_iff bit_1_iff simp del: push_bit_of_1)

lemma bit_or8: "unat n < 8 \<Longrightarrow> bit (t OR bit8 n) i \<longleftrightarrow> bit t i \<or> i = unat n"
  by (simp add: bit_or_iff bit_bit8)

lemma bit_clear8: "unat n < 8 \<Longrightarrow> bit (t AND NOT (bit8 n)) i \<longleftrightarrow> bit t i \<and> i \<noteq> unat n"
  for t :: INT8U
  by (auto simp: bit_and_iff bit_not_iff bit_bit8 dest: bit_imp_le_length)

lemma byte_nonzero: "t \<noteq> 0 \<longleftrightarrow> (\<exists>i < 8. bit t i)" for t :: INT8U
proof
  assume "t \<noteq> 0"
  then show "\<exists>i < 8. bit t i" using OSUnMapTbl_lowest by blast
qed auto

lemma unat_prio_of:
  assumes "unat y < 32" "unat x < 8"
  shows "unat (prio_of y x) = 8 * unat y + unat x"
proof -
  have "unat (push_bit 3 y) = 8 * unat y" using assms(1) by (simp add: unat_push)
  then show ?thesis using assms by (simp add: prio_of_def unat_word_ariths)
qed

lemma prio_of_parts: "prio_of (prio_y p) (prio_x p) = p"
proof (rule word_unat_eq_iff [THEN iffD2])
  have "unat p < 256" using unsigned_less [of p, where ?'a = nat] by simp
  then have "unat (prio_of (prio_y p) (prio_x p)) = 8 * (unat p div 8) + unat p mod 8"
    by (subst unat_prio_of) (simp_all add: unat_prio_y unat_prio_x less_mult_imp_div_less)
  then show "unat (prio_of (prio_y p) (prio_x p)) = unat p" by simp
qed

text \<open>Membership after an update of one byte.\<close>

lemma div_mod_8_eq: "q = p \<longleftrightarrow> unat q div 8 = unat p div 8 \<and> unat q mod 8 = unat p mod 8" for p q :: INT8U
  by (metis div_mult_mod_eq word_unat_eq_iff)

lemma pt_members_update:
  assumes "unat p div 8 < length (Tbl s)"
    "\<And>i. i < 8 \<Longrightarrow> bit b i \<longleftrightarrow> (if i = unat p mod 8 then v else bit (Tbl s ! (unat p div 8)) i)"
  shows "pt_members (s\<lparr>Grp := g, Tbl := (Tbl s)[unat p div 8 := b]\<rparr>) =
    (if v then insert p (pt_members s) else pt_members s - {p})"
  using assms by (auto simp: pt_members_def nth_list_update div_mod_8_eq [of _ p] split: if_splits)

lemma pt_set_spec:
  assumes ok: "pt_ok s" and p: "p < 24"
  shows "\<exists>s'. pt_set (prio_y p) (bit8 (prio_x p)) (bit8 (prio_y p)) s = Some s' \<and> pt_ok s' \<and>
    pt_members s' = insert p (pt_members s)"
proof -
  have y: "unat p div 8 < 3" using p by (simp add: word_less_nat_alt less_mult_imp_div_less)
  have len: "length (Tbl s) = 3" using ok by (simp add: pt_ok_def)
  let ?b = "Tbl s ! (unat p div 8) OR bit8 (prio_x p)"
  have b: "bit ?b i \<longleftrightarrow> bit (Tbl s ! (unat p div 8)) i \<or> i = unat p mod 8" for i
    by (simp add: bit_or8 unat_prio_x)
  have "?b \<noteq> 0" using b [of "unat p mod 8"] by (metis bit_0_eq bot_apply bot_bool_def)
  moreover have "bit (Grp s OR bit8 (prio_y p)) i \<longleftrightarrow> bit (Grp s) i \<or> i = unat p div 8" for i
    using y by (simp add: bit_or8 unat_prio_y)
  ultimately have "pt_ok (s\<lparr>Grp := Grp s OR bit8 (prio_y p), Tbl := (Tbl s)[unat p div 8 := ?b]\<rparr>)"
    using ok y by (auto simp: pt_ok_def nth_list_update)
  moreover have "pt_members (s\<lparr>Grp := Grp s OR bit8 (prio_y p), Tbl := (Tbl s)[unat p div 8 := ?b]\<rparr>) =
      insert p (pt_members s)"
    using pt_members_update [of p s ?b True "Grp s OR bit8 (prio_y p)"] y len
    by (auto simp: b)
  ultimately show ?thesis using y len by (simp add: pt_set_def unat_prio_y)
qed

lemma pt_clear_spec:
  assumes ok: "pt_ok s" and p: "p < 24"
  shows "\<exists>s'. pt_clear (prio_y p) (bit8 (prio_x p)) (bit8 (prio_y p)) s = Some s' \<and> pt_ok s' \<and>
    pt_members s' = pt_members s - {p}"
proof -
  have y: "unat p div 8 < 3" using p by (simp add: word_less_nat_alt less_mult_imp_div_less)
  have len: "length (Tbl s) = 3" using ok by (simp add: pt_ok_def)
  let ?b = "Tbl s ! (unat p div 8) AND NOT (bit8 (prio_x p))"
  let ?g = "if ?b = 0 then Grp s AND NOT (bit8 (prio_y p)) else Grp s"
  have b: "bit ?b i \<longleftrightarrow> bit (Tbl s ! (unat p div 8)) i \<and> i \<noteq> unat p mod 8" for i
    by (simp add: bit_clear8 unat_prio_x)
  have nz: "Tbl s ! (unat p div 8) \<noteq> 0" if "?b \<noteq> 0" using that by auto
  have "bit (Grp s AND NOT (bit8 (prio_y p))) i \<longleftrightarrow> bit (Grp s) i \<and> i \<noteq> unat p div 8" for i
    using y by (simp add: bit_clear8 unat_prio_y)
  then have "pt_ok (s\<lparr>Grp := ?g, Tbl := (Tbl s)[unat p div 8 := ?b]\<rparr>)"
    using ok y nz by (auto simp: pt_ok_def nth_list_update)
  moreover have "pt_members (s\<lparr>Grp := ?g, Tbl := (Tbl s)[unat p div 8 := ?b]\<rparr>) = pt_members s - {p}"
    using pt_members_update [of p s ?b False ?g] y len by (auto simp: b)
  ultimately show ?thesis using y len by (simp add: pt_clear_def unat_prio_y Let_def)
qed

lemma pt_members_empty_iff: "pt_ok s \<Longrightarrow> Grp s = 0 \<longleftrightarrow> pt_members s = {}"
proof -
  assume ok: "pt_ok s"
  have "Grp s \<noteq> 0 \<longleftrightarrow> pt_members s \<noteq> {}"
  proof
    assume "Grp s \<noteq> 0"
    then obtain y where "y < 8" "bit (Grp s) y" by (auto simp: byte_nonzero)
    then have y: "y < 3" "Tbl s ! y \<noteq> 0" using ok by (simp_all add: pt_ok_def)
    from y(2) obtain x where x: "x < 8" "bit (Tbl s ! y) x" by (auto simp: byte_nonzero)
    then have "unat (of_nat (8 * y + x) :: INT8U) = 8 * y + x"
      using \<open>y < 3\<close> by (intro unat_of_nat_small) simp
    then have "of_nat (8 * y + x) \<in> pt_members s"
      using ok x \<open>y < 3\<close> by (simp only: pt_members_def pt_ok_def mem_Collect_eq) simp
    then show "pt_members s \<noteq> {}" by blast
  next
    assume "pt_members s \<noteq> {}"
    then obtain q where "q \<in> pt_members s" by blast
    then have q: "unat q div 8 < 3" "bit (Tbl s ! (unat q div 8)) (unat q mod 8)"
      using ok by (simp_all add: pt_members_def pt_ok_def)
    then have "Tbl s ! (unat q div 8) \<noteq> 0" by (metis bit_0_eq bot_apply bot_bool_def)
    then have "bit (Grp s) (unat q div 8)" using ok q by (simp add: pt_ok_def)
    then show "Grp s \<noteq> 0" by (metis bit_0_eq bot_apply bot_bool_def)
  qed
  then show ?thesis by blast
qed

lemma pt_members_bound: "pt_ok s \<Longrightarrow> q \<in> pt_members s \<Longrightarrow> q < 24"
proof -
  assume "pt_ok s" "q \<in> pt_members s"
  then have "unat q div 8 < 3" by (simp add: pt_members_def pt_ok_def)
  then show "q < 24" by (simp add: word_less_nat_alt)
qed

lemma pt_highest_spec:
  assumes ok: "pt_ok s" and ne: "pt_members s \<noteq> {}"
  shows "\<exists>y x. pt_highest s = Some (y, x) \<and> unat y < 3 \<and> unat x < 8 \<and> prio_of y x = Min (pt_members s)"
proof -
  define y where "y = unmap (Grp s)"
  have "Grp s \<noteq> 0" using ok ne by (simp add: pt_members_empty_iff)
  from OSUnMapTbl_lowest [OF this] have y8: "unat y < 8" and yb: "bit (Grp s) (unat y)"
    and yl: "\<forall>i < unat y. \<not> bit (Grp s) i" by (simp_all add: y_def)
  from ok y8 yb have y: "unat y < 3" "Tbl s ! unat y \<noteq> 0" by (simp_all add: pt_ok_def)
  define x where "x = unmap (Tbl s ! unat y)"
  from OSUnMapTbl_lowest [OF y(2)] have x8: "unat x < 8" and xb: "bit (Tbl s ! unat y) (unat x)"
    and xl: "\<forall>i < unat x. \<not> bit (Tbl s ! unat y) i" by (simp_all add: x_def)
  have len: "length (Tbl s) = 3" using ok by (simp add: pt_ok_def)
  have u: "unat (prio_of y x) = 8 * unat y + unat x" using y x8 by (simp add: unat_prio_of)
  have in_s: "prio_of y x \<in> pt_members s" using y x8 xb len by (simp add: pt_members_def u)
  have least: "prio_of y x \<le> q" if q: "q \<in> pt_members s" for q
  proof -
    have qy: "unat q div 8 < 3" and qx: "bit (Tbl s ! (unat q div 8)) (unat q mod 8)"
      using q len by (simp_all add: pt_members_def)
    then have "Tbl s ! (unat q div 8) \<noteq> 0" by (metis bit_0_eq bot_apply bot_bool_def)
    then have "bit (Grp s) (unat q div 8)" using ok qy by (simp add: pt_ok_def)
    with yl have "unat y \<le> unat q div 8" by (meson not_le)
    moreover have "unat x \<le> unat q mod 8" if "unat y = unat q div 8"
      using that qx xl by (metis not_le)
    ultimately have "8 * unat y + unat x \<le> 8 * (unat q div 8) + unat q mod 8" using x8 by linarith
    then have "8 * unat y + unat x \<le> unat q" by simp
    then show ?thesis by (simp add: word_le_nat_alt u)
  qed
  have "Min (pt_members s) = prio_of y x" using in_s least by (intro Min_eqI) simp_all
  moreover have "pt_highest s = Some (y, x)" using y len by (simp add: pt_highest_def x_def flip: y_def)
  ultimately show ?thesis using y x8 by metis
qed

lemma pt_empty_spec: "pt_ok pt_empty \<and> pt_members pt_empty = {}"
  by (auto simp: pt_empty_def pt_ok_def pt_members_def nth_Cons' split: if_splits)

section \<open>What the kernel relies on\<close>

text \<open>
  The interface between the table and the operations of the kernel: a set of priorities with
  insertion, deletion and minimum, that does not fault below a bound.
\<close>

locale prio_set =
  fixes ok :: "'s \<Rightarrow> bool"
    and members :: "'s \<Rightarrow> 'p :: linorder set"
    and bound :: 'p
    and ins :: "'p \<Rightarrow> 's \<Rightarrow> 's option"
    and del :: "'p \<Rightarrow> 's \<Rightarrow> 's option"
    and highest :: "'s \<Rightarrow> 'p option"
    and nobody :: "'s \<Rightarrow> bool"
    and none :: 's
  assumes finite_members: "finite (members s)"
    and members_bound: "ok s \<Longrightarrow> p \<in> members s \<Longrightarrow> p < bound"
    and none: "ok none" "members none = {}"
    and nobody: "ok s \<Longrightarrow> nobody s \<longleftrightarrow> members s = {}"
    and ins: "ok s \<Longrightarrow> p < bound \<Longrightarrow> \<exists>s'. ins p s = Some s' \<and> ok s' \<and> members s' = insert p (members s)"
    and del: "ok s \<Longrightarrow> p < bound \<Longrightarrow> \<exists>s'. del p s = Some s' \<and> ok s' \<and> members s' = members s - {p}"
    and highest: "ok s \<Longrightarrow> members s \<noteq> {} \<Longrightarrow> highest s = Some (Min (members s))"
begin

lemma ins_SomeD: "ins p s = Some s' \<Longrightarrow> ok s \<Longrightarrow> p < bound \<Longrightarrow> ok s' \<and> members s' = insert p (members s)"
  using ins by fastforce

lemma del_SomeD: "del p s = Some s' \<Longrightarrow> ok s \<Longrightarrow> p < bound \<Longrightarrow> ok s' \<and> members s' = members s - {p}"
  using del by fastforce

lemma highest_least:
  assumes "ok s" "members s \<noteq> {}"
  shows "\<exists>p \<in> members s. highest s = Some p \<and> (\<forall>q \<in> members s. p \<le> q)"
  using assms highest finite_members Min_in Min_le by (metis (no_types))

lemma highest_member: "ok s \<Longrightarrow> highest s = Some p \<Longrightarrow> members s \<noteq> {} \<Longrightarrow> p \<in> members s"
  using highest_least by fastforce

text \<open>Taking the first one out makes the set smaller: the loop that empties a wait list ends.\<close>

lemma pop_smaller:
  assumes "ok s" "members s \<noteq> {}" "highest s = Some p" "del p s = Some s'"
  shows "card (members s') < card (members s)"
proof -
  have "p \<in> members s" using assms highest_member by blast
  moreover have "members s' = members s - {p}" using assms del_SomeD members_bound calculation by blast
  ultimately show ?thesis using finite_members card_Diff1_less by metis
qed

text \<open>A new member is the first one exactly when it is smaller than those there.\<close>

lemma ins_highest:
  assumes "ok s" "p < bound" "ins p s = Some s'"
  shows "highest s' = Some (if members s = {} then p else min p (Min (members s)))"
proof -
  have "ok s'" "members s' = insert p (members s)" using ins_SomeD assms by blast+
  then show ?thesis using highest [of s'] finite_members by simp
qed

end

definition pt_ins :: "INT8U \<Rightarrow> prio_tab \<Rightarrow> prio_tab option" where
  "pt_ins p = pt_set (prio_y p) (bit8 (prio_x p)) (bit8 (prio_y p))"

definition pt_del :: "INT8U \<Rightarrow> prio_tab \<Rightarrow> prio_tab option" where
  "pt_del p = pt_clear (prio_y p) (bit8 (prio_x p)) (bit8 (prio_y p))"

definition pt_first :: "prio_tab \<Rightarrow> INT8U option" where
  "pt_first s = map_option (\<lambda>(y, x). prio_of y x) (pt_highest s)"

interpretation pt: prio_set pt_ok pt_members 24 pt_ins pt_del pt_first "\<lambda>s. Grp s = 0" pt_empty
proof unfold_locales
  show "finite (pt_members s)" for s by simp
  show "pt_ok pt_empty" "pt_members pt_empty = {}" using pt_empty_spec by simp_all
  show "pt_first s = Some (Min (pt_members s))" if "pt_ok s" "pt_members s \<noteq> {}" for s
    using pt_highest_spec [OF that] by (auto simp: pt_first_def)
qed (simp_all add: pt_members_bound pt_members_empty_iff pt_ins_def pt_del_def pt_set_spec pt_clear_spec)

end
