(* ===== verification/Os_Kernel.thy ===== *)
theory Os_Kernel
  imports Prio_Table
begin

text \<open>
  The data of the kernel (\<^verbatim>\<open>UCOSII/inc/ucos_ii.h\<close> with the configuration of
  \<^verbatim>\<open>server1_bsp/system.h\<close>): task and event control blocks, the global variables and the
  access to them. A pointer to a control block is its index in the array the block is
  allocated from, \<open>None\<close> is NULL. An operation returns \<open>None\<close> for a fault: a dereference of NULL
  or of the mark \<open>OS_TCB_RESERVED\<close>, an access outside an array, a loop that does not end.
\<close>

section \<open>Configuration and constants\<close>

abbreviation OS_MAX_TASKS :: nat where "OS_MAX_TASKS \<equiv> 10"
abbreviation OS_N_SYS_TASKS :: nat where "OS_N_SYS_TASKS \<equiv> 2"
abbreviation OS_N_TCBS :: nat where "OS_N_TCBS \<equiv> 12"
abbreviation OS_MAX_EVENTS :: nat where "OS_MAX_EVENTS \<equiv> 60"
abbreviation OS_MAX_QS :: nat where "OS_MAX_QS \<equiv> 20"
abbreviation OS_MAX_MEM_PART :: nat where "OS_MAX_MEM_PART \<equiv> 60"
abbreviation OS_MEM_NAME_SIZE :: nat where "OS_MEM_NAME_SIZE \<equiv> 32"
abbreviation OS_EVENT_NAME_SIZE :: nat where "OS_EVENT_NAME_SIZE \<equiv> 32"
abbreviation OS_TASK_NAME_SIZE :: nat where "OS_TASK_NAME_SIZE \<equiv> 32"
abbreviation OS_TASK_IDLE_PRIO :: INT8U where "OS_TASK_IDLE_PRIO \<equiv> 20"
abbreviation OS_TASK_STAT_PRIO :: INT8U where "OS_TASK_STAT_PRIO \<equiv> 19"
abbreviation OS_PRIO_SELF :: INT8U where "OS_PRIO_SELF \<equiv> 0xFF"
abbreviation OS_VERSION :: INT16U where "OS_VERSION \<equiv> 286"

abbreviation OS_STAT_RDY :: INT8U where "OS_STAT_RDY \<equiv> 0x00"
abbreviation OS_STAT_SEM :: INT8U where "OS_STAT_SEM \<equiv> 0x01"
abbreviation OS_STAT_MBOX :: INT8U where "OS_STAT_MBOX \<equiv> 0x02"
abbreviation OS_STAT_Q :: INT8U where "OS_STAT_Q \<equiv> 0x04"
abbreviation OS_STAT_SUSPEND :: INT8U where "OS_STAT_SUSPEND \<equiv> 0x08"
abbreviation OS_STAT_MULTI :: INT8U where "OS_STAT_MULTI \<equiv> 0x80"
abbreviation OS_STAT_PEND_ANY :: INT8U where "OS_STAT_PEND_ANY \<equiv> 0x37"

abbreviation OS_STAT_PEND_OK :: INT8U where "OS_STAT_PEND_OK \<equiv> 0"
abbreviation OS_STAT_PEND_TO :: INT8U where "OS_STAT_PEND_TO \<equiv> 1"
abbreviation OS_STAT_PEND_ABORT :: INT8U where "OS_STAT_PEND_ABORT \<equiv> 2"

abbreviation OS_EVENT_TYPE_UNUSED :: INT8U where "OS_EVENT_TYPE_UNUSED \<equiv> 0"
abbreviation OS_EVENT_TYPE_MBOX :: INT8U where "OS_EVENT_TYPE_MBOX \<equiv> 1"
abbreviation OS_EVENT_TYPE_Q :: INT8U where "OS_EVENT_TYPE_Q \<equiv> 2"
abbreviation OS_EVENT_TYPE_SEM :: INT8U where "OS_EVENT_TYPE_SEM \<equiv> 3"
abbreviation OS_EVENT_TYPE_MUTEX :: INT8U where "OS_EVENT_TYPE_MUTEX \<equiv> 4"

abbreviation OS_ERR_NONE :: INT8U where "OS_ERR_NONE \<equiv> 0"
abbreviation OS_ERR_EVENT_TYPE :: INT8U where "OS_ERR_EVENT_TYPE \<equiv> 1"
abbreviation OS_ERR_PEND_ISR :: INT8U where "OS_ERR_PEND_ISR \<equiv> 2"
abbreviation OS_ERR_POST_NULL_PTR :: INT8U where "OS_ERR_POST_NULL_PTR \<equiv> 3"
abbreviation OS_ERR_PEVENT_NULL :: INT8U where "OS_ERR_PEVENT_NULL \<equiv> 4"
abbreviation OS_ERR_INVALID_OPT :: INT8U where "OS_ERR_INVALID_OPT \<equiv> 7"
abbreviation OS_ERR_PDATA_NULL :: INT8U where "OS_ERR_PDATA_NULL \<equiv> 9"
abbreviation OS_ERR_TIMEOUT :: INT8U where "OS_ERR_TIMEOUT \<equiv> 10"
abbreviation OS_ERR_EVENT_NAME_TOO_LONG :: INT8U where "OS_ERR_EVENT_NAME_TOO_LONG \<equiv> 11"
abbreviation OS_ERR_PNAME_NULL :: INT8U where "OS_ERR_PNAME_NULL \<equiv> 12"
abbreviation OS_ERR_PEND_LOCKED :: INT8U where "OS_ERR_PEND_LOCKED \<equiv> 13"
abbreviation OS_ERR_PEND_ABORT :: INT8U where "OS_ERR_PEND_ABORT \<equiv> 14"
abbreviation OS_ERR_DEL_ISR :: INT8U where "OS_ERR_DEL_ISR \<equiv> 15"
abbreviation OS_ERR_NAME_GET_ISR :: INT8U where "OS_ERR_NAME_GET_ISR \<equiv> 17"
abbreviation OS_ERR_NAME_SET_ISR :: INT8U where "OS_ERR_NAME_SET_ISR \<equiv> 18"
abbreviation OS_ERR_TASK_NO_MORE_TCB :: INT8U where "OS_ERR_TASK_NO_MORE_TCB \<equiv> 66"
abbreviation OS_ERR_PRIO_EXIST :: INT8U where "OS_ERR_PRIO_EXIST \<equiv> 40"
abbreviation OS_ERR_PRIO :: INT8U where "OS_ERR_PRIO \<equiv> 41"
abbreviation OS_ERR_PRIO_INVALID :: INT8U where "OS_ERR_PRIO_INVALID \<equiv> 42"
abbreviation OS_ERR_SEM_OVF :: INT8U where "OS_ERR_SEM_OVF \<equiv> 50"
abbreviation OS_ERR_TASK_CREATE_ISR :: INT8U where "OS_ERR_TASK_CREATE_ISR \<equiv> 60"
abbreviation OS_ERR_TASK_DEL :: INT8U where "OS_ERR_TASK_DEL \<equiv> 61"
abbreviation OS_ERR_TASK_DEL_IDLE :: INT8U where "OS_ERR_TASK_DEL_IDLE \<equiv> 62"
abbreviation OS_ERR_TASK_DEL_REQ :: INT8U where "OS_ERR_TASK_DEL_REQ \<equiv> 63"
abbreviation OS_ERR_TASK_DEL_ISR :: INT8U where "OS_ERR_TASK_DEL_ISR \<equiv> 64"
abbreviation OS_ERR_TASK_NAME_TOO_LONG :: INT8U where "OS_ERR_TASK_NAME_TOO_LONG \<equiv> 65"
abbreviation OS_ERR_TASK_NOT_EXIST :: INT8U where "OS_ERR_TASK_NOT_EXIST \<equiv> 67"
abbreviation OS_ERR_TASK_NOT_SUSPENDED :: INT8U where "OS_ERR_TASK_NOT_SUSPENDED \<equiv> 68"
abbreviation OS_ERR_TASK_OPT :: INT8U where "OS_ERR_TASK_OPT \<equiv> 69"
abbreviation OS_ERR_TASK_RESUME_PRIO :: INT8U where "OS_ERR_TASK_RESUME_PRIO \<equiv> 70"
abbreviation OS_ERR_TASK_SUSPEND_IDLE :: INT8U where "OS_ERR_TASK_SUSPEND_IDLE \<equiv> 71"
abbreviation OS_ERR_TASK_SUSPEND_PRIO :: INT8U where "OS_ERR_TASK_SUSPEND_PRIO \<equiv> 72"
abbreviation OS_ERR_Q_FULL :: INT8U where "OS_ERR_Q_FULL \<equiv> 30"
abbreviation OS_ERR_Q_EMPTY :: INT8U where "OS_ERR_Q_EMPTY \<equiv> 31"
abbreviation OS_ERR_MBOX_FULL :: INT8U where "OS_ERR_MBOX_FULL \<equiv> 20"
abbreviation OS_ERR_TIME_NOT_DLY :: INT8U where "OS_ERR_TIME_NOT_DLY \<equiv> 80"
abbreviation OS_ERR_TIME_INVALID_MINUTES :: INT8U where "OS_ERR_TIME_INVALID_MINUTES \<equiv> 81"
abbreviation OS_ERR_TIME_INVALID_SECONDS :: INT8U where "OS_ERR_TIME_INVALID_SECONDS \<equiv> 82"
abbreviation OS_ERR_TIME_INVALID_MS :: INT8U where "OS_ERR_TIME_INVALID_MS \<equiv> 83"
abbreviation OS_ERR_TIME_ZERO_DLY :: INT8U where "OS_ERR_TIME_ZERO_DLY \<equiv> 84"
abbreviation OS_ERR_TIME_DLY_ISR :: INT8U where "OS_ERR_TIME_DLY_ISR \<equiv> 85"
abbreviation OS_ERR_TASK_WAITING :: INT8U where "OS_ERR_TASK_WAITING \<equiv> 73"

section \<open>Pointers\<close>

text \<open>
  A \<^verbatim>\<open>void *\<close>: NULL, an address of the client (a message), or one of the kernel's own blocks.
  An entry of the priority table is NULL, the mark \<open>OS_TCB_RESERVED\<close> or a task.
\<close>

datatype vptr = VNull | VAddr INT32U | VEcb nat | VQ nat | VTcb nat | VFlagGrp nat | VFlagNode nat | VMem nat

datatype prio_entry = PNull | PReserved | PTcb nat

section \<open>Control blocks\<close>

text \<open>The fields \<open>OSEventGrp\<close> and \<open>OSEventTbl\<close> are the two parts of \<open>OSEventWait\<close>.\<close>

record os_event =
  OSEventType :: INT8U
  OSEventPtr :: vptr
  OSEventCnt :: INT16U
  OSEventWait :: prio_tab
  OSEventName :: "INT8U list"

text \<open>
  \<open>OSTCBEventMultiPtr\<close> points to an array of the caller that ends with NULL; the model keeps
  the events in it.
\<close>

record os_tcb =
  OSTCBStkPtr :: INT32U
  OSTCBExtPtr :: vptr
  OSTCBStkBottom :: INT32U
  OSTCBStkSize :: INT32U
  OSTCBOpt :: INT16U
  OSTCBId :: INT16U
  OSTCBNext :: "nat option"
  OSTCBPrev :: "nat option"
  OSTCBEventPtr :: "nat option"
  OSTCBEventMultiPtr :: "nat list option"
  OSTCBMsg :: vptr
  OSTCBFlagNode :: "nat option"
  OSTCBFlagsRdy :: INT16U
  OSTCBDly :: INT16U
  OSTCBStat :: INT8U
  OSTCBStatPend :: INT8U
  OSTCBPrio :: INT8U
  OSTCBX :: INT8U
  OSTCBY :: INT8U
  OSTCBBitX :: INT8U
  OSTCBBitY :: INT8U
  OSTCBDelReq :: INT8U
  OSTCBCtxSwCtr :: INT32U
  OSTCBCyclesTot :: INT32U
  OSTCBCyclesStart :: INT32U
  OSTCBStkBase :: INT32U
  OSTCBStkUsed :: INT32U
  OSTCBTaskName :: "INT8U list"

text \<open>
  A queue control block. Its storage is an array of the client; \<open>OSQStart\<close>, \<open>OSQEnd\<close>,
  \<open>OSQIn\<close> and \<open>OSQOut\<close> are numbers of cells of the memory \<open>OSMem\<close>.
\<close>

record os_q =
  OSQPtr :: "nat option"
  OSQStart :: nat
  OSQEnd :: nat
  OSQIn :: nat
  OSQOut :: nat
  OSQSize :: INT16U
  OSQEntries :: INT16U

text \<open>
  A group of event flags, and the node of a task that waits for one. The node is a local
  variable of the waiting call, so a task has at most one: its number is that of the task's
  control block.
\<close>

record os_flag_grp =
  OSFlagType :: INT8U
  OSFlagWaitList :: vptr
  OSFlagFlags :: INT16U
  OSFlagName :: "INT8U list"

record os_flag_node =
  OSFlagNodeNext :: vptr
  OSFlagNodePrev :: vptr
  OSFlagNodeTCB :: vptr
  OSFlagNodeFlagGrp :: vptr
  OSFlagNodeFlags :: INT16U
  OSFlagNodeWaitType :: INT8U

text \<open>
  A memory partition. \<open>OSMemFreeBlk\<close> is the field \<open>OSMemFreeList\<close> of the structure (the name of
  the global variable too): the first free block, or, of a partition not in use, the next one.
\<close>

record os_mem =
  OSMemAddr :: INT32U
  OSMemFreeBlk :: vptr
  OSMemBlkSize :: INT32U
  OSMemNBlks :: INT32U
  OSMemNFree :: INT32U
  OSMemName :: "INT8U list"

section \<open>The global variables\<close>

text \<open>
  \<open>OSRdy\<close> holds \<open>OSRdyGrp\<close> and \<open>OSRdyTbl\<close>; \<open>OSMem\<close> is the memory that holds the messages of
  the queues, \<open>OSRam\<close> the words of memory, by address, that hold the stacks of
  the tasks and the blocks of the memory partitions.
\<close>

record kernel =
  OSTime :: INT32U
  OSIntNesting :: INT8U
  OSLockNesting :: INT8U
  OSTaskCtr :: INT8U
  OSRunning :: bool
  OSCtxSwCtr :: INT32U
  OSIdleCtr :: INT32U
  OSIdleCtrRun :: INT32U
  OSIdleCtrMax :: INT32U
  OSStatRdy :: bool
  OSCPUUsage :: INT8U
  OSTickStepState :: INT8U
  OSRdy :: prio_tab
  OSPrioCur :: INT8U
  OSPrioHighRdy :: INT8U
  OSTCBCur :: "nat option"
  OSTCBHighRdy :: "nat option"
  OSTCBList :: "nat option"
  OSTCBFreeList :: "nat option"
  OSTCBPrioTbl :: "prio_entry list"
  OSTCBTbl :: "nat \<Rightarrow> os_tcb"
  OSEventTbl :: "nat \<Rightarrow> os_event"
  OSEventFreeList :: "nat option"
  OSQTbl :: "nat \<Rightarrow> os_q"
  OSQFreeList :: "nat option"
  OSMem :: "nat \<Rightarrow> vptr"
  OSRam :: "INT32U \<Rightarrow> INT32U"
  OSFlagTbl :: "nat \<Rightarrow> os_flag_grp"
  OSFlagFreeList :: "nat option"
  OSFlagNodes :: "nat \<Rightarrow> os_flag_node"
  OSMemTbl :: "nat \<Rightarrow> os_mem"
  OSMemFreeList :: "nat option"

definition tcb_at :: "nat \<Rightarrow> kernel \<Rightarrow> os_tcb option" where
  "tcb_at t k = (if t < OS_N_TCBS then Some (OSTCBTbl k t) else None)"

definition set_tcb :: "nat \<Rightarrow> os_tcb \<Rightarrow> kernel \<Rightarrow> kernel" where
  "set_tcb t b k = k\<lparr>OSTCBTbl := (OSTCBTbl k)(t := b)\<rparr>"

definition ecb_at :: "nat \<Rightarrow> kernel \<Rightarrow> os_event option" where
  "ecb_at e k = (if e < OS_MAX_EVENTS then Some (OSEventTbl k e) else None)"

definition set_ecb :: "nat \<Rightarrow> os_event \<Rightarrow> kernel \<Rightarrow> kernel" where
  "set_ecb e b k = k\<lparr>OSEventTbl := (OSEventTbl k)(e := b)\<rparr>"

text \<open>The task control block that \<open>OSTCBPrioTbl[prio]\<close> points to.\<close>

definition tcb_prio :: "INT8U \<Rightarrow> kernel \<Rightarrow> nat option" where
  "tcb_prio p k =
     (if unat p < length (OSTCBPrioTbl k)
      then (case OSTCBPrioTbl k ! unat p of PTcb t \<Rightarrow> Some t | _ \<Rightarrow> None) else None)"

definition prio_at :: "INT8U \<Rightarrow> kernel \<Rightarrow> prio_entry option" where
  "prio_at p k = (if unat p < length (OSTCBPrioTbl k) then Some (OSTCBPrioTbl k ! unat p) else None)"

text \<open>The running task: \<open>OSTCBCur\<close>, dereferenced.\<close>

definition cur_tcb :: "kernel \<Rightarrow> (nat \<times> os_tcb) option" where
  "cur_tcb k = do { c \<leftarrow> OSTCBCur k; b \<leftarrow> tcb_at c k; Some (c, b) }"

end
