(* ===== verification/Os_Core.thy ===== *)
theory Os_Core
  imports Os_Kernel
begin

text \<open>
  The core of the kernel, \<^verbatim>\<open>UCOSII/src/os_core.c\<close>: the scheduler, the wait lists of events, the
  clock tick, the nesting of interrupts and of scheduler locks, the names of events, the
  initialisation of the free lists and of task control blocks. \<open>OS_TASK_SW\<close> and
  \<open>OSIntCtxSw\<close> are the switch of \<^verbatim>\<open>HAL/src/os_cpu_a.S\<close>, without registers and stacks.
\<close>

section \<open>Memory and strings\<close>

text \<open>Memory is a list of bytes that starts at the pointer; to run past its end is a fault.\<close>

fun OS_MemClr :: "INT8U list \<Rightarrow> nat \<Rightarrow> INT8U list option" where
  "OS_MemClr m 0 = Some m"
| "OS_MemClr [] (Suc n) = None"
| "OS_MemClr (b # m) (Suc n) = map_option (Cons 0) (OS_MemClr m n)"

fun OS_MemCopy :: "INT8U list \<Rightarrow> INT8U list \<Rightarrow> nat \<Rightarrow> INT8U list option" where
  "OS_MemCopy d s 0 = Some d"
| "OS_MemCopy (b # d) (c # s) (Suc n) = map_option (Cons c) (OS_MemCopy d s n)"
| "OS_MemCopy d s (Suc n) = None"

fun str_len :: "INT8U \<Rightarrow> INT8U list \<Rightarrow> INT8U option" where
  "str_len len [] = None"
| "str_len len (b # s) = (if b \<noteq> 0 then str_len (len + 1) s else Some len)"

definition OS_StrLen :: "INT8U list \<Rightarrow> INT8U option" where
  "OS_StrLen psrc = str_len 0 psrc"

fun str_copy :: "INT8U \<Rightarrow> INT8U list \<Rightarrow> INT8U list \<Rightarrow> (INT8U \<times> INT8U list) option" where
  "str_copy len d [] = None"
| "str_copy len [] (b # s) = None"
| "str_copy len (a # d) (b # s) =
     (if b \<noteq> 0 then map_option (\<lambda>(n, r). (n, b # r)) (str_copy (len + 1) d s) else Some (len, 0 # d))"

definition OS_StrCopy :: "INT8U list \<Rightarrow> INT8U list \<Rightarrow> (INT8U \<times> INT8U list) option" where
  "OS_StrCopy pdest psrc = str_copy 0 pdest psrc"

text \<open>The name (a question mark) of a block that has none.\<close>

definition name_unset :: "INT8U list \<Rightarrow> INT8U list" where
  "name_unset name = name[0 := 0x3F, 1 := 0]"

section \<open>Names of events\<close>

text \<open>
  \<open>perr\<close> tells whether the caller's error pointer is not NULL; the error is \<open>None\<close> when nothing
  is written to it. The name buffers are NULL or memory.
\<close>

definition named_event :: "INT8U \<Rightarrow> bool" where
  "named_event ty = (ty = OS_EVENT_TYPE_SEM \<or> ty = OS_EVENT_TYPE_MUTEX \<or> ty = OS_EVENT_TYPE_MBOX \<or> ty = OS_EVENT_TYPE_Q)"

definition OSEventNameGet ::
  "nat option \<Rightarrow> INT8U list option \<Rightarrow> bool \<Rightarrow> kernel \<Rightarrow> (INT8U \<times> INT8U option \<times> INT8U list option) option" where
  "OSEventNameGet pevent pname perr k =
     (if \<not> perr then Some (0, None, pname)
      else case pevent of None \<Rightarrow> Some (0, Some OS_ERR_PEVENT_NULL, pname)
      | Some e \<Rightarrow> (case pname of None \<Rightarrow> Some (0, Some OS_ERR_PNAME_NULL, pname)
      | Some buf \<Rightarrow>
         if OSIntNesting k > 0 then Some (0, Some OS_ERR_NAME_GET_ISR, pname)
         else do {
           ev \<leftarrow> ecb_at e k;
           if named_event (OSEventType ev)
           then do { (len, buf') \<leftarrow> OS_StrCopy buf (OSEventName ev); Some (len, Some OS_ERR_NONE, Some buf') }
           else Some (0, Some OS_ERR_EVENT_TYPE, pname) }))"

definition OSEventNameSet ::
  "nat option \<Rightarrow> INT8U list option \<Rightarrow> bool \<Rightarrow> kernel \<Rightarrow> (INT8U option \<times> kernel) option" where
  "OSEventNameSet pevent pname perr k =
     (if \<not> perr then Some (None, k)
      else case pevent of None \<Rightarrow> Some (Some OS_ERR_PEVENT_NULL, k)
      | Some e \<Rightarrow> (case pname of None \<Rightarrow> Some (Some OS_ERR_PNAME_NULL, k)
      | Some name \<Rightarrow>
         if OSIntNesting k > 0 then Some (Some OS_ERR_NAME_SET_ISR, k)
         else do {
           ev \<leftarrow> ecb_at e k;
           if named_event (OSEventType ev)
           then do {
             len \<leftarrow> OS_StrLen name;
             if len > of_nat (OS_EVENT_NAME_SIZE - 1) then Some (Some OS_ERR_EVENT_NAME_TOO_LONG, k)
             else do {
               (_, buf) \<leftarrow> OS_StrCopy (OSEventName ev) name;
               Some (Some OS_ERR_NONE, set_ecb e (ev\<lparr>OSEventName := buf\<rparr>) k) } }
           else Some (Some OS_ERR_EVENT_TYPE, k) }))"

section \<open>Wait lists\<close>

definition OS_EventWaitListInit :: "nat \<Rightarrow> kernel \<Rightarrow> kernel option" where
  "OS_EventWaitListInit pevent k =
     do { ev \<leftarrow> ecb_at pevent k; Some (set_ecb pevent (ev\<lparr>OSEventWait := pt_empty\<rparr>) k) }"

definition event_wait :: "nat \<Rightarrow> os_tcb \<Rightarrow> kernel \<Rightarrow> kernel option" where
  "event_wait e b k = do {
     ev \<leftarrow> ecb_at e k;
     w \<leftarrow> pt_set (OSTCBY b) (OSTCBBitX b) (OSTCBBitY b) (OSEventWait ev);
     Some (set_ecb e (ev\<lparr>OSEventWait := w\<rparr>) k) }"

definition event_unwait :: "nat \<Rightarrow> os_tcb \<Rightarrow> kernel \<Rightarrow> kernel option" where
  "event_unwait e b k = do {
     ev \<leftarrow> ecb_at e k;
     w \<leftarrow> pt_clear (OSTCBY b) (OSTCBBitX b) (OSTCBBitY b) (OSEventWait ev);
     Some (set_ecb e (ev\<lparr>OSEventWait := w\<rparr>) k) }"

text \<open>Clearing the running task's bit of the ready list.\<close>

definition cur_unready :: "kernel \<Rightarrow> kernel option" where
  "cur_unready k = do {
     (c, b) \<leftarrow> cur_tcb k;
     r \<leftarrow> pt_clear (OSTCBY b) (OSTCBBitX b) (OSTCBBitY b) (OSRdy k);
     Some (k\<lparr>OSRdy := r\<rparr>) }"

definition OS_EventTaskWait :: "nat \<Rightarrow> kernel \<Rightarrow> kernel option" where
  "OS_EventTaskWait pevent k = do {
     (c, b) \<leftarrow> cur_tcb k;
     let k = set_tcb c (b\<lparr>OSTCBEventPtr := Some pevent\<rparr>) k;
     k \<leftarrow> event_wait pevent b k;
     cur_unready k }"

fun wait_multi :: "nat list \<Rightarrow> os_tcb \<Rightarrow> kernel \<Rightarrow> kernel option" where
  "wait_multi [] b k = Some k"
| "wait_multi (e # es) b k = do { k \<leftarrow> event_wait e b k; wait_multi es b k }"

definition OS_EventTaskWaitMulti :: "nat list \<Rightarrow> kernel \<Rightarrow> kernel option" where
  "OS_EventTaskWaitMulti pevents_wait k = do {
     (c, b) \<leftarrow> cur_tcb k;
     let k = set_tcb c (b\<lparr>OSTCBEventPtr := None, OSTCBEventMultiPtr := Some pevents_wait\<rparr>) k;
     k \<leftarrow> wait_multi pevents_wait b k;
     cur_unready k }"

definition OS_EventTaskRemove :: "nat \<Rightarrow> nat \<Rightarrow> kernel \<Rightarrow> kernel option" where
  "OS_EventTaskRemove ptcb pevent k = do { b \<leftarrow> tcb_at ptcb k; event_unwait pevent b k }"

fun remove_multi :: "nat list \<Rightarrow> os_tcb \<Rightarrow> kernel \<Rightarrow> kernel option" where
  "remove_multi [] b k = Some k"
| "remove_multi (e # es) b k = do { k \<leftarrow> event_unwait e b k; remove_multi es b k }"

definition OS_EventTaskRemoveMulti :: "nat \<Rightarrow> nat list \<Rightarrow> kernel \<Rightarrow> kernel option" where
  "OS_EventTaskRemoveMulti ptcb pevents_multi k = do { b \<leftarrow> tcb_at ptcb k; remove_multi pevents_multi b k }"

text \<open>Setting a task's bit of the ready list, in the byte \<open>y\<close>.\<close>

definition make_ready :: "INT8U \<Rightarrow> os_tcb \<Rightarrow> kernel \<Rightarrow> kernel option" where
  "make_ready y b k = do { r \<leftarrow> pt_set y (OSTCBBitX b) (OSTCBBitY b) (OSRdy k); Some (k\<lparr>OSRdy := r\<rparr>) }"

text \<open>The end of \<open>OS_EventTaskRdy\<close>: the task leaves the wait list, and those of its other events.\<close>

definition leave_events :: "nat \<Rightarrow> nat \<Rightarrow> kernel \<Rightarrow> kernel option" where
  "leave_events ptcb pevent k = do {
     k \<leftarrow> OS_EventTaskRemove ptcb pevent k;
     b \<leftarrow> tcb_at ptcb k;
     case OSTCBEventMultiPtr b of
       None \<Rightarrow> Some k
     | Some es \<Rightarrow> do {
         k \<leftarrow> OS_EventTaskRemoveMulti ptcb es k;
         b \<leftarrow> tcb_at ptcb k;
         Some (set_tcb ptcb (b\<lparr>OSTCBEventPtr := Some pevent\<rparr>) k) } }"

definition OS_EventTaskRdy :: "nat \<Rightarrow> vptr \<Rightarrow> INT8U \<Rightarrow> INT8U \<Rightarrow> kernel \<Rightarrow> (INT8U \<times> kernel) option" where
  "OS_EventTaskRdy pevent pmsg msk pend_stat k = do {
     ev \<leftarrow> ecb_at pevent k;
     (y, x) \<leftarrow> pt_highest (OSEventWait ev);
     let prio = prio_of y x;
     ptcb \<leftarrow> tcb_prio prio k;
     b \<leftarrow> tcb_at ptcb k;
     let b = b\<lparr>OSTCBDly := 0, OSTCBMsg := pmsg, OSTCBStat := OSTCBStat b AND NOT msk, OSTCBStatPend := pend_stat\<rparr>;
     let k = set_tcb ptcb b k;
     k \<leftarrow> (if OSTCBStat b AND OS_STAT_SUSPEND = OS_STAT_RDY then make_ready y b k else Some k);
     k \<leftarrow> leave_events ptcb pevent k;
     Some (prio, k) }"

text \<open>The loop \<^verbatim>\<open>while (pevent->OSEventGrp != 0) OS_EventTaskRdy(...)\<close> of the services,
  with the number of tasks it wakes.\<close>

partial_function (option) rdy_all ::
  "nat \<Rightarrow> vptr \<Rightarrow> INT8U \<Rightarrow> INT8U \<Rightarrow> INT8U \<Rightarrow> kernel \<Rightarrow> (INT8U \<times> kernel) option" where
  "rdy_all pevent pmsg msk pend_stat nbr_tasks k = do {
     ev \<leftarrow> ecb_at pevent k;
     if Grp (OSEventWait ev) \<noteq> 0
     then do {
       (_, k) \<leftarrow> OS_EventTaskRdy pevent pmsg msk pend_stat k;
       rdy_all pevent pmsg msk pend_stat (nbr_tasks + 1) k }
     else Some (nbr_tasks, k) }"

text \<open>
  What every service that waits repeats: before it calls \<open>OS_Sched\<close> it marks the running task as
  waiting and moves it to the event's wait list; when the task runs again it clears the marks.
\<close>

definition pend_block :: "INT8U \<Rightarrow> INT16U \<Rightarrow> nat \<Rightarrow> kernel \<Rightarrow> kernel option" where
  "pend_block stat timeout pevent k = do {
     (c, b) \<leftarrow> cur_tcb k;
     OS_EventTaskWait pevent
       (set_tcb c (b\<lparr>OSTCBStat := OSTCBStat b OR stat, OSTCBStatPend := OS_STAT_PEND_OK, OSTCBDly := timeout\<rparr>) k) }"

definition pend_clear :: "kernel \<Rightarrow> kernel option" where
  "pend_clear k = do {
     (c, b) \<leftarrow> cur_tcb k;
     Some (set_tcb c (b\<lparr>OSTCBStat := OS_STAT_RDY, OSTCBStatPend := OS_STAT_PEND_OK, OSTCBEventPtr := None,
                       OSTCBEventMultiPtr := None\<rparr>) k) }"

text \<open>The two ways a service that may wait ends: it returns, or the caller waits.\<close>

datatype 'a outcome = Returns 'a | Blocked

section \<open>The list of free event control blocks\<close>

text \<open>The link of a free block, a \<^verbatim>\<open>void *\<close> that is read as a pointer to an event.\<close>

fun event_link :: "vptr \<Rightarrow> nat option option" where
  "event_link VNull = Some None"
| "event_link (VEcb e) = Some (Some e)"
| "event_link _ = None"

definition link_of :: "nat option \<Rightarrow> vptr" where
  "link_of l = (case l of None \<Rightarrow> VNull | Some e \<Rightarrow> VEcb e)"

definition event_alloc :: "kernel \<Rightarrow> (nat option \<times> kernel) option" where
  "event_alloc k = (case OSEventFreeList k of
       None \<Rightarrow> Some (None, k)
     | Some e \<Rightarrow> do {
         ev \<leftarrow> ecb_at e k;
         next \<leftarrow> event_link (OSEventPtr ev);
         Some (Some e, k\<lparr>OSEventFreeList := next\<rparr>) })"

definition event_free :: "nat \<Rightarrow> kernel \<Rightarrow> kernel option" where
  "event_free e k = do {
     ev \<leftarrow> ecb_at e k;
     let ev = ev\<lparr>OSEventName := name_unset (OSEventName ev), OSEventType := OS_EVENT_TYPE_UNUSED,
                 OSEventPtr := link_of (OSEventFreeList k), OSEventCnt := 0\<rparr>;
     Some (set_ecb e ev k\<lparr>OSEventFreeList := Some e\<rparr>) }"

section \<open>Scheduling\<close>

definition OS_SchedNew :: "kernel \<Rightarrow> kernel option" where
  "OS_SchedNew k = do {
     (y, x) \<leftarrow> pt_highest (OSRdy k);
     Some (k\<lparr>OSPrioHighRdy := prio_of y x\<rparr>) }"

definition OSCtxSw :: "kernel \<Rightarrow> kernel" where
  "OSCtxSw k = k\<lparr>OSTCBCur := OSTCBHighRdy k, OSPrioCur := OSPrioHighRdy k\<rparr>"

text \<open>
  What \<open>OS_Sched\<close> and \<open>OSIntExit\<close> do once the scheduler may run: find the highest priority, and
  switch to its task when it is not the running one.
\<close>

definition resched :: "kernel \<Rightarrow> kernel option" where
  "resched k = do {
     k \<leftarrow> OS_SchedNew k;
     if OSPrioHighRdy k \<noteq> OSPrioCur k
     then do {
       t \<leftarrow> tcb_prio (OSPrioHighRdy k) k;
       b \<leftarrow> tcb_at t k;
       let k = set_tcb t (b\<lparr>OSTCBCtxSwCtr := OSTCBCtxSwCtr b + 1\<rparr>) (k\<lparr>OSTCBHighRdy := Some t\<rparr>);
       Some (OSCtxSw (k\<lparr>OSCtxSwCtr := OSCtxSwCtr k + 1\<rparr>)) }
     else Some k }"

definition OS_Sched :: "kernel \<Rightarrow> kernel option" where
  "OS_Sched k = (if OSIntNesting k = 0 then if OSLockNesting k = 0 then resched k else Some k else Some k)"

definition OSIntEnter :: "kernel \<Rightarrow> kernel" where
  "OSIntEnter k =
     (if OSRunning k then if OSIntNesting k < 255 then k\<lparr>OSIntNesting := OSIntNesting k + 1\<rparr> else k else k)"

definition OSIntExit :: "kernel \<Rightarrow> kernel option" where
  "OSIntExit k =
     (if OSRunning k
      then let k = (if OSIntNesting k > 0 then k\<lparr>OSIntNesting := OSIntNesting k - 1\<rparr> else k)
           in if OSIntNesting k = 0 then if OSLockNesting k = 0 then resched k else Some k else Some k
      else Some k)"

definition OSSchedLock :: "kernel \<Rightarrow> kernel" where
  "OSSchedLock k =
     (if OSRunning k
      then if OSIntNesting k = 0
           then if OSLockNesting k < 255 then k\<lparr>OSLockNesting := OSLockNesting k + 1\<rparr> else k
           else k
      else k)"

definition OSSchedUnlock :: "kernel \<Rightarrow> kernel option" where
  "OSSchedUnlock k =
     (if OSRunning k
      then if OSLockNesting k > 0
           then let k = k\<lparr>OSLockNesting := OSLockNesting k - 1\<rparr>
                in if OSLockNesting k = 0 then if OSIntNesting k = 0 then OS_Sched k else Some k else Some k
           else Some k
      else Some k)"

definition OSStartHighRdy :: "kernel \<Rightarrow> kernel" where
  "OSStartHighRdy k = OSCtxSw (k\<lparr>OSRunning := True\<rparr>)"

definition OSStart :: "kernel \<Rightarrow> kernel option" where
  "OSStart k =
     (if \<not> OSRunning k
      then do {
        k \<leftarrow> OS_SchedNew k;
        t \<leftarrow> tcb_prio (OSPrioHighRdy k) k;
        Some (OSStartHighRdy (k\<lparr>OSPrioCur := OSPrioHighRdy k, OSTCBHighRdy := Some t, OSTCBCur := Some t\<rparr>)) }
      else Some k)"

definition OSVersion :: INT16U where "OSVersion = OS_VERSION"

section \<open>The clock tick\<close>

abbreviation OS_TICK_STEP_DIS :: INT8U where "OS_TICK_STEP_DIS \<equiv> 0"
abbreviation OS_TICK_STEP_WAIT :: INT8U where "OS_TICK_STEP_WAIT \<equiv> 1"
abbreviation OS_TICK_STEP_ONCE :: INT8U where "OS_TICK_STEP_ONCE \<equiv> 2"

text \<open>What the tick does to one task control block: count down, and time out at zero.\<close>

definition tick_tcb :: "os_tcb \<Rightarrow> os_tcb" where
  "tick_tcb b =
     (if OSTCBDly b \<noteq> 0
      then let b = b\<lparr>OSTCBDly := OSTCBDly b - 1\<rparr>
           in if OSTCBDly b = 0
              then if OSTCBStat b AND OS_STAT_PEND_ANY \<noteq> OS_STAT_RDY
                   then b\<lparr>OSTCBStat := OSTCBStat b AND NOT OS_STAT_PEND_ANY, OSTCBStatPend := OS_STAT_PEND_TO\<rparr>
                   else b\<lparr>OSTCBStatPend := OS_STAT_PEND_OK\<rparr>
              else b
      else b)"

definition tick_task :: "nat \<Rightarrow> kernel \<Rightarrow> kernel option" where
  "tick_task t k = do {
     b \<leftarrow> tcb_at t k;
     let b' = tick_tcb b;
     let k = set_tcb t b' k;
     if OSTCBDly b \<noteq> 0 \<and> OSTCBDly b' = 0 \<and> OSTCBStat b' AND OS_STAT_SUSPEND = OS_STAT_RDY
     then make_ready (OSTCBY b') b' k
     else Some k }"

partial_function (option) tick_tasks :: "nat option \<Rightarrow> kernel \<Rightarrow> kernel option" where
  "tick_tasks ptcb k = do {
     t \<leftarrow> ptcb;
     b \<leftarrow> tcb_at t k;
     if OSTCBPrio b \<noteq> OS_TASK_IDLE_PRIO
     then do { k \<leftarrow> tick_task t k; b \<leftarrow> tcb_at t k; tick_tasks (OSTCBNext b) k }
     else Some k }"

definition OSTimeTick :: "kernel \<Rightarrow> kernel option" where
  "OSTimeTick k =
     (let k = k\<lparr>OSTime := OSTime k + 1\<rparr>
      in if OSRunning k
         then let (step, st) =
                (if OSTickStepState k = OS_TICK_STEP_DIS then (True, OSTickStepState k)
                 else if OSTickStepState k = OS_TICK_STEP_WAIT then (False, OSTickStepState k)
                 else if OSTickStepState k = OS_TICK_STEP_ONCE then (True, OS_TICK_STEP_WAIT)
                 else (True, OS_TICK_STEP_DIS));
              k = k\<lparr>OSTickStepState := st\<rparr>
              in if \<not> step then Some k else tick_tasks (OSTCBList k) k
         else Some k)"

section \<open>Initialisation\<close>

definition ecb_zero :: os_event where
  "ecb_zero = \<lparr>OSEventType = 0, OSEventPtr = VNull, OSEventCnt = 0, OSEventWait = pt_empty,
     OSEventName = replicate OS_EVENT_NAME_SIZE 0\<rparr>"

definition OS_InitEventList :: "kernel \<Rightarrow> kernel" where
  "OS_InitEventList k =
     (let init = (\<lambda>i link k. set_ecb i ((OSEventTbl k i)\<lparr>OSEventType := OS_EVENT_TYPE_UNUSED,
                     OSEventPtr := link, OSEventName := name_unset (OSEventName (OSEventTbl k i))\<rparr>) k);
          k = k\<lparr>OSEventTbl := (\<lambda>_. ecb_zero)\<rparr>;
          k = fold (\<lambda>i. init i (VEcb (Suc i))) [0..<OS_MAX_EVENTS - 1] k;
          k = init (OS_MAX_EVENTS - 1) VNull k
      in k\<lparr>OSEventFreeList := Some 0\<rparr>)"

definition OS_InitMisc :: "kernel \<Rightarrow> kernel" where
  "OS_InitMisc k = k\<lparr>OSTime := 0, OSIntNesting := 0, OSLockNesting := 0, OSTaskCtr := 0,
     OSRunning := False, OSCtxSwCtr := 0, OSIdleCtr := 0, OSIdleCtrRun := 0, OSIdleCtrMax := 0,
     OSStatRdy := False\<rparr>"

definition OS_InitRdyList :: "kernel \<Rightarrow> kernel" where
  "OS_InitRdyList k = k\<lparr>OSRdy := pt_empty, OSPrioCur := 0, OSPrioHighRdy := 0,
     OSTCBHighRdy := None, OSTCBCur := None\<rparr>"

definition tcb_zero :: os_tcb where
  "tcb_zero = \<lparr>OSTCBStkPtr = 0, OSTCBExtPtr = VNull, OSTCBStkBottom = 0, OSTCBStkSize = 0,
     OSTCBOpt = 0, OSTCBId = 0, OSTCBNext = None, OSTCBPrev = None, OSTCBEventPtr = None,
     OSTCBEventMultiPtr = None, OSTCBMsg = VNull, OSTCBFlagNode = None, OSTCBFlagsRdy = 0, OSTCBDly = 0, OSTCBStat = 0, OSTCBStatPend = 0,
     OSTCBPrio = 0, OSTCBX = 0, OSTCBY = 0, OSTCBBitX = 0, OSTCBBitY = 0, OSTCBDelReq = 0,
     OSTCBCtxSwCtr = 0, OSTCBCyclesTot = 0, OSTCBCyclesStart = 0, OSTCBStkBase = 0,
     OSTCBStkUsed = 0, OSTCBTaskName = replicate OS_TASK_NAME_SIZE 0\<rparr>"

definition OS_InitTCBList :: "kernel \<Rightarrow> kernel" where
  "OS_InitTCBList k =
     (let init = (\<lambda>i next k. set_tcb i ((OSTCBTbl k i)\<lparr>OSTCBNext := next,
                     OSTCBTaskName := name_unset (OSTCBTaskName (OSTCBTbl k i))\<rparr>) k);
          k = k\<lparr>OSTCBTbl := (\<lambda>_. tcb_zero), OSTCBPrioTbl := replicate (OS_LOWEST_PRIO + 1) PNull\<rparr>;
          k = fold (\<lambda>i. init i (Some (Suc i))) [0..<OS_MAX_TASKS + OS_N_SYS_TASKS - 1] k;
          k = init (OS_MAX_TASKS + OS_N_SYS_TASKS - 1) None k
      in k\<lparr>OSTCBList := None, OSTCBFreeList := Some 0\<rparr>)"

definition OS_TCBInit ::
  "INT8U \<Rightarrow> INT32U \<Rightarrow> INT32U \<Rightarrow> INT16U \<Rightarrow> INT32U \<Rightarrow> vptr \<Rightarrow> INT16U \<Rightarrow> kernel \<Rightarrow> (INT8U \<times> kernel) option" where
  "OS_TCBInit prio ptos pbos id_num stk_size pext opt k =
     (case OSTCBFreeList k of
        None \<Rightarrow> Some (OS_ERR_TASK_NO_MORE_TCB, k)
      | Some t \<Rightarrow> do {
          b \<leftarrow> tcb_at t k;
          let k = k\<lparr>OSTCBFreeList := OSTCBNext b\<rparr>;
          let b = b\<lparr>OSTCBStkPtr := ptos, OSTCBPrio := prio, OSTCBStat := OS_STAT_RDY,
                    OSTCBStatPend := OS_STAT_PEND_OK, OSTCBDly := 0, OSTCBExtPtr := pext,
                    OSTCBStkSize := stk_size, OSTCBStkBottom := pbos, OSTCBOpt := opt, OSTCBId := id_num,
                    OSTCBDelReq := OS_ERR_NONE\<rparr>;
          let b = b\<lparr>OSTCBY := prio_y prio, OSTCBX := prio_x prio, OSTCBBitY := bit8 (prio_y prio),
                    OSTCBBitX := bit8 (prio_x prio)\<rparr>;
          let b = b\<lparr>OSTCBEventPtr := None, OSTCBEventMultiPtr := None, OSTCBFlagNode := None, OSTCBMsg := VNull,
                    OSTCBCtxSwCtr := 0, OSTCBCyclesStart := 0, OSTCBCyclesTot := 0, OSTCBStkBase := 0,
                    OSTCBStkUsed := 0, OSTCBTaskName := name_unset (OSTCBTaskName b)\<rparr>;
          if unat prio < length (OSTCBPrioTbl k) then do {
            let k = k\<lparr>OSTCBPrioTbl := (OSTCBPrioTbl k)[unat prio := PTcb t]\<rparr>;
            let k = set_tcb t (b\<lparr>OSTCBNext := OSTCBList k, OSTCBPrev := None\<rparr>) k;
            k \<leftarrow> (case OSTCBList k of
                    None \<Rightarrow> Some k
                  | Some h \<Rightarrow> do { hb \<leftarrow> tcb_at h k; Some (set_tcb h (hb\<lparr>OSTCBPrev := Some t\<rparr>) k) });
            let k = k\<lparr>OSTCBList := Some t\<rparr>;
            r \<leftarrow> pt_set (OSTCBY b) (OSTCBBitX b) (OSTCBBitY b) (OSRdy k);
            Some (OS_ERR_NONE, k\<lparr>OSRdy := r, OSTaskCtr := OSTaskCtr k + 1\<rparr>) }
          else None })"

section \<open>The kernel's own tasks\<close>

text \<open>One round of the endless loop of the idle task.\<close>

definition OS_TaskIdle :: "kernel \<Rightarrow> kernel" where
  "OS_TaskIdle k = k\<lparr>OSIdleCtr := OSIdleCtr k + 1\<rparr>"

end
