(* ===== verification/Os_Inv.thy ===== *)
theory Os_Inv
  imports Os_Core
begin

text \<open>
  The invariant of the kernel and how its operations act on it. Most operations change the
  control block of one task, its bit in the ready list and its bits in wait lists; \<open>touches\<close>
  states that nothing else changes, and \<open>kernel_ok_touches\<close> reduces the invariant to the one task.
\<close>

section \<open>Tasks\<close>

definition ready :: "kernel \<Rightarrow> INT8U set" where
  "ready k = pt_members (OSRdy k)"

definition waiters :: "nat \<Rightarrow> kernel \<Rightarrow> INT8U set" where
  "waiters e k = pt_members (OSEventWait (OSEventTbl k e))"

definition waits :: "INT8U \<Rightarrow> kernel \<Rightarrow> nat set" where
  "waits p k = {e. e < OS_MAX_EVENTS \<and> p \<in> waiters e k}"

definition live :: "kernel \<Rightarrow> INT8U set" where
  "live k = {p. tcb_prio p k \<noteq> None}"

text \<open>The control block of the task of a priority.\<close>

definition tcb_of :: "INT8U \<Rightarrow> kernel \<Rightarrow> os_tcb" where
  "tcb_of p k = OSTCBTbl k (the (tcb_prio p k))"

definition tcb_fields :: "INT8U \<Rightarrow> os_tcb \<Rightarrow> bool" where
  "tcb_fields p b \<longleftrightarrow> OSTCBPrio b = p \<and> OSTCBX b = prio_x p \<and> OSTCBY b = prio_y p \<and>
     OSTCBBitX b = bit8 (prio_x p) \<and> OSTCBBitY b = bit8 (prio_y p)"

text \<open>The events a task can wait for: those of its array, or else the single one.\<close>

definition linked_events :: "os_tcb \<Rightarrow> nat set" where
  "linked_events b = (case OSTCBEventMultiPtr b of None \<Rightarrow> set_option (OSTCBEventPtr b) | Some es \<Rightarrow> set es)"

definition event_bound :: "os_tcb \<Rightarrow> bool" where
  "event_bound b \<longleftrightarrow> set_option (OSTCBEventPtr b) \<union> linked_events b \<subseteq> {..<OS_MAX_EVENTS}"

definition suspended :: "os_tcb \<Rightarrow> bool" where
  "suspended b \<longleftrightarrow> OSTCBStat b AND OS_STAT_SUSPEND \<noteq> OS_STAT_RDY"

definition pending :: "os_tcb \<Rightarrow> bool" where
  "pending b \<longleftrightarrow> OSTCBStat b AND OS_STAT_PEND_ANY \<noteq> OS_STAT_RDY"

text \<open>
  The invariant of one task: its precomputed fields; it is only in wait lists that its control
  block links to; when it is ready it is neither delayed nor suspended; when it is in a wait
  list, either it has timed out (and has not run since) or it is not ready and its status says
  that it waits.
\<close>

definition task_ok :: "INT8U \<Rightarrow> os_tcb \<Rightarrow> bool \<Rightarrow> nat set \<Rightarrow> bool" where
  "task_ok p b r ws \<longleftrightarrow> tcb_fields p b \<and>
     ws \<subseteq> linked_events b \<and> event_bound b \<and>
     (r \<longrightarrow> OSTCBDly b = 0 \<and> \<not> suspended b) \<and>
     (ws \<noteq> {} \<longrightarrow> p \<noteq> OS_TASK_IDLE_PRIO \<and>
        (OSTCBStatPend b = OS_STAT_PEND_TO \<and> OSTCBDly b = 0 \<or> \<not> r \<and> pending b))"

section \<open>The invariant\<close>

definition kernel_pre :: "kernel \<Rightarrow> bool" where
  "kernel_pre k \<longleftrightarrow> length (OSTCBPrioTbl k) = OS_LOWEST_PRIO + 1 \<and>
     pt_ok (OSRdy k) \<and> (\<forall>e < OS_MAX_EVENTS. pt_ok (OSEventWait (OSEventTbl k e))) \<and>
     ready k \<subseteq> live k \<and> (\<forall>e < OS_MAX_EVENTS. waiters e k \<subseteq> live k) \<and>
     (\<forall>p t. tcb_prio p k = Some t \<longrightarrow>
        t < OS_N_TCBS \<and> task_ok p (OSTCBTbl k t) (p \<in> ready k) (waits p k))"

text \<open>Once the idle task exists it is always ready, so there is always a task to run.\<close>

definition kernel_ok :: "kernel \<Rightarrow> bool" where
  "kernel_ok k \<longleftrightarrow> kernel_pre k \<and> OS_TASK_IDLE_PRIO \<in> ready k"

text \<open>
  \<open>running k p c\<close>: the running task has priority \<open>p\<close> and control block \<open>c\<close>. The scheduler
  compares with \<open>OSPrioCur\<close>, so it relies on \<open>sched_ok\<close>.
\<close>

definition running :: "kernel \<Rightarrow> INT8U \<Rightarrow> nat \<Rightarrow> bool" where
  "running k p c \<longleftrightarrow> OSTCBCur k = Some c \<and> tcb_prio p k = Some c"

definition sched_ok :: "kernel \<Rightarrow> bool" where
  "sched_ok k \<longleftrightarrow> (\<exists>c. running k (OSPrioCur k) c)"

text \<open>The running task is not in the middle of a wait: it calls a service.\<close>

definition at_call :: "kernel \<Rightarrow> INT8U \<Rightarrow> nat \<Rightarrow> bool" where
  "at_call k p c \<longleftrightarrow> running k p c \<and> waits p k = {} \<and> OSTCBEventMultiPtr (OSTCBTbl k c) = None"

lemma kernel_okD:
  assumes "kernel_ok k"
  shows "length (OSTCBPrioTbl k) = OS_LOWEST_PRIO + 1" "pt_ok (OSRdy k)"
    "e < OS_MAX_EVENTS \<Longrightarrow> pt_ok (OSEventWait (OSEventTbl k e))"
    "ready k \<subseteq> live k" "e < OS_MAX_EVENTS \<Longrightarrow> waiters e k \<subseteq> live k"
    "OS_TASK_IDLE_PRIO \<in> ready k"
    "tcb_prio p k = Some t \<Longrightarrow> t < OS_N_TCBS \<and> task_ok p (OSTCBTbl k t) (p \<in> ready k) (waits p k)"
  using assms by (simp_all add: kernel_ok_def kernel_pre_def)

lemma tcb_prio_bound: "tcb_prio p k = Some t \<Longrightarrow> length (OSTCBPrioTbl k) = OS_LOWEST_PRIO + 1 \<Longrightarrow> p < 24"
  by (simp add: tcb_prio_def word_less_nat_alt split: if_splits)

lemma tcb_fields_ops:
  assumes "tcb_fields p b"
  shows "pt_set (OSTCBY b) (OSTCBBitX b) (OSTCBBitY b) = pt_ins p"
    "pt_clear (OSTCBY b) (OSTCBBitX b) (OSTCBBitY b) = pt_del p"
  using assms by (auto simp: tcb_fields_def pt_ins_def pt_del_def)

section \<open>Operations on one task\<close>

text \<open>
  \<open>touches p t k k'\<close>: from \<open>k\<close> to \<open>k'\<close> only the task with priority \<open>p\<close> and control block \<open>t\<close> is
  changed, and its identity and its place in the list of tasks are not.
\<close>

definition same_task :: "os_tcb \<Rightarrow> os_tcb \<Rightarrow> bool" where
  "same_task b b' \<longleftrightarrow> OSTCBPrio b' = OSTCBPrio b \<and> OSTCBX b' = OSTCBX b \<and> OSTCBY b' = OSTCBY b \<and>
     OSTCBBitX b' = OSTCBBitX b \<and> OSTCBBitY b' = OSTCBBitY b \<and> OSTCBNext b' = OSTCBNext b \<and> OSTCBPrev b' = OSTCBPrev b"

definition touches :: "INT8U \<Rightarrow> nat \<Rightarrow> kernel \<Rightarrow> kernel \<Rightarrow> bool" where
  "touches p t k k' \<longleftrightarrow>
     k' = k\<lparr>OSRdy := OSRdy k', OSTCBTbl := OSTCBTbl k', OSEventTbl := OSEventTbl k'\<rparr> \<and>
     same_task (OSTCBTbl k t) (OSTCBTbl k' t) \<and> (\<forall>u. u \<noteq> t \<longrightarrow> OSTCBTbl k' u = OSTCBTbl k u) \<and>
     (pt_ok (OSRdy k) \<longrightarrow> pt_ok (OSRdy k')) \<and> (\<forall>q. q \<noteq> p \<longrightarrow> (q \<in> ready k' \<longleftrightarrow> q \<in> ready k)) \<and>
     (\<forall>e. OSEventTbl k' e = (OSEventTbl k e)\<lparr>OSEventWait := OSEventWait (OSEventTbl k' e)\<rparr>) \<and>
     (\<forall>e < OS_MAX_EVENTS. (pt_ok (OSEventWait (OSEventTbl k e)) \<longrightarrow> pt_ok (OSEventWait (OSEventTbl k' e))) \<and>
        (\<forall>q. q \<noteq> p \<longrightarrow> (q \<in> waiters e k' \<longleftrightarrow> q \<in> waiters e k)))"

lemma same_task_refl [simp]: "same_task b b"
  by (simp add: same_task_def)

lemma touches_refl [simp]: "touches p t k k"
  by (simp add: touches_def)

lemma touches_trans:
  assumes "touches p t k k'" "touches p t k' k''"
  shows "touches p t k k''"
proof -
  have "k'' = k\<lparr>OSRdy := OSRdy k'', OSTCBTbl := OSTCBTbl k'', OSEventTbl := OSEventTbl k''\<rparr>"
  proof -
    have "k'' = k'\<lparr>OSRdy := OSRdy k'', OSTCBTbl := OSTCBTbl k'', OSEventTbl := OSEventTbl k''\<rparr>"
      using assms(2) by (simp add: touches_def)
    also have "k' = k\<lparr>OSRdy := OSRdy k', OSTCBTbl := OSTCBTbl k', OSEventTbl := OSEventTbl k'\<rparr>"
      using assms(1) by (simp add: touches_def)
    finally show ?thesis by simp
  qed
  moreover have "OSEventTbl k'' e = (OSEventTbl k e)\<lparr>OSEventWait := OSEventWait (OSEventTbl k'' e)\<rparr>" for e
  proof -
    have "OSEventTbl k'' e = (OSEventTbl k' e)\<lparr>OSEventWait := OSEventWait (OSEventTbl k'' e)\<rparr>"
      using assms(2) unfolding touches_def by blast
    also have "OSEventTbl k' e = (OSEventTbl k e)\<lparr>OSEventWait := OSEventWait (OSEventTbl k' e)\<rparr>"
      using assms(1) unfolding touches_def by blast
    finally show ?thesis by simp
  qed
  moreover have "same_task (OSTCBTbl k t) (OSTCBTbl k'' t)"
    using assms by (simp add: touches_def same_task_def)
  ultimately show ?thesis
    using assms by (simp add: touches_def del: split_paired_All)
qed

lemma touches_kernel:
  assumes "touches p t k k'"
  shows "OSTCBPrioTbl k' = OSTCBPrioTbl k" "OSTCBCur k' = OSTCBCur k" "OSPrioCur k' = OSPrioCur k"
    "OSTCBList k' = OSTCBList k" "OSTCBFreeList k' = OSTCBFreeList k" "OSEventFreeList k' = OSEventFreeList k"
    "OSQTbl k' = OSQTbl k" "OSQFreeList k' = OSQFreeList k" "OSMem k' = OSMem k"
    "OSRunning k' = OSRunning k" "OSIntNesting k' = OSIntNesting k" "OSLockNesting k' = OSLockNesting k"
    "OSTaskCtr k' = OSTaskCtr k" "OSTime k' = OSTime k" "OSCtxSwCtr k' = OSCtxSwCtr k"
proof -
  have "k' = k\<lparr>OSRdy := OSRdy k', OSTCBTbl := OSTCBTbl k', OSEventTbl := OSEventTbl k'\<rparr>"
    using assms by (simp add: touches_def)
  then obtain r T E where "k' = k\<lparr>OSRdy := r, OSTCBTbl := T, OSEventTbl := E\<rparr>" by blast
  then show "OSTCBPrioTbl k' = OSTCBPrioTbl k" "OSTCBCur k' = OSTCBCur k" "OSPrioCur k' = OSPrioCur k"
    "OSTCBList k' = OSTCBList k" "OSTCBFreeList k' = OSTCBFreeList k" "OSEventFreeList k' = OSEventFreeList k"
    "OSQTbl k' = OSQTbl k" "OSQFreeList k' = OSQFreeList k" "OSMem k' = OSMem k"
    "OSRunning k' = OSRunning k" "OSIntNesting k' = OSIntNesting k" "OSLockNesting k' = OSLockNesting k"
    "OSTaskCtr k' = OSTaskCtr k" "OSTime k' = OSTime k" "OSCtxSwCtr k' = OSCtxSwCtr k"
    by simp_all
qed

lemma touches_tcb_prio: "touches p t k k' \<Longrightarrow> tcb_prio q k' = tcb_prio q k"
  by (simp add: tcb_prio_def touches_kernel)

lemma touches_live: "touches p t k k' \<Longrightarrow> live k' = live k"
  by (simp add: live_def touches_tcb_prio)

lemma touches_event:
  assumes "touches p t k k'"
  shows "OSEventType (OSEventTbl k' e) = OSEventType (OSEventTbl k e)"
    "OSEventPtr (OSEventTbl k' e) = OSEventPtr (OSEventTbl k e)"
    "OSEventCnt (OSEventTbl k' e) = OSEventCnt (OSEventTbl k e)"
    "OSEventName (OSEventTbl k' e) = OSEventName (OSEventTbl k e)"
proof -
  have "OSEventTbl k' e = (OSEventTbl k e)\<lparr>OSEventWait := OSEventWait (OSEventTbl k' e)\<rparr>"
    using assms unfolding touches_def by blast
  then obtain w where "OSEventTbl k' e = (OSEventTbl k e)\<lparr>OSEventWait := w\<rparr>" by blast
  then show "OSEventType (OSEventTbl k' e) = OSEventType (OSEventTbl k e)"
    "OSEventPtr (OSEventTbl k' e) = OSEventPtr (OSEventTbl k e)"
    "OSEventCnt (OSEventTbl k' e) = OSEventCnt (OSEventTbl k e)"
    "OSEventName (OSEventTbl k' e) = OSEventName (OSEventTbl k e)" by simp_all
qed

lemma touches_other:
  assumes "touches p t k k'"
  shows "u \<noteq> t \<Longrightarrow> OSTCBTbl k' u = OSTCBTbl k u" "same_task (OSTCBTbl k t) (OSTCBTbl k' t)"
    "q \<noteq> p \<Longrightarrow> q \<in> ready k' \<longleftrightarrow> q \<in> ready k"
    "e < OS_MAX_EVENTS \<Longrightarrow> q \<noteq> p \<Longrightarrow> q \<in> waiters e k' \<longleftrightarrow> q \<in> waiters e k"
    "pt_ok (OSRdy k) \<Longrightarrow> pt_ok (OSRdy k')"
    "e < OS_MAX_EVENTS \<Longrightarrow> pt_ok (OSEventWait (OSEventTbl k e)) \<Longrightarrow> pt_ok (OSEventWait (OSEventTbl k' e))"
  using assms unfolding touches_def by blast+

lemma touches_waits: "touches p t k k' \<Longrightarrow> q \<noteq> p \<Longrightarrow> waits q k' = waits q k"
  by (auto simp: touches_other waits_def)

lemma kernel_ok_touches:
  assumes ok: "kernel_ok k" and touch: "touches p t k k'" and p: "tcb_prio p k = Some t"
    and task: "task_ok p (OSTCBTbl k' t) (p \<in> ready k') (waits p k')"
    and idle: "p = OS_TASK_IDLE_PRIO \<Longrightarrow> p \<in> ready k'"
  shows "kernel_ok k'"
proof -
  note ok = kernel_okD [OF ok]
  have live: "live k' = live k" using touch by (rule touches_live)
  have p_live: "p \<in> live k" using p by (simp add: live_def)
  have "ready k' \<subseteq> live k'"
  proof
    fix q assume "q \<in> ready k'"
    then show "q \<in> live k'"
      using ok(4) p_live touches_other(3) [OF touch] unfolding live by (cases "q = p") auto
  qed
  moreover have "waiters e k' \<subseteq> live k'" if e: "e < OS_MAX_EVENTS" for e
  proof
    fix q assume "q \<in> waiters e k'"
    then show "q \<in> live k'"
      using ok(5) [OF e] p_live touches_other(4) [OF touch e] unfolding live by (cases "q = p") auto
  qed
  moreover have "u < OS_N_TCBS \<and> task_ok q (OSTCBTbl k' u) (q \<in> ready k') (waits q k')"
    if q: "tcb_prio q k' = Some u" for q u
  proof -
    have q': "tcb_prio q k = Some u" using q touch by (simp add: touches_tcb_prio)
    show ?thesis
    proof (cases "q = p")
      case True
      then show ?thesis using q' p task ok(7) by simp
    next
      case False
      have fields: "OSTCBPrio (OSTCBTbl k u) = q" "OSTCBPrio (OSTCBTbl k t) = p"
        using ok(7) [OF q'] ok(7) [OF p] by (auto simp: task_ok_def tcb_fields_def)
      with False have "u \<noteq> t" by auto
      then have "OSTCBTbl k' u = OSTCBTbl k u" by (rule touches_other(1) [OF touch])
      moreover have "q \<in> ready k' \<longleftrightarrow> q \<in> ready k" using False by (rule touches_other(3) [OF touch])
      moreover have "waits q k' = waits q k" using touch False by (rule touches_waits)
      ultimately show ?thesis using ok(7) [OF q'] by simp
    qed
  qed
  moreover have "OS_TASK_IDLE_PRIO \<in> ready k'"
    using idle ok(6) touches_other(3) [OF touch] by (cases "p = OS_TASK_IDLE_PRIO") auto
  ultimately show ?thesis
    using ok(1-3) touches_other(5,6) [OF touch]
    by (simp add: kernel_ok_def kernel_pre_def touches_kernel(1) [OF touch])
qed

lemma running_touches [simp]: "touches p t k k' \<Longrightarrow> running k' q c \<longleftrightarrow> running k q c"
  by (simp add: running_def touches_tcb_prio touches_kernel)

lemma sched_ok_touches [simp]: "touches p t k k' \<Longrightarrow> sched_ok k' \<longleftrightarrow> sched_ok k"
  by (simp add: sched_ok_def touches_kernel)

text \<open>Variables of the kernel that the invariant does not speak of.\<close>

named_theorems kernel_frame "the invariant and the view of tasks under updates of other variables"

lemma view_frame [kernel_frame]:
  "ready (k\<lparr>OSTime := a\<rparr>) = ready k" "waiters e (k\<lparr>OSTime := a\<rparr>) = waiters e k"
  "ready (k\<lparr>OSIntNesting := b\<rparr>) = ready k" "waiters e (k\<lparr>OSIntNesting := b\<rparr>) = waiters e k"
  "ready (k\<lparr>OSLockNesting := b\<rparr>) = ready k" "waiters e (k\<lparr>OSLockNesting := b\<rparr>) = waiters e k"
  "ready (k\<lparr>OSRunning := f\<rparr>) = ready k" "waiters e (k\<lparr>OSRunning := f\<rparr>) = waiters e k"
  "ready (k\<lparr>OSCtxSwCtr := a\<rparr>) = ready k" "waiters e (k\<lparr>OSCtxSwCtr := a\<rparr>) = waiters e k"
  "ready (k\<lparr>OSTCBCur := c\<rparr>) = ready k" "waiters e (k\<lparr>OSTCBCur := c\<rparr>) = waiters e k"
  "ready (k\<lparr>OSTCBHighRdy := c\<rparr>) = ready k" "waiters e (k\<lparr>OSTCBHighRdy := c\<rparr>) = waiters e k"
  "ready (k\<lparr>OSPrioCur := b\<rparr>) = ready k" "waiters e (k\<lparr>OSPrioCur := b\<rparr>) = waiters e k"
  "ready (k\<lparr>OSPrioHighRdy := b\<rparr>) = ready k" "waiters e (k\<lparr>OSPrioHighRdy := b\<rparr>) = waiters e k"
  "ready (k\<lparr>OSTickStepState := b\<rparr>) = ready k" "waiters e (k\<lparr>OSTickStepState := b\<rparr>) = waiters e k"
  "ready (k\<lparr>OSEventFreeList := c\<rparr>) = ready k" "waiters e (k\<lparr>OSEventFreeList := c\<rparr>) = waiters e k"
  "ready (k\<lparr>OSQTbl := q\<rparr>) = ready k" "waiters e (k\<lparr>OSQTbl := q\<rparr>) = waiters e k"
  "ready (k\<lparr>OSQFreeList := c\<rparr>) = ready k" "waiters e (k\<lparr>OSQFreeList := c\<rparr>) = waiters e k"
  "ready (k\<lparr>OSMem := m\<rparr>) = ready k" "waiters e (k\<lparr>OSMem := m\<rparr>) = waiters e k"
  by (simp_all add: ready_def waiters_def)

lemma tcb_prio_frame [kernel_frame]:
  "tcb_prio p (k\<lparr>OSTime := a\<rparr>) = tcb_prio p k" "tcb_prio p (k\<lparr>OSIntNesting := b\<rparr>) = tcb_prio p k"
  "tcb_prio p (k\<lparr>OSLockNesting := b\<rparr>) = tcb_prio p k" "tcb_prio p (k\<lparr>OSRunning := f\<rparr>) = tcb_prio p k"
  "tcb_prio p (k\<lparr>OSCtxSwCtr := a\<rparr>) = tcb_prio p k" "tcb_prio p (k\<lparr>OSTCBCur := c\<rparr>) = tcb_prio p k"
  "tcb_prio p (k\<lparr>OSTCBHighRdy := c\<rparr>) = tcb_prio p k" "tcb_prio p (k\<lparr>OSPrioCur := b\<rparr>) = tcb_prio p k"
  "tcb_prio p (k\<lparr>OSPrioHighRdy := b\<rparr>) = tcb_prio p k" "tcb_prio p (k\<lparr>OSTickStepState := b\<rparr>) = tcb_prio p k"
  "tcb_prio p (k\<lparr>OSEventFreeList := c\<rparr>) = tcb_prio p k" "tcb_prio p (k\<lparr>OSQTbl := q\<rparr>) = tcb_prio p k"
  "tcb_prio p (k\<lparr>OSQFreeList := c\<rparr>) = tcb_prio p k" "tcb_prio p (k\<lparr>OSMem := m\<rparr>) = tcb_prio p k"
  "tcb_prio p (k\<lparr>OSRdy := r\<rparr>) = tcb_prio p k" "tcb_prio p (set_ecb e ev k) = tcb_prio p k"
  by (simp_all add: tcb_prio_def set_ecb_def)

lemma kernel_ok_frame [kernel_frame]:
  "kernel_ok (k\<lparr>OSTime := a\<rparr>) = kernel_ok k" "kernel_ok (k\<lparr>OSIntNesting := b\<rparr>) = kernel_ok k"
  "kernel_ok (k\<lparr>OSLockNesting := b\<rparr>) = kernel_ok k" "kernel_ok (k\<lparr>OSRunning := f\<rparr>) = kernel_ok k"
  "kernel_ok (k\<lparr>OSCtxSwCtr := a\<rparr>) = kernel_ok k" "kernel_ok (k\<lparr>OSTCBCur := c\<rparr>) = kernel_ok k"
  "kernel_ok (k\<lparr>OSTCBHighRdy := c\<rparr>) = kernel_ok k" "kernel_ok (k\<lparr>OSPrioCur := b\<rparr>) = kernel_ok k"
  "kernel_ok (k\<lparr>OSPrioHighRdy := b\<rparr>) = kernel_ok k" "kernel_ok (k\<lparr>OSTickStepState := b\<rparr>) = kernel_ok k"
  "kernel_ok (k\<lparr>OSEventFreeList := c\<rparr>) = kernel_ok k" "kernel_ok (k\<lparr>OSQTbl := q\<rparr>) = kernel_ok k"
  "kernel_ok (k\<lparr>OSQFreeList := c\<rparr>) = kernel_ok k" "kernel_ok (k\<lparr>OSMem := m\<rparr>) = kernel_ok k"
  by (simp_all add: kernel_ok_def kernel_pre_def live_def waits_def view_frame tcb_prio_frame)

text \<open>An event control block is changed without its wait list.\<close>

lemma view_set_ecb:
  assumes "OSEventWait ev = OSEventWait (OSEventTbl k e)"
  shows "waiters e' (set_ecb e ev k) = waiters e' k" "waits p (set_ecb e ev k) = waits p k"
    "ready (set_ecb e ev k) = ready k"
  using assms by (auto simp: waiters_def waits_def set_ecb_def ready_def)

lemma kernel_ok_set_ecb:
  assumes "OSEventWait ev = OSEventWait (OSEventTbl k e)"
  shows "kernel_ok (set_ecb e ev k) \<longleftrightarrow> kernel_ok k"
proof -
  have "OSEventWait (OSEventTbl (set_ecb e ev k) i) = OSEventWait (OSEventTbl k i)" for i
    using assms by (simp add: set_ecb_def)
  moreover have "OSTCBPrioTbl (set_ecb e ev k) = OSTCBPrioTbl k" "OSRdy (set_ecb e ev k) = OSRdy k"
    "OSTCBTbl (set_ecb e ev k) = OSTCBTbl k" by (simp_all add: set_ecb_def)
  ultimately show ?thesis
    by (simp add: kernel_ok_def kernel_pre_def live_def view_set_ecb [OF assms] tcb_prio_frame)
qed

section \<open>The primitive steps\<close>

lemma touches_set_tcb: "same_task (OSTCBTbl k t) b \<Longrightarrow> touches p t k (set_tcb t b k)"
  by (simp add: touches_def set_tcb_def ready_def waiters_def)

lemma set_tcb_simps [simp]:
  "OSTCBTbl (set_tcb t b k) t = b" "OSRdy (set_tcb t b k) = OSRdy k"
  "OSEventTbl (set_tcb t b k) = OSEventTbl k" "tcb_prio q (set_tcb t b k) = tcb_prio q k"
  "ready (set_tcb t b k) = ready k" "waiters e (set_tcb t b k) = waiters e k" "waits q (set_tcb t b k) = waits q k"
  "OSTCBCur (set_tcb t b k) = OSTCBCur k"
  by (simp_all add: set_tcb_def tcb_prio_def ready_def waiters_def waits_def)

lemma tcb_at_less [simp]: "t < OS_N_TCBS \<Longrightarrow> tcb_at t k = Some (OSTCBTbl k t)"
  by (simp add: tcb_at_def)

lemma ecb_at_less [simp]: "e < OS_MAX_EVENTS \<Longrightarrow> ecb_at e k = Some (OSEventTbl k e)"
  by (simp add: ecb_at_def)

lemma make_ready_step:
  assumes "pt_ok (OSRdy k)" "p < 24" "tcb_fields p b" "y = prio_y p"
  shows "\<exists>k'. make_ready y b k = Some k' \<and> touches p t k k' \<and> OSTCBTbl k' = OSTCBTbl k \<and>
      ready k' = insert p (ready k) \<and> waits p k' = waits p k"
proof -
  from pt.ins [OF assms(1,2)] obtain r where "pt_ins p (OSRdy k) = Some r" "pt_ok r"
    "pt_members r = insert p (pt_members (OSRdy k))" by blast
  moreover have "pt_set y (OSTCBBitX b) (OSTCBBitY b) = pt_ins p"
    using assms(3,4) by (auto simp: tcb_fields_def pt_ins_def)
  ultimately show ?thesis by (simp add: make_ready_def touches_def ready_def waiters_def waits_def)
qed

lemma unrdy_step:
  assumes "pt_ok (OSRdy k)" "p < 24"
  shows "\<exists>r. pt_del p (OSRdy k) = Some r \<and> touches p t k (k\<lparr>OSRdy := r\<rparr>) \<and>
      ready (k\<lparr>OSRdy := r\<rparr>) = ready k - {p} \<and> waits p (k\<lparr>OSRdy := r\<rparr>) = waits p k"
proof -
  from pt.del [OF assms] obtain r where "pt_del p (OSRdy k) = Some r" "pt_ok r"
    "pt_members r = pt_members (OSRdy k) - {p}" by blast
  then show ?thesis by (simp add: touches_def ready_def waiters_def waits_def)
qed

lemma set_wait_step:
  assumes "pt_ok w" "\<And>q. q \<noteq> p \<Longrightarrow> q \<in> pt_members w \<longleftrightarrow> q \<in> waiters e k"
  shows "touches p t k (set_ecb e ((OSEventTbl k e)\<lparr>OSEventWait := w\<rparr>) k)"
  using assms by (auto simp: touches_def set_ecb_def ready_def waiters_def)

lemma event_wait_step:
  assumes "pt_ok (OSEventWait (OSEventTbl k e))" "e < OS_MAX_EVENTS" "p < 24" "tcb_fields p b"
  shows "\<exists>k'. event_wait e b k = Some k' \<and> touches p t k k' \<and> OSTCBTbl k' = OSTCBTbl k \<and>
      OSRdy k' = OSRdy k \<and> waits p k' = insert e (waits p k)"
proof -
  from pt.ins [OF assms(1,3)] obtain w where w: "pt_ins p (OSEventWait (OSEventTbl k e)) = Some w" "pt_ok w"
    "pt_members w = insert p (waiters e k)" by (auto simp: waiters_def)
  define k' where "k' = set_ecb e ((OSEventTbl k e)\<lparr>OSEventWait := w\<rparr>) k"
  have "touches p t k k'" unfolding k'_def by (rule set_wait_step) (simp_all add: w)
  moreover have "event_wait e b k = Some k'"
    using assms w(1) by (simp add: event_wait_def tcb_fields_ops k'_def)
  moreover have "waits p k' = insert e (waits p k)"
    using assms(2) w(3) by (auto simp: waits_def k'_def set_ecb_def waiters_def)
  ultimately show ?thesis by (simp add: k'_def set_ecb_def)
qed

lemma event_unwait_step:
  assumes "pt_ok (OSEventWait (OSEventTbl k e))" "e < OS_MAX_EVENTS" "p < 24" "tcb_fields p b"
  shows "\<exists>k'. event_unwait e b k = Some k' \<and> touches p t k k' \<and> OSTCBTbl k' = OSTCBTbl k \<and>
      OSRdy k' = OSRdy k \<and> waits p k' = waits p k - {e}"
proof -
  from pt.del [OF assms(1,3)] obtain w where w: "pt_del p (OSEventWait (OSEventTbl k e)) = Some w" "pt_ok w"
    "pt_members w = waiters e k - {p}" by (auto simp: waiters_def)
  define k' where "k' = set_ecb e ((OSEventTbl k e)\<lparr>OSEventWait := w\<rparr>) k"
  have "touches p t k k'" unfolding k'_def by (rule set_wait_step) (simp_all add: w)
  moreover have "event_unwait e b k = Some k'"
    using assms w(1) by (simp add: event_unwait_def tcb_fields_ops k'_def)
  moreover have "waits p k' = waits p k - {e}"
    using assms(2) w(3) by (auto simp: waits_def k'_def set_ecb_def waiters_def)
  ultimately show ?thesis by (simp add: k'_def set_ecb_def)
qed

lemma wait_multi_step:
  assumes "\<forall>e < OS_MAX_EVENTS. pt_ok (OSEventWait (OSEventTbl k e))" "set es \<subseteq> {..<OS_MAX_EVENTS}"
    "p < 24" "tcb_fields p b"
  shows "\<exists>k'. wait_multi es b k = Some k' \<and> touches p t k k' \<and> OSTCBTbl k' = OSTCBTbl k \<and>
      OSRdy k' = OSRdy k \<and> waits p k' = set es \<union> waits p k"
  using assms(1,2)
proof (induction es arbitrary: k)
  case (Cons e es)
  then have e: "e < OS_MAX_EVENTS" "set es \<subseteq> {..<OS_MAX_EVENTS}" by simp_all
  obtain k1 where k1: "event_wait e b k = Some k1" "touches p t k k1" "OSTCBTbl k1 = OSTCBTbl k"
    "OSRdy k1 = OSRdy k" "waits p k1 = insert e (waits p k)"
    using event_wait_step [of k e p b t] Cons.prems(1) e assms(3,4) by blast
  have "\<forall>e < OS_MAX_EVENTS. pt_ok (OSEventWait (OSEventTbl k1 e))"
    using Cons.prems(1) touches_other(6) [OF k1(2)] by blast
  from Cons.IH [OF this e(2)] obtain k2 where k2: "wait_multi es b k1 = Some k2" "touches p t k1 k2"
    "OSTCBTbl k2 = OSTCBTbl k1" "OSRdy k2 = OSRdy k1" "waits p k2 = set es \<union> waits p k1" by blast
  moreover have "touches p t k k2" using k1(2) k2(2) by (rule touches_trans)
  ultimately show ?case using k1 by auto
qed simp

lemma remove_multi_step:
  assumes "\<forall>e < OS_MAX_EVENTS. pt_ok (OSEventWait (OSEventTbl k e))" "set es \<subseteq> {..<OS_MAX_EVENTS}"
    "p < 24" "tcb_fields p b"
  shows "\<exists>k'. remove_multi es b k = Some k' \<and> touches p t k k' \<and> OSTCBTbl k' = OSTCBTbl k \<and>
      OSRdy k' = OSRdy k \<and> waits p k' = waits p k - set es"
  using assms(1,2)
proof (induction es arbitrary: k)
  case (Cons e es)
  then have e: "e < OS_MAX_EVENTS" "set es \<subseteq> {..<OS_MAX_EVENTS}" by simp_all
  obtain k1 where k1: "event_unwait e b k = Some k1" "touches p t k k1" "OSTCBTbl k1 = OSTCBTbl k"
    "OSRdy k1 = OSRdy k" "waits p k1 = waits p k - {e}"
    using event_unwait_step [of k e p b t] Cons.prems(1) e assms(3,4) by blast
  have "\<forall>e < OS_MAX_EVENTS. pt_ok (OSEventWait (OSEventTbl k1 e))"
    using Cons.prems(1) touches_other(6) [OF k1(2)] by blast
  from Cons.IH [OF this e(2)] obtain k2 where k2: "remove_multi es b k1 = Some k2" "touches p t k1 k2"
    "OSTCBTbl k2 = OSTCBTbl k1" "OSRdy k2 = OSRdy k1" "waits p k2 = waits p k1 - set es" by blast
  moreover have "touches p t k k2" using k1(2) k2(2) by (rule touches_trans)
  ultimately show ?case using k1 by auto
qed simp

end
