(* ===== verification/Os_Events.thy ===== *)
theory Os_Events
  imports Os_Inv
begin

text \<open>
  The wait lists of events: who is made ready, who waits, and that the invariant is kept.
\<close>

lemma prio_of_xy:
  assumes "unat y < 32" "unat x < 8"
  shows "prio_y (prio_of y x) = y" "prio_x (prio_of y x) = x"
proof -
  have "unat (prio_y (prio_of y x)) = unat y" "unat (prio_x (prio_of y x)) = unat x"
    using assms by (simp_all add: unat_prio_y unat_prio_x unat_prio_of)
  then show "prio_y (prio_of y x) = y" "prio_x (prio_of y x) = x" by (simp_all add: word_unat_eq_iff)
qed

text \<open>The control block of a task that is made ready by an event.\<close>

definition woken :: "nat \<Rightarrow> vptr \<Rightarrow> INT8U \<Rightarrow> INT8U \<Rightarrow> os_tcb \<Rightarrow> os_tcb" where
  "woken e msg msk st b =
     (let b = b\<lparr>OSTCBDly := 0, OSTCBMsg := msg, OSTCBStat := OSTCBStat b AND NOT msk, OSTCBStatPend := st\<rparr>
      in if OSTCBEventMultiPtr b = None then b else b\<lparr>OSTCBEventPtr := Some e\<rparr>)"

lemma suspended_mask:
  "msk AND OS_STAT_SUSPEND = 0 \<Longrightarrow> (s AND NOT msk) AND OS_STAT_SUSPEND = s AND OS_STAT_SUSPEND" for s msk :: INT8U
proof -
  assume m: "msk AND OS_STAT_SUSPEND = 0"
  have "\<not> (bit msk i \<and> bit (OS_STAT_SUSPEND :: INT8U) i)" for i
    using arg_cong [OF m, of "\<lambda>w. bit w i"] by (simp add: bit_and_iff)
  then show ?thesis by (intro bit_word_eqI) (auto simp: bit_and_iff bit_not_iff)
qed

lemma leave_events_step:
  assumes waits_ok: "\<forall>e < OS_MAX_EVENTS. pt_ok (OSEventWait (OSEventTbl k e))"
    and e: "e < OS_MAX_EVENTS" and t: "t < OS_N_TCBS" and p: "p < 24" "tcb_fields p (OSTCBTbl k t)"
    and lk: "waits p k \<subseteq> linked_events (OSTCBTbl k t)" "event_bound (OSTCBTbl k t)" "e \<in> waits p k"
  shows "\<exists>k'. leave_events t e k = Some k' \<and> touches p t k k' \<and>
      OSTCBTbl k' t = (if OSTCBEventMultiPtr (OSTCBTbl k t) = None then OSTCBTbl k t
                       else (OSTCBTbl k t)\<lparr>OSTCBEventPtr := Some e\<rparr>) \<and>
      OSRdy k' = OSRdy k \<and> waits p k' = {}"
proof -
  let ?b = "OSTCBTbl k t"
  obtain k1 where k1: "event_unwait e ?b k = Some k1" "touches p t k k1" "OSTCBTbl k1 = OSTCBTbl k"
    "OSRdy k1 = OSRdy k" "waits p k1 = waits p k - {e}"
    using event_unwait_step [of k e p ?b t] waits_ok e p by blast
  have w1: "\<forall>e < OS_MAX_EVENTS. pt_ok (OSEventWait (OSEventTbl k1 e))"
    using waits_ok touches_other(6) [OF k1(2)] by blast
  show ?thesis
  proof (cases "OSTCBEventMultiPtr ?b")
    case None
    then have "waits p k1 = {}"
      using lk(1,3) k1(5) by (cases "OSTCBEventPtr ?b") (auto simp: linked_events_def)
    then show ?thesis using None k1 t by (simp add: leave_events_def OS_EventTaskRemove_def)
  next
    case (Some es)
    then have "set es \<subseteq> {..<OS_MAX_EVENTS}" using lk(2) by (simp add: event_bound_def linked_events_def)
    then obtain k2 where k2: "remove_multi es ?b k1 = Some k2" "touches p t k1 k2" "OSTCBTbl k2 = OSTCBTbl k1"
      "OSRdy k2 = OSRdy k1" "waits p k2 = waits p k1 - set es"
      using remove_multi_step [OF w1 _ p, of es t] by blast
    define k3 where "k3 = set_tcb t (?b\<lparr>OSTCBEventPtr := Some e\<rparr>) k2"
    have "touches p t k2 k3"
      unfolding k3_def using k1(3) k2(3) by (intro touches_set_tcb) (simp add: same_task_def)
    then have "touches p t k k3" using k1(2) k2(2) by (blast intro: touches_trans)
    moreover have "waits p k3 = {}" using lk(1) k1(5) k2(5) Some by (auto simp: k3_def linked_events_def)
    ultimately show ?thesis
      using Some t k1 k2 by (simp add: leave_events_def OS_EventTaskRemove_def OS_EventTaskRemoveMulti_def k3_def)
  qed
qed

lemma task_ok_woken:
  assumes "task_ok p b r ws" "e < OS_MAX_EVENTS" "msk AND OS_STAT_SUSPEND = 0"
  shows "task_ok p (woken e msg msk st b) (r \<or> \<not> suspended b) {}"
  using assms suspended_mask [OF assms(3)]
  by (auto simp: task_ok_def woken_def Let_def tcb_fields_def event_bound_def linked_events_def suspended_def
      split: option.splits)

text \<open>
  What \<open>OS_EventTaskRdy\<close> does: it takes the waiting task of highest priority out of every wait
  list it is in, hands it the message and makes it ready unless it is suspended.
\<close>

lemma OS_EventTaskRdy_spec:
  assumes ok: "kernel_ok k" and e: "e < OS_MAX_EVENTS" and ne: "waiters e k \<noteq> {}"
    and msk: "msk AND OS_STAT_SUSPEND = 0" and p_def: "p = Min (waiters e k)"
  shows "\<exists>t k'. tcb_prio p k = Some t \<and> OS_EventTaskRdy e msg msk st k = Some (p, k') \<and>
      touches p t k k' \<and> OSTCBTbl k' t = woken e msg msk st (OSTCBTbl k t) \<and> waits p k' = {} \<and>
      ready k' = (if suspended (OSTCBTbl k t) then ready k else insert p (ready k)) \<and> kernel_ok k'"
proof -
  note K = kernel_okD [OF ok]
  obtain y x where yx: "pt_highest (OSEventWait (OSEventTbl k e)) = Some (y, x)" "unat y < 3" "unat x < 8"
    "prio_of y x = p"
    using pt_highest_spec [OF K(3) [OF e]] ne by (auto simp: waiters_def p_def)
  have py: "prio_y p = y" using prio_of_xy(1) [of y x] yx(2-4) by simp
  have p: "p \<in> waiters e k" unfolding p_def using ne by (intro Min_in) simp_all
  then obtain t where t: "tcb_prio p k = Some t" using K(5) [OF e] by (auto simp: live_def)
  let ?b = "OSTCBTbl k t"
  have t12: "t < OS_N_TCBS" and task: "task_ok p ?b (p \<in> ready k) (waits p k)" using K(7) [OF t] by simp_all
  have p24: "p < 24" using tcb_prio_bound [OF t K(1)] .
  have ew: "e \<in> waits p k" using p e by (simp add: waits_def)
  define b where "b = ?b\<lparr>OSTCBDly := 0, OSTCBMsg := msg, OSTCBStat := OSTCBStat ?b AND NOT msk, OSTCBStatPend := st\<rparr>"
  define k1 where "k1 = set_tcb t b k"
  have b: "tcb_fields p b" "suspended b = suspended ?b" "linked_events b = linked_events ?b" "event_bound b"
    "same_task ?b b"
    using task suspended_mask [OF msk]
    by (simp_all add: b_def task_ok_def tcb_fields_def suspended_def linked_events_def event_bound_def same_task_def
        split: option.splits)
  have k1: "touches p t k k1" "OSTCBTbl k1 t = b" "ready k1 = ready k" "waits p k1 = waits p k" "OSRdy k1 = OSRdy k"
    unfolding k1_def by (rule touches_set_tcb [OF b(5)]) simp_all
  obtain k2 where k2: "(if OSTCBStat b AND OS_STAT_SUSPEND = OS_STAT_RDY then make_ready y b k1 else Some k1) = Some k2"
    "touches p t k k2" "OSTCBTbl k2 t = b" "waits p k2 = waits p k"
    "ready k2 = (if suspended ?b then ready k else insert p (ready k))"
    using make_ready_step [of k1 p b y t] k1 b K(2) p24 py touches_trans [OF k1(1)]
    by (auto simp: suspended_def)
  have w2: "\<forall>e < OS_MAX_EVENTS. pt_ok (OSEventWait (OSEventTbl k2 e))"
    using K(3) touches_other(6) [OF k2(2)] by blast
  have woken_b: "(if OSTCBEventMultiPtr b = None then b else b\<lparr>OSTCBEventPtr := Some e\<rparr>) = woken e msg msk st ?b"
    by (simp add: woken_def b_def Let_def)
  have "waits p k2 \<subseteq> linked_events (OSTCBTbl k2 t)" using task by (simp add: k2(3,4) b(3) task_ok_def)
  from leave_events_step [OF w2 e t12 p24 _ this] obtain k3 where k3: "leave_events t e k2 = Some k3"
    "touches p t k2 k3" "waits p k3 = {}" "OSRdy k3 = OSRdy k2" "OSTCBTbl k3 t = woken e msg msk st ?b"
    using b(1,4) ew by (simp only: k2(3,4) woken_b) blast
  have k03: "touches p t k k3" using k2(2) k3(2) by (rule touches_trans)
  have r3: "ready k3 = (if suspended ?b then ready k else insert p (ready k))"
    using k2(5) k3(4) by (simp add: ready_def)
  have "kernel_ok k3"
  proof (rule kernel_ok_touches [OF ok k03 t])
    have "p \<in> ready k3 \<longleftrightarrow> p \<in> ready k \<or> \<not> suspended ?b" using r3 task by (auto simp: task_ok_def)
    then show "task_ok p (OSTCBTbl k3 t) (p \<in> ready k3) (waits p k3)"
      using task_ok_woken [OF task e msk] by (simp add: k3)
    show "p \<in> ready k3" if "p = OS_TASK_IDLE_PRIO" using that task ew by (auto simp: task_ok_def)
  qed
  moreover have "OS_EventTaskRdy e msg msk st k = Some (p, k3)"
  proof -
    have "OSTCBStat b = OSTCBStat ?b AND NOT msk" by (simp add: b_def)
    then show ?thesis
      using e yx t t12 k2(1) k3(1) unfolding OS_EventTaskRdy_def k1_def Let_def by (simp flip: b_def split: if_splits)
  qed
  ultimately show ?thesis using t k3 k03 r3 by blast
qed

text \<open>
  The loop that wakes every waiting task ends, and nobody waits when it does. Each round takes
  one task out of the wait list.
\<close>

definition same_kernel :: "kernel \<Rightarrow> kernel \<Rightarrow> bool" where
  "same_kernel k k' \<longleftrightarrow> k' = k\<lparr>OSRdy := OSRdy k', OSTCBTbl := OSTCBTbl k', OSEventTbl := OSEventTbl k'\<rparr> \<and>
     (\<forall>u. same_task (OSTCBTbl k u) (OSTCBTbl k' u)) \<and>
     (\<forall>e. OSEventTbl k' e = (OSEventTbl k e)\<lparr>OSEventWait := OSEventWait (OSEventTbl k' e)\<rparr>)"

lemma touches_same_kernel: "touches p t k k' \<Longrightarrow> same_kernel k k'"
  using same_task_refl unfolding touches_def same_kernel_def by metis

lemma same_kernel_refl [simp]: "same_kernel k k"
  by (simp add: same_kernel_def)

lemma same_kernel_trans:
  assumes "same_kernel k k'" "same_kernel k' k''"
  shows "same_kernel k k''"
proof -
  have "k'' = k\<lparr>OSRdy := OSRdy k'', OSTCBTbl := OSTCBTbl k'', OSEventTbl := OSEventTbl k''\<rparr>"
  proof -
    have "k'' = k'\<lparr>OSRdy := OSRdy k'', OSTCBTbl := OSTCBTbl k'', OSEventTbl := OSEventTbl k''\<rparr>"
      using assms(2) by (simp add: same_kernel_def)
    also have "k' = k\<lparr>OSRdy := OSRdy k', OSTCBTbl := OSTCBTbl k', OSEventTbl := OSEventTbl k'\<rparr>"
      using assms(1) by (simp add: same_kernel_def)
    finally show ?thesis by simp
  qed
  moreover have "OSEventTbl k'' e = (OSEventTbl k e)\<lparr>OSEventWait := OSEventWait (OSEventTbl k'' e)\<rparr>" for e
  proof -
    have "OSEventTbl k'' e = (OSEventTbl k' e)\<lparr>OSEventWait := OSEventWait (OSEventTbl k'' e)\<rparr>"
      using assms(2) unfolding same_kernel_def by blast
    also have "OSEventTbl k' e = (OSEventTbl k e)\<lparr>OSEventWait := OSEventWait (OSEventTbl k' e)\<rparr>"
      using assms(1) unfolding same_kernel_def by blast
    finally show ?thesis by simp
  qed
  moreover have "same_task (OSTCBTbl k u) (OSTCBTbl k'' u)" for u
    using assms by (simp add: same_kernel_def same_task_def)
  ultimately show ?thesis unfolding same_kernel_def by blast
qed

lemma same_kernel_kernel:
  assumes "same_kernel k k'"
  shows "OSTCBPrioTbl k' = OSTCBPrioTbl k" "OSTCBCur k' = OSTCBCur k" "OSPrioCur k' = OSPrioCur k"
    "OSTCBList k' = OSTCBList k" "OSTCBFreeList k' = OSTCBFreeList k" "OSEventFreeList k' = OSEventFreeList k"
    "OSQTbl k' = OSQTbl k" "OSQFreeList k' = OSQFreeList k" "OSMem k' = OSMem k"
    "OSRunning k' = OSRunning k" "OSIntNesting k' = OSIntNesting k" "OSLockNesting k' = OSLockNesting k"
    "OSTCBPrio (OSTCBTbl k' u) = OSTCBPrio (OSTCBTbl k u)" "OSTCBNext (OSTCBTbl k' u) = OSTCBNext (OSTCBTbl k u)"
    "OSTCBPrev (OSTCBTbl k' u) = OSTCBPrev (OSTCBTbl k u)"
    "OSEventType (OSEventTbl k' e) = OSEventType (OSEventTbl k e)"
    "OSEventPtr (OSEventTbl k' e) = OSEventPtr (OSEventTbl k e)"
    "OSEventCnt (OSEventTbl k' e) = OSEventCnt (OSEventTbl k e)"
    "OSEventName (OSEventTbl k' e) = OSEventName (OSEventTbl k e)"
    "tcb_prio p k' = tcb_prio p k" "live k' = live k"
proof -
  have eq: "k' = k\<lparr>OSRdy := OSRdy k', OSTCBTbl := OSTCBTbl k', OSEventTbl := OSEventTbl k'\<rparr>"
    using assms by (simp add: same_kernel_def)
  then obtain r T E where "k' = k\<lparr>OSRdy := r, OSTCBTbl := T, OSEventTbl := E\<rparr>" by blast
  then show "OSTCBPrioTbl k' = OSTCBPrioTbl k" "OSTCBCur k' = OSTCBCur k" "OSPrioCur k' = OSPrioCur k"
    "OSTCBList k' = OSTCBList k" "OSTCBFreeList k' = OSTCBFreeList k" "OSEventFreeList k' = OSEventFreeList k"
    "OSQTbl k' = OSQTbl k" "OSQFreeList k' = OSQFreeList k" "OSMem k' = OSMem k"
    "OSRunning k' = OSRunning k" "OSIntNesting k' = OSIntNesting k" "OSLockNesting k' = OSLockNesting k"
    "tcb_prio p k' = tcb_prio p k" "live k' = live k"
    by (simp_all add: tcb_prio_def live_def)
  show "OSTCBPrio (OSTCBTbl k' u) = OSTCBPrio (OSTCBTbl k u)" "OSTCBNext (OSTCBTbl k' u) = OSTCBNext (OSTCBTbl k u)"
    "OSTCBPrev (OSTCBTbl k' u) = OSTCBPrev (OSTCBTbl k u)"
    using assms by (simp_all add: same_kernel_def same_task_def)
  have "OSEventTbl k' e = (OSEventTbl k e)\<lparr>OSEventWait := OSEventWait (OSEventTbl k' e)\<rparr>"
    using assms unfolding same_kernel_def by blast
  then obtain w where "OSEventTbl k' e = (OSEventTbl k e)\<lparr>OSEventWait := w\<rparr>" by blast
  then show "OSEventType (OSEventTbl k' e) = OSEventType (OSEventTbl k e)"
    "OSEventPtr (OSEventTbl k' e) = OSEventPtr (OSEventTbl k e)"
    "OSEventCnt (OSEventTbl k' e) = OSEventCnt (OSEventTbl k e)"
    "OSEventName (OSEventTbl k' e) = OSEventName (OSEventTbl k e)" by simp_all
qed

lemma running_same_kernel [simp]: "same_kernel k k' \<Longrightarrow> running k' p c \<longleftrightarrow> running k p c"
  by (simp add: running_def same_kernel_kernel)

lemma sched_ok_same_kernel [simp]: "same_kernel k k' \<Longrightarrow> sched_ok k' \<longleftrightarrow> sched_ok k"
  by (simp add: sched_ok_def same_kernel_kernel)

lemma grp_zero_iff: "kernel_ok k \<Longrightarrow> e < OS_MAX_EVENTS \<Longrightarrow> Grp (OSEventWait (OSEventTbl k e)) = 0 \<longleftrightarrow> waiters e k = {}"
  by (simp add: waiters_def kernel_okD(3) pt.nobody)

lemma tcb_of_touches:
  assumes ok: "kernel_ok k" and touch: "touches p t k k'" and q: "q \<in> live k" "q \<noteq> p" and t: "tcb_prio p k = Some t"
  shows "tcb_of q k' = tcb_of q k"
proof -
  obtain u where u: "tcb_prio q k = Some u" using q(1) by (auto simp: live_def)
  have "OSTCBPrio (OSTCBTbl k u) = q" "OSTCBPrio (OSTCBTbl k t) = p"
    using kernel_okD(7) [OF ok u] kernel_okD(7) [OF ok t] by (simp_all add: task_ok_def tcb_fields_def)
  with q(2) have "u \<noteq> t" by auto
  then show ?thesis using touches_other(1) [OF touch] u by (simp add: tcb_of_def touches_tcb_prio [OF touch])
qed

lemma OS_EventTaskRdy_waiters:
  assumes ok: "kernel_ok k" and e: "e < OS_MAX_EVENTS" and ne: "waiters e k \<noteq> {}"
    and msk: "msk AND OS_STAT_SUSPEND = 0"
  defines "p \<equiv> Min (waiters e k)"
  shows "\<exists>k'. OS_EventTaskRdy e msg msk st k = Some (p, k') \<and> same_kernel k k' \<and>
      waiters e k' = waiters e k - {p} \<and> (\<forall>x < OS_MAX_EVENTS. waiters x k' \<subseteq> waiters x k) \<and>
      ready k' = ready k \<union> (if suspended (tcb_of p k) then {} else {p}) \<and>
      (\<forall>q \<in> live k. q \<noteq> p \<longrightarrow> tcb_of q k' = tcb_of q k) \<and> kernel_ok k'"
proof -
  obtain t k' where k': "tcb_prio p k = Some t" "OS_EventTaskRdy e msg msk st k = Some (p, k')" "touches p t k k'"
    "waits p k' = {}" "ready k' = (if suspended (OSTCBTbl k t) then ready k else insert p (ready k))" "kernel_ok k'"
    using OS_EventTaskRdy_spec [OF ok e ne msk, of p msg st] by (auto simp: p_def)
  have sub: "q \<in> waiters x k' \<longleftrightarrow> q \<in> waiters x k - {p}" if "x < OS_MAX_EVENTS" for q x
  proof (cases "q = p")
    case True
    then show ?thesis using k'(4) that by (auto simp: waits_def)
  next
    case False
    then show ?thesis using touches_other(4) [OF k'(3) that False] by simp
  qed
  then have w: "waiters e k' = waiters e k - {p}" "\<forall>x < OS_MAX_EVENTS. waiters x k' \<subseteq> waiters x k" using e by blast+
  have r: "ready k' = ready k \<union> (if suspended (tcb_of p k) then {} else {p})" using k'(1,5) by (simp add: tcb_of_def)
  have o: "\<forall>q \<in> live k. q \<noteq> p \<longrightarrow> tcb_of q k' = tcb_of q k" using tcb_of_touches [OF ok k'(3) _ _ k'(1)] by blast
  show ?thesis by (intro exI [of _ k'] conjI k'(2,6) touches_same_kernel [OF k'(3)] w r o)
qed

lemma rdy_all_spec:
  assumes "kernel_ok k" "e < OS_MAX_EVENTS" "msk AND OS_STAT_SUSPEND = 0"
  shows "\<exists>k'. rdy_all e msg msk st n k = Some (n + of_nat (card (waiters e k)), k') \<and> same_kernel k k' \<and>
      waiters e k' = {} \<and> (\<forall>x < OS_MAX_EVENTS. waiters x k' \<subseteq> waiters x k) \<and>
      ready k' = ready k \<union> {p \<in> waiters e k. \<not> suspended (tcb_of p k)} \<and> kernel_ok k'"
  using assms(1)
proof (induction "card (waiters e k)" arbitrary: k n rule: less_induct)
  case less
  show ?case
  proof (cases "waiters e k = {}")
    case True
    then have "rdy_all e msg msk st n k = Some (n, k)"
      using grp_zero_iff [OF less.prems assms(2)] assms(2) by (subst rdy_all.simps) simp
    with True less.prems show ?thesis by auto
  next
    case False
    let ?p = "Min (waiters e k)"
    obtain k1 where k1: "OS_EventTaskRdy e msg msk st k = Some (?p, k1)" "same_kernel k k1"
      "waiters e k1 = waiters e k - {?p}" "\<forall>x < OS_MAX_EVENTS. waiters x k1 \<subseteq> waiters x k"
      "ready k1 = ready k \<union> (if suspended (tcb_of ?p k) then {} else {?p})"
      "\<forall>q \<in> live k. q \<noteq> ?p \<longrightarrow> tcb_of q k1 = tcb_of q k" "kernel_ok k1"
      using OS_EventTaskRdy_waiters [OF less.prems assms(2) False assms(3)] by blast
    have p: "?p \<in> waiters e k" using False by (intro Min_in) simp_all
    have c: "card (waiters e k) = Suc (card (waiters e k1))"
      unfolding k1(3) using p by (intro card.remove) simp_all
    then have "card (waiters e k1) < card (waiters e k)" by simp
    from less.hyps [OF this k1(7), of "n + 1"] obtain k2 where
      k2: "rdy_all e msg msk st (n + 1) k1 = Some (n + 1 + of_nat (card (waiters e k1)), k2)" "same_kernel k1 k2"
      "waiters e k2 = {}" "\<forall>x < OS_MAX_EVENTS. waiters x k2 \<subseteq> waiters x k1"
      "ready k2 = ready k1 \<union> {p \<in> waiters e k1. \<not> suspended (tcb_of p k1)}" "kernel_ok k2" by blast
    have run: "rdy_all e msg msk st n k = Some (n + of_nat (card (waiters e k)), k2)"
      using k1(1) k2(1) grp_zero_iff [OF less.prems assms(2)] assms(2) False
      by (subst rdy_all.simps) (simp add: c add.assoc)
    have "{q \<in> waiters e k1. \<not> suspended (tcb_of q k1)} = {q \<in> waiters e k. \<not> suspended (tcb_of q k)} - {?p}"
      using k1(3,6) kernel_okD(5) [OF less.prems assms(2)] by auto
    then have "ready k2 = ready k \<union> {q \<in> waiters e k. \<not> suspended (tcb_of q k)}"
      using k2(5) k1(5) p by auto
    moreover have "waiters x k2 \<subseteq> waiters x k" if "x < OS_MAX_EVENTS" for x using k1(4) k2(4) that by blast
    ultimately show ?thesis using run k2(3,6) same_kernel_trans [OF k1(2) k2(2)] by (intro exI [of _ k2]) simp
  qed
qed

section \<open>Waiting and waking\<close>

lemma cur_tcb_running:
  assumes "kernel_ok k" "running k p c"
  shows "cur_tcb k = Some (c, OSTCBTbl k c)" "c < OS_N_TCBS" "task_ok p (OSTCBTbl k c) (p \<in> ready k) (waits p k)" "p < 24"
proof -
  have p: "tcb_prio p k = Some c" "OSTCBCur k = Some c" using assms(2) by (simp_all add: running_def)
  show "c < OS_N_TCBS" "task_ok p (OSTCBTbl k c) (p \<in> ready k) (waits p k)" "p < 24"
    using kernel_okD(7) [OF assms(1) p(1)] tcb_prio_bound [OF p(1) kernel_okD(1) [OF assms(1)]] by simp_all
  then show "cur_tcb k = Some (c, OSTCBTbl k c)" using p by (simp add: cur_tcb_def)
qed

lemma cur_unready_step:
  assumes "running k p c" "c < OS_N_TCBS" "tcb_fields p (OSTCBTbl k c)" "p < 24" "pt_ok (OSRdy k)"
  shows "\<exists>k'. cur_unready k = Some k' \<and> touches p c k k' \<and> OSTCBTbl k' = OSTCBTbl k \<and>
      ready k' = ready k - {p} \<and> waits p k' = waits p k"
proof -
  obtain r where "pt_del p (OSRdy k) = Some r" "touches p c k (k\<lparr>OSRdy := r\<rparr>)"
    "ready (k\<lparr>OSRdy := r\<rparr>) = ready k - {p}" "waits p (k\<lparr>OSRdy := r\<rparr>) = waits p k"
    using unrdy_step [OF assms(5,4), of c] by blast
  with assms show ?thesis by (simp add: cur_unready_def cur_tcb_def running_def tcb_fields_ops)
qed

lemma pending_mark:
  fixes s stat :: INT8U
  assumes "stat AND OS_STAT_PEND_ANY \<noteq> 0"
  shows "(s OR stat) AND OS_STAT_PEND_ANY \<noteq> 0"
proof -
  obtain i where "bit (stat AND OS_STAT_PEND_ANY) i" using assms by (auto simp: byte_nonzero)
  then have "bit ((s OR stat) AND OS_STAT_PEND_ANY) i" by (simp add: bit_and_iff bit_or_iff)
  then show ?thesis by (metis bit_0_eq bot_apply bot_bool_def)
qed

lemma pend_block_spec:
  assumes ok: "kernel_ok k" and c: "at_call k p c" and p: "p \<noteq> OS_TASK_IDLE_PRIO" and e: "e < OS_MAX_EVENTS"
    and stat: "stat AND OS_STAT_PEND_ANY \<noteq> 0"
  shows "\<exists>k'. pend_block stat timeout e k = Some k' \<and> touches p c k k' \<and> kernel_ok k' \<and>
      OSTCBTbl k' c = (OSTCBTbl k c)\<lparr>OSTCBStat := OSTCBStat (OSTCBTbl k c) OR stat,
        OSTCBStatPend := OS_STAT_PEND_OK, OSTCBDly := timeout, OSTCBEventPtr := Some e\<rparr> \<and>
      ready k' = ready k - {p} \<and> waits p k' = {e}"
proof -
  have run: "running k p c" and w0: "waits p k = {}" "OSTCBEventMultiPtr (OSTCBTbl k c) = None"
    using c by (simp_all add: at_call_def)
  note C = cur_tcb_running [OF ok run]
  have t: "tcb_prio p k = Some c" using run by (simp add: running_def)
  define b where "b = (OSTCBTbl k c)\<lparr>OSTCBStat := OSTCBStat (OSTCBTbl k c) OR stat,
        OSTCBStatPend := OS_STAT_PEND_OK, OSTCBDly := timeout\<rparr>"
  define b1 where "b1 = b\<lparr>OSTCBEventPtr := Some e\<rparr>"
  define k1 where "k1 = set_tcb c b1 (set_tcb c b k)"
  have f: "tcb_fields p b" "tcb_fields p b1" using C(3) by (simp_all add: b_def b1_def task_ok_def tcb_fields_def)
  have k1: "touches p c k k1" "OSTCBTbl k1 c = b1" "waits p k1 = {}" "ready k1 = ready k" "OSRdy k1 = OSRdy k"
  proof -
    have "touches p c k (set_tcb c b k)" by (intro touches_set_tcb) (simp add: b_def same_task_def)
    moreover have "touches p c (set_tcb c b k) k1"
      unfolding k1_def by (intro touches_set_tcb) (simp add: b1_def same_task_def)
    ultimately show "touches p c k k1" by (rule touches_trans)
  qed (simp_all add: k1_def w0)
  have w1: "\<forall>e < OS_MAX_EVENTS. pt_ok (OSEventWait (OSEventTbl k1 e))"
    using kernel_okD(3) [OF ok] touches_other(6) [OF k1(1)] by blast
  obtain k2 where k2: "event_wait e b k1 = Some k2" "touches p c k1 k2" "OSTCBTbl k2 = OSTCBTbl k1"
    "OSRdy k2 = OSRdy k1" "waits p k2 = {e}"
    using event_wait_step [of k1 e p b c] w1 e C(4) f(1) k1(3) by auto
  have k02: "touches p c k k2" using k1(1) k2(2) by (rule touches_trans)
  have fields2: "tcb_fields p (OSTCBTbl k2 c)" "pt_ok (OSRdy k2)" "running k2 p c"
    using f(2) k1(2,5) k2(3,4) kernel_okD(2) [OF ok] k02 run by simp_all
  obtain k3 where k3: "cur_unready k2 = Some k3" "touches p c k2 k3" "OSTCBTbl k3 = OSTCBTbl k2"
    "ready k3 = ready k2 - {p}" "waits p k3 = waits p k2"
    using cur_unready_step [OF fields2(3) C(2) fields2(1) C(4) fields2(2)] by blast
  have k03: "touches p c k k3" using k02 k3(2) by (rule touches_trans)
  have r3: "ready k3 = ready k - {p}" using k3(4) k2(4) k1(5) by (simp add: ready_def)
  have "pend_block stat timeout e k = Some k3"
    using C(1,2) run k2(1) k3(1)
    by (simp add: pend_block_def OS_EventTaskWait_def cur_tcb_def running_def flip: b_def b1_def k1_def)
  moreover have "kernel_ok k3"
  proof (rule kernel_ok_touches [OF ok k03 t])
    have "pending b1" using pending_mark [OF stat] by (simp add: b1_def b_def pending_def)
    moreover have "linked_events b1 = {e}" by (simp add: b1_def b_def linked_events_def w0)
    moreover have "event_bound b1" using e calculation(2) by (simp add: event_bound_def) (simp add: b1_def)
    ultimately show "task_ok p (OSTCBTbl k3 c) (p \<in> ready k3) (waits p k3)"
      using f(2) p by (simp add: task_ok_def k3 k2 k1 r3)
  qed (use p in simp)
  ultimately show ?thesis using k03 k3 k2 r3 k1(2) by (auto simp: b1_def b_def)
qed

lemma pend_clear_spec:
  assumes ok: "kernel_ok k" and run: "running k p c" and r: "p \<in> ready k" and w: "waits p k = {}"
  shows "\<exists>k'. pend_clear k = Some k' \<and> touches p c k k' \<and> kernel_ok k' \<and> at_call k' p c \<and> ready k' = ready k \<and>
      OSTCBTbl k' c = (OSTCBTbl k c)\<lparr>OSTCBStat := OS_STAT_RDY, OSTCBStatPend := OS_STAT_PEND_OK,
        OSTCBEventPtr := None, OSTCBEventMultiPtr := None\<rparr>"
proof -
  note C = cur_tcb_running [OF ok run]
  define b where "b = (OSTCBTbl k c)\<lparr>OSTCBStat := OS_STAT_RDY, OSTCBStatPend := OS_STAT_PEND_OK,
        OSTCBEventPtr := None, OSTCBEventMultiPtr := None\<rparr>"
  have t: "touches p c k (set_tcb c b k)"
    by (intro touches_set_tcb) (simp add: b_def same_task_def)
  have "kernel_ok (set_tcb c b k)"
  proof (rule kernel_ok_touches [OF ok t])
    show "tcb_prio p k = Some c" using run by (simp add: running_def)
    show "task_ok p (OSTCBTbl (set_tcb c b k) c) (p \<in> ready (set_tcb c b k)) (waits p (set_tcb c b k))"
      using C(3) w by (simp add: task_ok_def b_def tcb_fields_def event_bound_def linked_events_def suspended_def)
  qed (use r in simp)
  moreover have "at_call (set_tcb c b k) p c"
    using w t run by (simp add: at_call_def) (simp add: b_def)
  moreover have "pend_clear k = Some (set_tcb c b k)" using C(1) by (simp add: pend_clear_def b_def)
  ultimately show ?thesis using t by (auto simp: b_def)
qed

lemma OS_EventTaskRemove_spec:
  assumes ok: "kernel_ok k" and t: "tcb_prio p k = Some t" and e: "e < OS_MAX_EVENTS"
  shows "\<exists>k'. OS_EventTaskRemove t e k = Some k' \<and> touches p t k k' \<and> kernel_ok k' \<and>
      OSTCBTbl k' = OSTCBTbl k \<and> ready k' = ready k \<and> waits p k' = waits p k - {e}"
proof -
  have T: "t < OS_N_TCBS" "task_ok p (OSTCBTbl k t) (p \<in> ready k) (waits p k)" "p < 24"
    using kernel_okD(7) [OF ok t] tcb_prio_bound [OF t kernel_okD(1) [OF ok]] by simp_all
  then have f: "tcb_fields p (OSTCBTbl k t)" by (simp add: task_ok_def)
  obtain k' where k': "event_unwait e (OSTCBTbl k t) k = Some k'" "touches p t k k'" "OSTCBTbl k' = OSTCBTbl k"
    "OSRdy k' = OSRdy k" "waits p k' = waits p k - {e}"
    using event_unwait_step [OF kernel_okD(3) [OF ok e] e T(3) f, of t] by blast
  have r: "ready k' = ready k" using k'(4) by (simp add: ready_def)
  have "kernel_ok k'"
  proof (rule kernel_ok_touches [OF ok k'(2) t])
    show "task_ok p (OSTCBTbl k' t) (p \<in> ready k') (waits p k')"
      using T(2) by (auto simp: task_ok_def k' r)
    show "p \<in> ready k'" if "p = OS_TASK_IDLE_PRIO" using that kernel_okD(6) [OF ok] r by simp
  qed
  then show ?thesis using k' r T(1) by (auto simp: OS_EventTaskRemove_def)
qed

end
