(* ===== verification/Os_Sched.thy ===== *)
theory Os_Sched
  imports Os_Events
begin

text \<open>
  The scheduler: whenever it may run, the running task becomes the ready task of highest
  priority; locks and interrupt levels nest; the start of multitasking.
\<close>

section \<open>The switch\<close>

text \<open>What a switch leaves alone: all but the running task and the statistics.\<close>

definition switched :: "kernel \<Rightarrow> kernel \<Rightarrow> bool" where
  "switched k k' \<longleftrightarrow>
     k' = k\<lparr>OSPrioCur := OSPrioCur k', OSPrioHighRdy := OSPrioHighRdy k', OSTCBCur := OSTCBCur k',
            OSTCBHighRdy := OSTCBHighRdy k', OSCtxSwCtr := OSCtxSwCtr k', OSTCBTbl := OSTCBTbl k'\<rparr> \<and>
     (\<forall>u. OSTCBTbl k' u = (OSTCBTbl k u)\<lparr>OSTCBCtxSwCtr := OSTCBCtxSwCtr (OSTCBTbl k' u)\<rparr>)"

lemma task_ok_ctr [simp]: "task_ok p (b\<lparr>OSTCBCtxSwCtr := m\<rparr>) r ws = task_ok p b r ws"
  by (simp add: task_ok_def tcb_fields_def event_bound_def linked_events_def suspended_def pending_def
      split: option.splits)

lemma switched_refl [simp]: "switched k k"
  by (simp add: switched_def)

lemma switched_view:
  assumes "switched k k'"
  shows "ready k' = ready k" "waiters e k' = waiters e k" "waits p k' = waits p k" "tcb_prio p k' = tcb_prio p k"
    "OSEventTbl k' = OSEventTbl k" "OSRunning k' = OSRunning k" "OSIntNesting k' = OSIntNesting k"
    "OSLockNesting k' = OSLockNesting k" "OSQTbl k' = OSQTbl k" "OSMem k' = OSMem k" "OSTCBList k' = OSTCBList k"
    "OSEventFreeList k' = OSEventFreeList k" "OSQFreeList k' = OSQFreeList k"
    "OSTCBPrioTbl k' = OSTCBPrioTbl k" "OSTime k' = OSTime k" "OSRdy k' = OSRdy k"
proof -
  have "k' = k\<lparr>OSPrioCur := OSPrioCur k', OSPrioHighRdy := OSPrioHighRdy k', OSTCBCur := OSTCBCur k',
            OSTCBHighRdy := OSTCBHighRdy k', OSCtxSwCtr := OSCtxSwCtr k', OSTCBTbl := OSTCBTbl k'\<rparr>"
    using assms by (simp add: switched_def)
  then obtain pc ph c h n T where "k' = k\<lparr>OSPrioCur := pc, OSPrioHighRdy := ph, OSTCBCur := c,
    OSTCBHighRdy := h, OSCtxSwCtr := n, OSTCBTbl := T\<rparr>" by blast
  then show "ready k' = ready k" "waiters e k' = waiters e k" "waits p k' = waits p k" "tcb_prio p k' = tcb_prio p k"
    "OSEventTbl k' = OSEventTbl k" "OSRunning k' = OSRunning k" "OSIntNesting k' = OSIntNesting k"
    "OSLockNesting k' = OSLockNesting k" "OSQTbl k' = OSQTbl k" "OSMem k' = OSMem k" "OSTCBList k' = OSTCBList k"
    "OSEventFreeList k' = OSEventFreeList k" "OSQFreeList k' = OSQFreeList k"
    "OSTCBPrioTbl k' = OSTCBPrioTbl k" "OSTime k' = OSTime k" "OSRdy k' = OSRdy k"
    by (simp_all add: ready_def waiters_def waits_def tcb_prio_def)
qed

lemma switched_tcb:
  assumes "switched k k'"
  shows "\<exists>m. OSTCBTbl k' u = (OSTCBTbl k u)\<lparr>OSTCBCtxSwCtr := m\<rparr>"
  using assms unfolding switched_def by blast

lemma kernel_ok_switched:
  assumes "switched k k'"
  shows "kernel_ok k' \<longleftrightarrow> kernel_ok k"
proof -
  have "task_ok p (OSTCBTbl k' t) r ws = task_ok p (OSTCBTbl k t) r ws" for p t r ws
    using switched_tcb [OF assms, of t] by auto
  then show ?thesis
    by (simp add: kernel_ok_def kernel_pre_def live_def switched_view [OF assms])
qed

text \<open>After the scheduler has run the highest ready task runs.\<close>

definition highest_runs :: "kernel \<Rightarrow> bool" where
  "highest_runs k \<longleftrightarrow> OSPrioCur k = Min (ready k) \<and> sched_ok k"

lemma min_ready:
  assumes "kernel_ok k"
  shows "Min (ready k) \<in> ready k" "\<exists>t. tcb_prio (Min (ready k)) k = Some t \<and> t < OS_N_TCBS"
proof -
  show m: "Min (ready k) \<in> ready k" using kernel_okD(6) [OF assms] by (intro Min_in) auto
  then obtain t where "tcb_prio (Min (ready k)) k = Some t" using kernel_okD(4) [OF assms] by (auto simp: live_def)
  then show "\<exists>t. tcb_prio (Min (ready k)) k = Some t \<and> t < OS_N_TCBS" using kernel_okD(7) [OF assms] by blast
qed

lemma OS_SchedNew_spec: "kernel_ok k \<Longrightarrow> OS_SchedNew k = Some (k\<lparr>OSPrioHighRdy := Min (ready k)\<rparr>)"
proof -
  assume ok: "kernel_ok k"
  have "pt_members (OSRdy k) \<noteq> {}" using kernel_okD(6) [OF ok] by (auto simp: ready_def)
  from pt_highest_spec [OF kernel_okD(2) [OF ok] this] show ?thesis
    by (auto simp: OS_SchedNew_def ready_def)
qed

lemma resched_switch:
  assumes ok: "kernel_ok k" and ne: "Min (ready k) \<noteq> OSPrioCur k"
  shows "\<exists>k'. resched k = Some k' \<and> switched k k' \<and> highest_runs k'"
proof -
  obtain t where t: "tcb_prio (Min (ready k)) k = Some t" "t < OS_N_TCBS" using min_ready(2) [OF ok] by blast
  let ?b = "OSTCBTbl k t"
  let ?T = "(OSTCBTbl k)(t := ?b\<lparr>OSTCBCtxSwCtr := OSTCBCtxSwCtr ?b + 1\<rparr>)"
  let ?k = "k\<lparr>OSPrioCur := Min (ready k), OSPrioHighRdy := Min (ready k), OSTCBCur := Some t, OSTCBHighRdy := Some t,
      OSCtxSwCtr := OSCtxSwCtr k + 1, OSTCBTbl := ?T\<rparr>"
  have "resched k = Some ?k"
    using ne t ok by (simp add: resched_def OS_SchedNew_spec kernel_frame tcb_at_def set_tcb_def OSCtxSw_def)
  moreover have sw: "switched k ?k" by (simp add: switched_def)
  moreover have "highest_runs ?k"
    using t(1) by (simp add: highest_runs_def sched_ok_def running_def switched_view [OF sw])
  ultimately show ?thesis by blast
qed

lemma resched_spec:
  assumes ok: "kernel_ok k"
  shows "\<exists>k'. resched k = Some k' \<and> switched k k' \<and> (sched_ok k \<longrightarrow> highest_runs k')"
proof (cases "Min (ready k) = OSPrioCur k")
  case True
  let ?k = "k\<lparr>OSPrioHighRdy := Min (ready k)\<rparr>"
  have "switched k ?k" by (simp add: switched_def)
  moreover have "resched k = Some ?k" using True ok by (simp add: resched_def OS_SchedNew_spec)
  ultimately show ?thesis
    using True by (auto simp: highest_runs_def sched_ok_def running_def kernel_frame)
next
  case False
  then show ?thesis using resched_switch [OF ok] by blast
qed

lemma OS_Sched_spec:
  assumes ok: "kernel_ok k"
  shows "\<exists>k'. OS_Sched k = Some k' \<and> switched k k' \<and> kernel_ok k' \<and>
    (OSIntNesting k = 0 \<and> OSLockNesting k = 0 \<and> sched_ok k \<longrightarrow> highest_runs k') \<and>
    (OSIntNesting k \<noteq> 0 \<or> OSLockNesting k \<noteq> 0 \<longrightarrow> k' = k)"
  using resched_spec [OF ok] ok kernel_ok_switched by (auto simp: OS_Sched_def)

end
