(* ===== verification/Os_Tick.thy ===== *)
theory Os_Tick
  imports Os_Sched
begin

text \<open>
  The clock tick: the list of tasks it walks, and what it does to each of them.
\<close>

section \<open>The list of tasks\<close>

text \<open>\<open>chain next h xs\<close>: following \<open>next\<close> from the pointer \<open>h\<close> leads through \<open>xs\<close> to NULL.\<close>

fun chain :: "(nat \<Rightarrow> nat option) \<Rightarrow> nat option \<Rightarrow> nat list \<Rightarrow> bool" where
  "chain nx h [] = (h = None)"
| "chain nx h (x # xs) = (h = Some x \<and> chain nx (nx x) xs)"

lemma chain_cong: "(\<And>x. x \<in> set xs \<Longrightarrow> nx x = nx' x) \<Longrightarrow> chain nx h xs = chain nx' h xs"
  by (induction xs arbitrary: h) simp_all

definition tcb_next :: "kernel \<Rightarrow> nat \<Rightarrow> nat option" where
  "tcb_next k t = OSTCBNext (OSTCBTbl k t)"

text \<open>
  The list from \<open>OSTCBList\<close> holds every task once and ends with the idle task; the list from
  \<open>OSTCBFreeList\<close> holds control blocks that are not in it.
\<close>

definition task_lists :: "kernel \<Rightarrow> nat list \<Rightarrow> nat \<Rightarrow> nat list \<Rightarrow> bool" where
  "task_lists k us i fs \<longleftrightarrow> chain (tcb_next k) (OSTCBList k) (us @ [i]) \<and> chain (tcb_next k) (OSTCBFreeList k) fs \<and>
     distinct (us @ i # fs) \<and> set (us @ i # fs) \<subseteq> {..<OS_N_TCBS} \<and> tcb_prio OS_TASK_IDLE_PRIO k = Some i \<and>
     (\<forall>t. t \<in> set us \<longleftrightarrow> (\<exists>p. p \<noteq> OS_TASK_IDLE_PRIO \<and> tcb_prio p k = Some t))"

definition lists_ok :: "kernel \<Rightarrow> bool" where
  "lists_ok k \<longleftrightarrow> (\<exists>us i fs. task_lists k us i fs)"

lemma task_lists_cong:
  assumes "\<And>t. tcb_next k' t = tcb_next k t" "OSTCBList k' = OSTCBList k" "OSTCBFreeList k' = OSTCBFreeList k"
    "\<And>p. tcb_prio p k' = tcb_prio p k"
  shows "task_lists k' us i fs \<longleftrightarrow> task_lists k us i fs"
proof -
  have "tcb_next k' = tcb_next k" by (rule ext) (rule assms(1))
  then show ?thesis by (simp add: task_lists_def assms)
qed

lemma task_lists_same_kernel [simp]: "same_kernel k k' \<Longrightarrow> task_lists k' us i fs = task_lists k us i fs"
proof -
  assume s: "same_kernel k k'"
  have "tcb_next k' = tcb_next k" by (rule ext) (simp add: tcb_next_def same_kernel_kernel [OF s])
  then show ?thesis by (simp add: task_lists_def same_kernel_kernel [OF s])
qed

lemma lists_ok_same_kernel [simp]: "same_kernel k k' \<Longrightarrow> lists_ok k' = lists_ok k"
  by (simp add: lists_ok_def)

section \<open>One task\<close>

text \<open>The delay of the task ends with this tick and nothing else holds it back.\<close>

definition tick_wakes :: "os_tcb \<Rightarrow> bool" where
  "tick_wakes b \<longleftrightarrow> OSTCBDly b = 1 \<and> \<not> suspended b"

lemma suspended_unpend: "(s AND - 56) AND OS_STAT_SUSPEND = s AND OS_STAT_SUSPEND" for s :: INT8U
  using suspended_mask [of OS_STAT_PEND_ANY s] by simp

lemma dly_one: "d \<noteq> 0 \<and> d - 1 = 0 \<longleftrightarrow> d = 1" for d :: INT16U
  by auto

lemma same_task_tick: "same_task b (tick_tcb b)"
  by (simp add: same_task_def tick_tcb_def Let_def)

lemma task_ok_tick:
  assumes "task_ok p b r ws"
  shows "task_ok p (tick_tcb b) (r \<or> tick_wakes b) ws"
proof -
  have sus: "suspended (tick_tcb b) = suspended b"
    by (simp add: tick_tcb_def Let_def suspended_def suspended_unpend)
  have "tcb_fields p (tick_tcb b)" "linked_events (tick_tcb b) = linked_events b" "event_bound (tick_tcb b) = event_bound b"
    using assms by (simp_all add: tick_tcb_def Let_def task_ok_def tcb_fields_def linked_events_def event_bound_def
        split: option.splits)
  moreover have "OSTCBDly (tick_tcb b) = 0" if "r \<or> tick_wakes b"
    using that assms by (auto simp: tick_tcb_def Let_def task_ok_def tick_wakes_def)
  moreover have "OSTCBStatPend (tick_tcb b) = OS_STAT_PEND_TO \<and> OSTCBDly (tick_tcb b) = 0 \<or>
      \<not> (r \<or> tick_wakes b) \<and> pending (tick_tcb b)" if "ws \<noteq> {}"
    using that assms by (auto simp: tick_tcb_def Let_def task_ok_def tick_wakes_def pending_def)
  moreover have "\<not> suspended b" if "r \<or> tick_wakes b"
    using that assms by (auto simp: task_ok_def tick_wakes_def)
  ultimately show ?thesis using assms sus by (auto simp: task_ok_def)
qed

lemma tick_task_spec:
  assumes ok: "kernel_ok k" and t: "tcb_prio p k = Some t" and p: "p \<noteq> OS_TASK_IDLE_PRIO"
  shows "\<exists>k'. tick_task t k = Some k' \<and> touches p t k k' \<and> kernel_ok k' \<and> OSTCBTbl k' t = tick_tcb (OSTCBTbl k t) \<and>
      ready k' = (if tick_wakes (OSTCBTbl k t) then insert p (ready k) else ready k) \<and> waits p k' = waits p k"
proof -
  let ?b = "OSTCBTbl k t"
  have T: "t < OS_N_TCBS" "task_ok p ?b (p \<in> ready k) (waits p k)" "p < 24"
    using kernel_okD(7) [OF ok t] tcb_prio_bound [OF t kernel_okD(1) [OF ok]] by simp_all
  define k1 where "k1 = set_tcb t (tick_tcb ?b) k"
  have k1: "touches p t k k1" unfolding k1_def by (rule touches_set_tcb [OF same_task_tick])
  have f: "tcb_fields p (tick_tcb ?b)" using task_ok_tick [OF T(2)] by (simp add: task_ok_def)
  have sus: "OSTCBStat (tick_tcb ?b) AND OS_STAT_SUSPEND = OS_STAT_RDY \<longleftrightarrow> \<not> suspended ?b"
    by (simp add: tick_tcb_def Let_def suspended_def suspended_unpend)
  have wakes: "OSTCBDly ?b \<noteq> 0 \<and> OSTCBDly (tick_tcb ?b) = 0 \<and> OSTCBStat (tick_tcb ?b) AND OS_STAT_SUSPEND = OS_STAT_RDY \<longleftrightarrow>
      tick_wakes ?b"
    unfolding sus tick_wakes_def by (auto simp: tick_tcb_def Let_def)
  obtain k2 where k2: "(if tick_wakes ?b then make_ready (OSTCBY (tick_tcb ?b)) (tick_tcb ?b) k1 else Some k1) = Some k2"
    "touches p t k k2" "OSTCBTbl k2 t = tick_tcb ?b" "waits p k2 = waits p k"
    "ready k2 = (if tick_wakes ?b then insert p (ready k) else ready k)"
  proof (cases "tick_wakes ?b")
    case True
    have "pt_ok (OSRdy k1)" "OSTCBY (tick_tcb ?b) = prio_y p"
      using kernel_okD(2) [OF ok] f by (simp_all add: k1_def tcb_fields_def)
    from make_ready_step [OF this(1) T(3) f this(2), of t] obtain k2 where
      "make_ready (OSTCBY (tick_tcb ?b)) (tick_tcb ?b) k1 = Some k2" "touches p t k1 k2" "OSTCBTbl k2 = OSTCBTbl k1"
      "ready k2 = insert p (ready k1)" "waits p k2 = waits p k1" by blast
    with True k1 touches_trans [OF k1] show ?thesis by (intro that [of k2]) (simp_all add: k1_def)
  next
    case False
    with k1 show ?thesis by (intro that [of k1]) (simp_all add: k1_def)
  qed
  have "kernel_ok k2"
  proof (rule kernel_ok_touches [OF ok k2(2) t])
    have "p \<in> ready k2 \<longleftrightarrow> p \<in> ready k \<or> tick_wakes ?b" using k2(5) by auto
    then show "task_ok p (OSTCBTbl k2 t) (p \<in> ready k2) (waits p k2)"
      using task_ok_tick [OF T(2)] by (simp add: k2(3,4))
  qed (use p in simp)
  moreover have "tick_task t k = Some k2"
    using T(1) k2(1) wakes by (simp add: tick_task_def k1_def Let_def split: if_splits)
  ultimately show ?thesis using k2 by blast
qed

section \<open>All tasks\<close>

lemma tick_tasks_spec:
  assumes "kernel_ok k" "chain (tcb_next k) h (us @ [i])" "distinct us" "i < OS_N_TCBS"
    "OSTCBPrio (OSTCBTbl k i) = OS_TASK_IDLE_PRIO"
    "\<forall>u \<in> set us. \<exists>p. p \<noteq> OS_TASK_IDLE_PRIO \<and> tcb_prio p k = Some u"
  shows "\<exists>k'. tick_tasks h k = Some k' \<and> same_kernel k k' \<and> kernel_ok k' \<and>
      (\<forall>u. OSTCBTbl k' u = (if u \<in> set us then tick_tcb (OSTCBTbl k u) else OSTCBTbl k u)) \<and>
      ready k' = ready k \<union> {p. \<exists>u \<in> set us. tcb_prio p k = Some u \<and> tick_wakes (OSTCBTbl k u)} \<and>
      (\<forall>e < OS_MAX_EVENTS. waiters e k' = waiters e k)"
  using assms
proof (induction us arbitrary: h k)
  case Nil
  then have "tick_tasks h k = Some k" by (subst tick_tasks.simps) simp
  then show ?case using Nil.prems(1) by simp
next
  case (Cons u us)
  have h: "h = Some u" "chain (tcb_next k) (tcb_next k u) (us @ [i])" using Cons.prems(2) by simp_all
  obtain p where p: "p \<noteq> OS_TASK_IDLE_PRIO" "tcb_prio p k = Some u" using Cons.prems(6) by auto
  have fu: "u < OS_N_TCBS" "OSTCBPrio (OSTCBTbl k u) = p"
    using kernel_okD(7) [OF Cons.prems(1) p(2)] by (simp_all add: task_ok_def tcb_fields_def)
  obtain k1 where k1: "tick_task u k = Some k1" "touches p u k k1" "kernel_ok k1" "OSTCBTbl k1 u = tick_tcb (OSTCBTbl k u)"
    "ready k1 = (if tick_wakes (OSTCBTbl k u) then insert p (ready k) else ready k)" "waits p k1 = waits p k"
    using tick_task_spec [OF Cons.prems(1) p(2,1)] by blast
  have s1: "same_kernel k k1" using k1(2) by (rule touches_same_kernel)
  have nx: "tcb_next k1 = tcb_next k" by (rule ext) (simp add: tcb_next_def same_kernel_kernel [OF s1])
  have w1: "waiters e k1 = waiters e k" if e: "e < OS_MAX_EVENTS" for e
  proof -
    have "q \<in> waiters e k1 \<longleftrightarrow> q \<in> waiters e k" for q
      using touches_other(4) [OF k1(2) e] k1(6) e by (cases "q = p") (auto simp: waits_def)
    then show ?thesis by blast
  qed
  have "\<exists>k'. tick_tasks (tcb_next k u) k1 = Some k' \<and> same_kernel k1 k' \<and> kernel_ok k' \<and>
      (\<forall>v. OSTCBTbl k' v = (if v \<in> set us then tick_tcb (OSTCBTbl k1 v) else OSTCBTbl k1 v)) \<and>
      ready k' = ready k1 \<union> {p. \<exists>v \<in> set us. tcb_prio p k1 = Some v \<and> tick_wakes (OSTCBTbl k1 v)} \<and>
      (\<forall>e < OS_MAX_EVENTS. waiters e k' = waiters e k1)"
    by (rule Cons.IH) (use Cons.prems h k1(3) in \<open>simp_all add: nx same_kernel_kernel [OF s1]\<close>)
  then obtain k' where k': "tick_tasks (tcb_next k u) k1 = Some k'" "same_kernel k1 k'" "kernel_ok k'"
      "\<forall>v. OSTCBTbl k' v = (if v \<in> set us then tick_tcb (OSTCBTbl k1 v) else OSTCBTbl k1 v)"
      "ready k' = ready k1 \<union> {p. \<exists>v \<in> set us. tcb_prio p k1 = Some v \<and> tick_wakes (OSTCBTbl k1 v)}"
      "\<forall>e < OS_MAX_EVENTS. waiters e k' = waiters e k1" by blast
  have "tick_tasks h k = Some k'"
    using h(1) fu p(1) k1(1) k'(1) by (subst tick_tasks.simps) (simp add: nx same_kernel_kernel [OF s1] flip: tcb_next_def)
  moreover have "same_kernel k k'" using s1 k'(2) by (rule same_kernel_trans)
  moreover have T1: "OSTCBTbl k1 v = OSTCBTbl k v" if "v \<noteq> u" for v using touches_other(1) [OF k1(2) that] .
  moreover have "\<forall>v. OSTCBTbl k' v = (if v \<in> set (u # us) then tick_tcb (OSTCBTbl k v) else OSTCBTbl k v)"
  proof
    fix v
    show "OSTCBTbl k' v = (if v \<in> set (u # us) then tick_tcb (OSTCBTbl k v) else OSTCBTbl k v)"
      using k'(4) k1(4) T1 [of v] Cons.prems(3) by (cases "v = u") simp_all
  qed
  moreover have "ready k' = ready k \<union> {p. \<exists>v \<in> set (u # us). tcb_prio p k = Some v \<and> tick_wakes (OSTCBTbl k v)}"
  proof -
    have "tcb_prio q k = Some u \<longleftrightarrow> q = p" for q
      using p(2) fu(2) kernel_okD(7) [OF Cons.prems(1), of q u] by (auto simp: task_ok_def tcb_fields_def)
    moreover have "OSTCBTbl k1 v = OSTCBTbl k v" if "v \<in> set us" for v
    proof (rule T1)
      show "v \<noteq> u" using that Cons.prems(3) by auto
    qed
    ultimately show ?thesis using k'(5) k1(5) by (auto simp: same_kernel_kernel [OF s1])
  qed
  ultimately show ?case using k'(3,6) w1 by simp
qed

text \<open>
  The tick as a whole: time goes on, and when multitasking runs and ticks are not being stepped
  every task but the idle one is counted down once.
\<close>

definition tick_runs :: "kernel \<Rightarrow> bool" where
  "tick_runs k \<longleftrightarrow> OSRunning k \<and> OSTickStepState k \<noteq> OS_TICK_STEP_WAIT"

lemma OSTimeTick_spec:
  assumes ok: "kernel_ok k" and lists: "lists_ok k"
  shows "\<exists>k'. OSTimeTick k = Some k' \<and> kernel_ok k' \<and> lists_ok k' \<and> OSTime k' = OSTime k + 1 \<and>
     same_kernel (k\<lparr>OSTime := OSTime k + 1, OSTickStepState := OSTickStepState k'\<rparr>) k' \<and>
     (OSTickStepState k = OS_TICK_STEP_DIS \<longrightarrow> OSTickStepState k' = OS_TICK_STEP_DIS) \<and>
     OSTCBCur k' = OSTCBCur k \<and> OSPrioCur k' = OSPrioCur k \<and>
     (\<forall>p. tcb_prio p k' = tcb_prio p k) \<and> (\<forall>e < OS_MAX_EVENTS. waiters e k' = waiters e k) \<and>
     (\<forall>p. p \<noteq> OS_TASK_IDLE_PRIO \<longrightarrow> p \<in> live k \<longrightarrow>
        tcb_of p k' = (if tick_runs k then tick_tcb (tcb_of p k) else tcb_of p k) \<and>
        (p \<in> ready k' \<longleftrightarrow> p \<in> ready k \<or> tick_runs k \<and> tick_wakes (tcb_of p k)))"
proof -
  obtain us i fs where L: "task_lists k us i fs" using lists by (auto simp: lists_ok_def)
  have Li: "chain (tcb_next k) (OSTCBList k) (us @ [i])" "distinct us" "i < OS_N_TCBS"
    "\<forall>t. t \<in> set us \<longleftrightarrow> (\<exists>p. p \<noteq> OS_TASK_IDLE_PRIO \<and> tcb_prio p k = Some t)"
    "OSTCBPrio (OSTCBTbl k i) = OS_TASK_IDLE_PRIO"
    using L kernel_okD(7) [OF ok, of OS_TASK_IDLE_PRIO i]
    by (simp_all add: task_lists_def task_ok_def tcb_fields_def)
  show ?thesis
  proof (cases "tick_runs k")
    case False
    define st where "st = OSTickStepState k"
    have "OSTimeTick k = Some (k\<lparr>OSTime := OSTime k + 1\<rparr>)"
      using False by (auto simp: OSTimeTick_def tick_runs_def Let_def)
    moreover have "lists_ok (k\<lparr>OSTime := OSTime k + 1\<rparr>)"
    proof -
      have "tcb_next (k\<lparr>OSTime := OSTime k + 1\<rparr>) = tcb_next k" by (rule ext) (simp add: tcb_next_def)
      then show ?thesis using lists by (simp add: lists_ok_def task_lists_def kernel_frame)
    qed
    moreover have "k\<lparr>OSTime := OSTime k + 1, OSTickStepState := OSTickStepState k\<rparr> = k\<lparr>OSTime := OSTime k + 1\<rparr>" by simp
    ultimately show ?thesis using False ok by (simp add: kernel_frame tcb_of_def)
  next
    case True
    define st where "st = (if OSTickStepState k = OS_TICK_STEP_DIS then OSTickStepState k
      else if OSTickStepState k = OS_TICK_STEP_ONCE then OS_TICK_STEP_WAIT else OS_TICK_STEP_DIS)"
    define k0 where "k0 = k\<lparr>OSTime := OSTime k + 1, OSTickStepState := st\<rparr>"
    have k0: "OSTCBTbl k0 = OSTCBTbl k" "OSTCBList k0 = OSTCBList k" "OSTCBFreeList k0 = OSTCBFreeList k" "tcb_next k0 = tcb_next k"
      "OSTCBCur k0 = OSTCBCur k" "OSPrioCur k0 = OSPrioCur k" "OSTime k0 = OSTime k + 1"
      "tcb_prio p k0 = tcb_prio p k" "ready k0 = ready k" "waiters e k0 = waiters e k" "kernel_ok k0" for p e
      using ok by (simp_all add: k0_def tcb_next_def fun_eq_iff kernel_frame)
    have L0: "task_lists k0 us i fs"
      using L unfolding task_lists_def k0 .
    have tick: "OSTimeTick k = tick_tasks (OSTCBList k) k0"
      using True by (auto simp: OSTimeTick_def tick_runs_def Let_def k0_def st_def)
    have Li6: "\<forall>u \<in> set us. \<exists>p. p \<noteq> OS_TASK_IDLE_PRIO \<and> tcb_prio p k = Some u" using Li(4) by blast
    obtain k' where k': "tick_tasks (OSTCBList k) k0 = Some k'" "same_kernel k0 k'" "kernel_ok k'"
      "\<forall>u. OSTCBTbl k' u = (if u \<in> set us then tick_tcb (OSTCBTbl k u) else OSTCBTbl k u)"
      "ready k' = ready k \<union> {p. \<exists>u \<in> set us. tcb_prio p k = Some u \<and> tick_wakes (OSTCBTbl k u)}"
      "\<forall>e < OS_MAX_EVENTS. waiters e k' = waiters e k"
      using tick_tasks_spec [OF k0(11), unfolded k0(1,4,8-10), OF Li(1,2,3,5) Li6] by blast
    have "lists_ok k'" using k'(2) L0 by (auto simp: lists_ok_def)
    moreover have "tcb_of p k' = tick_tcb (tcb_of p k) \<and> (p \<in> ready k' \<longleftrightarrow> p \<in> ready k \<or> tick_wakes (tcb_of p k))"
      if p: "p \<noteq> OS_TASK_IDLE_PRIO" "p \<in> live k" for p
    proof -
      obtain t where t: "tcb_prio p k = Some t" using p(2) by (auto simp: live_def)
      then have "t \<in> set us" using Li(4) p(1) by blast
      then show ?thesis using t k' k0 by (auto simp: tcb_of_def same_kernel_kernel)
    qed
    moreover have "OSTime k' = OSTime k0" "OSTickStepState k' = st"
    proof -
      have "k' = k0\<lparr>OSRdy := OSRdy k', OSTCBTbl := OSTCBTbl k', OSEventTbl := OSEventTbl k'\<rparr>"
        using k'(2) by (simp add: same_kernel_def)
      then obtain r T E where "k' = k0\<lparr>OSRdy := r, OSTCBTbl := T, OSEventTbl := E\<rparr>" by blast
      then show "OSTime k' = OSTime k0" "OSTickStepState k' = st" by (simp_all add: k0_def)
    qed
    moreover have "k\<lparr>OSTime := OSTime k + 1, OSTickStepState := st\<rparr> = k0" by (simp add: k0_def)
    moreover have "OSTickStepState k = OS_TICK_STEP_DIS \<Longrightarrow> st = OS_TICK_STEP_DIS" by (simp add: st_def)
    ultimately show ?thesis using True tick k' k0 by (simp add: same_kernel_kernel)
  qed
qed

end
