(* ===== verification/Os_Task.thy ===== *)
theory Os_Task
  imports Os_Tick
begin

text \<open>
  Tasks, \<^verbatim>\<open>UCOSII/src/os_task.c\<close>: creation, suspension, change of priority, names and stacks.
  Stacks are memory that grows down (\<open>OS_STK_GROWTH\<close> is 1). What the processor port and the C
  library add to a stack (the size and the initialisation of a \<^verbatim>\<open>struct _reent\<close>, the address of
  \<open>OSStartTsk\<close>) is the parameter \<open>port\<close>.
\<close>

section \<open>Stacks\<close>

record port =
  reent_size :: INT32U
  reent_init :: "INT32U \<Rightarrow> (INT32U \<Rightarrow> INT32U) \<Rightarrow> (INT32U \<Rightarrow> INT32U)"
  start_tsk :: INT32U

abbreviation OS_TASK_OPT_STK_CHK :: INT16U where "OS_TASK_OPT_STK_CHK \<equiv> 1"
abbreviation OS_TASK_OPT_STK_CLR :: INT16U where "OS_TASK_OPT_STK_CLR \<equiv> 2"

definition OSTaskStkInit :: "port \<Rightarrow> INT32U \<Rightarrow> INT32U \<Rightarrow> INT32U \<Rightarrow> kernel \<Rightarrow> INT32U \<times> kernel" where
  "OSTaskStkInit port task pdata pstk k =
     (let impure = (pstk AND NOT 0x3) - reent_size port;
          m = reent_init port impure (OSRam k);
          stk = impure - 13 * 4;
          m = m(stk + 12 * 4 := task);
          m = m(stk + 11 * 4 := pdata);
          m = m(stk + 10 * 4 := impure);
          m = m(stk := start_tsk port + 4)
      in (stk, k\<lparr>OSRam := m\<rparr>))"

fun stk_clr :: "INT32U \<Rightarrow> nat \<Rightarrow> (INT32U \<Rightarrow> INT32U) \<Rightarrow> (INT32U \<Rightarrow> INT32U)" where
  "stk_clr pbos 0 m = m"
| "stk_clr pbos (Suc n) m = stk_clr (pbos + 4) n (m(pbos := 0))"

definition OS_TaskStkClr :: "INT32U \<Rightarrow> INT32U \<Rightarrow> INT16U \<Rightarrow> kernel \<Rightarrow> kernel" where
  "OS_TaskStkClr pbos stk_size opt k =
     (if opt AND OS_TASK_OPT_STK_CHK \<noteq> 0
      then if opt AND OS_TASK_OPT_STK_CLR \<noteq> 0 then k\<lparr>OSRam := stk_clr pbos (unat stk_size) (OSRam k)\<rparr> else k
      else k)"

section \<open>Creation\<close>

definition set_prio :: "INT8U \<Rightarrow> prio_entry \<Rightarrow> kernel \<Rightarrow> kernel" where
  "set_prio p e k = k\<lparr>OSTCBPrioTbl := (OSTCBPrioTbl k)[unat p := e]\<rparr>"

text \<open>The end of both creation services, from \<open>OS_TCBInit\<close> on.\<close>

definition create_end :: "INT8U \<Rightarrow> (INT8U \<times> kernel) option \<Rightarrow> (INT8U \<times> kernel) option" where
  "create_end prio r = do {
     (err, k) \<leftarrow> r;
     if err = OS_ERR_NONE
     then if OSRunning k then do { k \<leftarrow> OS_Sched k; Some (err, k) } else Some (err, k)
     else Some (err, set_prio prio PNull k) }"

definition OSTaskCreate ::
  "port \<Rightarrow> INT32U \<Rightarrow> INT32U \<Rightarrow> INT32U \<Rightarrow> INT8U \<Rightarrow> kernel \<Rightarrow> (INT8U \<times> kernel) option" where
  "OSTaskCreate port task p_arg ptos prio k =
     (if prio > of_nat OS_LOWEST_PRIO then Some (OS_ERR_PRIO_INVALID, k)
      else if OSIntNesting k > 0 then Some (OS_ERR_TASK_CREATE_ISR, k)
      else do {
        e \<leftarrow> prio_at prio k;
        if e = PNull then
          let k = set_prio prio PReserved k;
              (psp, k) = OSTaskStkInit port task p_arg ptos k
          in create_end prio (OS_TCBInit prio psp 0 0 0 VNull 0 k)
        else Some (OS_ERR_PRIO_EXIST, k) })"

definition OSTaskCreateExt ::
  "port \<Rightarrow> INT32U \<Rightarrow> INT32U \<Rightarrow> INT32U \<Rightarrow> INT8U \<Rightarrow> INT16U \<Rightarrow> INT32U \<Rightarrow> INT32U \<Rightarrow> vptr \<Rightarrow> INT16U \<Rightarrow> kernel
   \<Rightarrow> (INT8U \<times> kernel) option" where
  "OSTaskCreateExt port task p_arg ptos prio id_num pbos stk_size pext opt k =
     (if prio > of_nat OS_LOWEST_PRIO then Some (OS_ERR_PRIO_INVALID, k)
      else if OSIntNesting k > 0 then Some (OS_ERR_TASK_CREATE_ISR, k)
      else do {
        e \<leftarrow> prio_at prio k;
        if e = PNull then
          let k = set_prio prio PReserved k;
              k = OS_TaskStkClr pbos stk_size opt k;
              (psp, k) = OSTaskStkInit port task p_arg ptos k
          in create_end prio (OS_TCBInit prio psp pbos id_num stk_size pext opt k)
        else Some (OS_ERR_PRIO_EXIST, k) })"

section \<open>Suspension\<close>

definition unready :: "os_tcb \<Rightarrow> kernel \<Rightarrow> kernel option" where
  "unready b k = do { r \<leftarrow> pt_clear (OSTCBY b) (OSTCBBitX b) (OSTCBBitY b) (OSRdy k); Some (k\<lparr>OSRdy := r\<rparr>) }"

definition OSTaskSuspend :: "INT8U \<Rightarrow> kernel \<Rightarrow> (INT8U \<times> kernel) option" where
  "OSTaskSuspend prio k =
     (if prio = OS_TASK_IDLE_PRIO then Some (OS_ERR_TASK_SUSPEND_IDLE, k)
      else if prio \<ge> of_nat OS_LOWEST_PRIO \<and> prio \<noteq> OS_PRIO_SELF then Some (OS_ERR_PRIO_INVALID, k)
      else do {
        (c, cb) \<leftarrow> cur_tcb k;
        let self = (prio = OS_PRIO_SELF \<or> prio = OSTCBPrio cb);
        let prio = (if prio = OS_PRIO_SELF then OSTCBPrio cb else prio);
        e \<leftarrow> prio_at prio k;
        case e of
          PNull \<Rightarrow> Some (OS_ERR_TASK_SUSPEND_PRIO, k)
        | PReserved \<Rightarrow> Some (OS_ERR_TASK_NOT_EXIST, k)
        | PTcb t \<Rightarrow> do {
            b \<leftarrow> tcb_at t k;
            k \<leftarrow> unready b k;
            let k = set_tcb t (b\<lparr>OSTCBStat := OSTCBStat b OR OS_STAT_SUSPEND\<rparr>) k;
            k \<leftarrow> (if self then OS_Sched k else Some k);
            Some (OS_ERR_NONE, k) } })"

definition OSTaskResume :: "INT8U \<Rightarrow> kernel \<Rightarrow> (INT8U \<times> kernel) option" where
  "OSTaskResume prio k =
     (if prio \<ge> of_nat OS_LOWEST_PRIO then Some (OS_ERR_PRIO_INVALID, k)
      else do {
        e \<leftarrow> prio_at prio k;
        case e of
          PNull \<Rightarrow> Some (OS_ERR_TASK_RESUME_PRIO, k)
        | PReserved \<Rightarrow> Some (OS_ERR_TASK_NOT_EXIST, k)
        | PTcb t \<Rightarrow> do {
            b \<leftarrow> tcb_at t k;
            if OSTCBStat b AND OS_STAT_SUSPEND \<noteq> OS_STAT_RDY then do {
              let b = b\<lparr>OSTCBStat := OSTCBStat b AND NOT OS_STAT_SUSPEND\<rparr>;
              let k = set_tcb t b k;
              k \<leftarrow> (if OSTCBStat b = OS_STAT_RDY
                    then if OSTCBDly b = 0
                         then do { k \<leftarrow> make_ready (OSTCBY b) b k; if OSRunning k then OS_Sched k else Some k }
                         else Some k
                    else Some k);
              Some (OS_ERR_NONE, k) }
            else Some (OS_ERR_TASK_NOT_SUSPENDED, k) } })"

section \<open>Change of priority\<close>

text \<open>Moving a task's bit in the wait list of an event from the old priority to the new one.\<close>

definition move_wait :: "os_tcb \<Rightarrow> INT8U \<Rightarrow> nat \<Rightarrow> kernel \<Rightarrow> kernel option" where
  "move_wait b newprio e k = do {
     k \<leftarrow> event_unwait e b k;
     ev \<leftarrow> ecb_at e k;
     w \<leftarrow> pt_set (prio_y newprio) (bit8 (prio_x newprio)) (bit8 (prio_y newprio)) (OSEventWait ev);
     Some (set_ecb e (ev\<lparr>OSEventWait := w\<rparr>) k) }"

fun move_multi :: "os_tcb \<Rightarrow> INT8U \<Rightarrow> nat list \<Rightarrow> kernel \<Rightarrow> kernel option" where
  "move_multi b newprio [] k = Some k"
| "move_multi b newprio (e # es) k = do { k \<leftarrow> move_wait b newprio e k; move_multi b newprio es k }"

definition OSTaskChangePrio :: "INT8U \<Rightarrow> INT8U \<Rightarrow> kernel \<Rightarrow> (INT8U \<times> kernel) option" where
  "OSTaskChangePrio oldprio newprio k =
     (if oldprio \<ge> of_nat OS_LOWEST_PRIO \<and> oldprio \<noteq> OS_PRIO_SELF then Some (OS_ERR_PRIO_INVALID, k)
      else if newprio \<ge> of_nat OS_LOWEST_PRIO then Some (OS_ERR_PRIO_INVALID, k)
      else do {
        ne \<leftarrow> prio_at newprio k;
        if ne \<noteq> PNull then Some (OS_ERR_PRIO_EXIST, k)
        else do {
          oldprio \<leftarrow> (if oldprio = OS_PRIO_SELF then map_option (\<lambda>(c, b). OSTCBPrio b) (cur_tcb k) else Some oldprio);
          e \<leftarrow> prio_at oldprio k;
          case e of
            PNull \<Rightarrow> Some (OS_ERR_PRIO, k)
          | PReserved \<Rightarrow> Some (OS_ERR_TASK_NOT_EXIST, k)
          | PTcb t \<Rightarrow> do {
              b \<leftarrow> tcb_at t k;
              let k = set_prio newprio (PTcb t) (set_prio oldprio PNull k);
              k \<leftarrow> (if unat (OSTCBY b) < length (Tbl (OSRdy k)) then
                      if Tbl (OSRdy k) ! unat (OSTCBY b) AND OSTCBBitX b \<noteq> 0 then do {
                        k \<leftarrow> unready b k;
                        r \<leftarrow> pt_set (prio_y newprio) (bit8 (prio_x newprio)) (bit8 (prio_y newprio)) (OSRdy k);
                        Some (k\<lparr>OSRdy := r\<rparr>) }
                      else Some k
                    else None);
              k \<leftarrow> (case OSTCBEventPtr b of None \<Rightarrow> Some k | Some e \<Rightarrow> move_wait b newprio e k);
              k \<leftarrow> (case OSTCBEventMultiPtr b of None \<Rightarrow> Some k | Some es \<Rightarrow> move_multi b newprio es k);
              let k = set_tcb t (b\<lparr>OSTCBPrio := newprio, OSTCBY := prio_y newprio, OSTCBX := prio_x newprio,
                                   OSTCBBitY := bit8 (prio_y newprio), OSTCBBitX := bit8 (prio_x newprio)\<rparr>) k;
              k \<leftarrow> (if OSRunning k then OS_Sched k else Some k);
              Some (OS_ERR_NONE, k) } } })"

section \<open>Requests, names, queries, stacks\<close>

definition OSTaskDelReq :: "INT8U \<Rightarrow> kernel \<Rightarrow> (INT8U \<times> kernel) option" where
  "OSTaskDelReq prio k =
     (if prio = OS_TASK_IDLE_PRIO then Some (OS_ERR_TASK_DEL_IDLE, k)
      else if prio \<ge> of_nat OS_LOWEST_PRIO \<and> prio \<noteq> OS_PRIO_SELF then Some (OS_ERR_PRIO_INVALID, k)
      else if prio = OS_PRIO_SELF then do { (c, b) \<leftarrow> cur_tcb k; Some (OSTCBDelReq b, k) }
      else do {
        e \<leftarrow> prio_at prio k;
        case e of
          PNull \<Rightarrow> Some (OS_ERR_TASK_NOT_EXIST, k)
        | PReserved \<Rightarrow> Some (OS_ERR_TASK_DEL, k)
        | PTcb t \<Rightarrow> do {
            b \<leftarrow> tcb_at t k;
            Some (OS_ERR_NONE, set_tcb t (b\<lparr>OSTCBDelReq := OS_ERR_TASK_DEL_REQ\<rparr>) k) } })"

text \<open>The priority the caller means: its own when it gives \<open>OS_PRIO_SELF\<close>.\<close>

definition self_prio :: "INT8U \<Rightarrow> kernel \<Rightarrow> INT8U option" where
  "self_prio prio k = (if prio = OS_PRIO_SELF then map_option (\<lambda>(c, b). OSTCBPrio b) (cur_tcb k) else Some prio)"

definition OSTaskNameGet ::
  "INT8U \<Rightarrow> INT8U list option \<Rightarrow> bool \<Rightarrow> kernel \<Rightarrow> (INT8U \<times> INT8U option \<times> INT8U list option) option" where
  "OSTaskNameGet prio pname perr k =
     (if \<not> perr then Some (0, None, pname)
      else if prio > of_nat OS_LOWEST_PRIO \<and> prio \<noteq> OS_PRIO_SELF then Some (0, Some OS_ERR_PRIO_INVALID, pname)
      else case pname of None \<Rightarrow> Some (0, Some OS_ERR_PNAME_NULL, pname)
      | Some buf \<Rightarrow>
         if OSIntNesting k > 0 then Some (0, Some OS_ERR_NAME_GET_ISR, pname)
         else do {
           prio \<leftarrow> self_prio prio k;
           e \<leftarrow> prio_at prio k;
           case e of
             PTcb t \<Rightarrow> do {
               b \<leftarrow> tcb_at t k;
               (len, buf') \<leftarrow> OS_StrCopy buf (OSTCBTaskName b);
               Some (len, Some OS_ERR_NONE, Some buf') }
           | _ \<Rightarrow> Some (0, Some OS_ERR_TASK_NOT_EXIST, pname) })"

definition OSTaskNameSet ::
  "INT8U \<Rightarrow> INT8U list option \<Rightarrow> bool \<Rightarrow> kernel \<Rightarrow> (INT8U option \<times> kernel) option" where
  "OSTaskNameSet prio pname perr k =
     (if \<not> perr then Some (None, k)
      else if prio > of_nat OS_LOWEST_PRIO \<and> prio \<noteq> OS_PRIO_SELF then Some (Some OS_ERR_PRIO_INVALID, k)
      else case pname of None \<Rightarrow> Some (Some OS_ERR_PNAME_NULL, k)
      | Some name \<Rightarrow>
         if OSIntNesting k > 0 then Some (Some OS_ERR_NAME_SET_ISR, k)
         else do {
           prio \<leftarrow> self_prio prio k;
           e \<leftarrow> prio_at prio k;
           case e of
             PTcb t \<Rightarrow> do {
               b \<leftarrow> tcb_at t k;
               len \<leftarrow> OS_StrLen name;
               if len > of_nat (OS_TASK_NAME_SIZE - 1) then Some (Some OS_ERR_TASK_NAME_TOO_LONG, k)
               else do {
                 (_, buf) \<leftarrow> OS_StrCopy (OSTCBTaskName b) name;
                 Some (Some OS_ERR_NONE, set_tcb t (b\<lparr>OSTCBTaskName := buf\<rparr>) k) } }
           | _ \<Rightarrow> Some (Some OS_ERR_TASK_NOT_EXIST, k) })"

definition OSTaskQuery :: "INT8U \<Rightarrow> bool \<Rightarrow> kernel \<Rightarrow> (INT8U \<times> os_tcb option) option" where
  "OSTaskQuery prio p_task_data k =
     (if prio > of_nat OS_LOWEST_PRIO \<and> prio \<noteq> OS_PRIO_SELF then Some (OS_ERR_PRIO_INVALID, None)
      else if \<not> p_task_data then Some (OS_ERR_PDATA_NULL, None)
      else do {
        prio \<leftarrow> self_prio prio k;
        e \<leftarrow> prio_at prio k;
        case e of
          PNull \<Rightarrow> Some (OS_ERR_PRIO, None)
        | PReserved \<Rightarrow> Some (OS_ERR_TASK_NOT_EXIST, None)
        | PTcb t \<Rightarrow> do { b \<leftarrow> tcb_at t k; Some (OS_ERR_NONE, Some b) } })"

text \<open>The words above the bottom of the stack that are zero, counted up to the first that is not.\<close>

partial_function (option) count_free :: "(INT32U \<Rightarrow> INT32U) \<Rightarrow> INT32U \<Rightarrow> INT32U \<Rightarrow> INT32U option" where
  "count_free m pchk nfree = (if m pchk = 0 then count_free m (pchk + 4) (nfree + 1) else Some nfree)"

record os_stk_data =
  OSFree :: INT32U
  OSUsed :: INT32U

definition OSTaskStkChk ::
  "INT8U \<Rightarrow> os_stk_data option \<Rightarrow> kernel \<Rightarrow> (INT8U \<times> os_stk_data option) option" where
  "OSTaskStkChk prio p_stk_data k =
     (if prio > of_nat OS_LOWEST_PRIO \<and> prio \<noteq> OS_PRIO_SELF then Some (OS_ERR_PRIO_INVALID, p_stk_data)
      else case p_stk_data of None \<Rightarrow> Some (OS_ERR_PDATA_NULL, None)
      | Some d \<Rightarrow> do {
          let d = d\<lparr>OSFree := 0, OSUsed := 0\<rparr>;
          prio \<leftarrow> self_prio prio k;
          e \<leftarrow> prio_at prio k;
          case e of
            PTcb t \<Rightarrow> do {
              b \<leftarrow> tcb_at t k;
              if OSTCBOpt b AND OS_TASK_OPT_STK_CHK = 0 then Some (OS_ERR_TASK_OPT, Some d)
              else do {
                nfree \<leftarrow> count_free (OSRam k) (OSTCBStkBottom b) 0;
                Some (OS_ERR_NONE, Some (d\<lparr>OSFree := nfree * 4, OSUsed := (OSTCBStkSize b - nfree) * 4\<rparr>)) } }
          | _ \<Rightarrow> Some (OS_ERR_TASK_NOT_EXIST, Some d) })"

end
