(* ===== verification/Os_Init.thy ===== *)
theory Os_Init
  imports Os_Task
begin

text \<open>
  The initialisation of the kernel, \<open>OSInit\<close>, and the start of multitasking: from any contents of
  memory they establish the invariant. The initialisation of the free lists of queues and flag
  groups is that of \<^verbatim>\<open>os_q.c\<close> and \<^verbatim>\<open>os_flag.c\<close>.
\<close>

section \<open>Queues and flags\<close>

abbreviation OS_MAX_FLAGS :: nat where "OS_MAX_FLAGS \<equiv> 20"
abbreviation OS_FLAG_NAME_SIZE :: nat where "OS_FLAG_NAME_SIZE \<equiv> 32"

definition q_zero :: os_q where
  "q_zero = \<lparr>OSQPtr = None, OSQStart = 0, OSQEnd = 0, OSQIn = 0, OSQOut = 0, OSQSize = 0, OSQEntries = 0\<rparr>"

definition OS_QInit :: "kernel \<Rightarrow> kernel" where
  "OS_QInit k =
     (let link = (\<lambda>i next k. k\<lparr>OSQTbl := (OSQTbl k)(i := (OSQTbl k i)\<lparr>OSQPtr := next\<rparr>)\<rparr>);
          k = k\<lparr>OSQTbl := (\<lambda>_. q_zero)\<rparr>;
          k = fold (\<lambda>i. link i (Some (Suc i))) [0..<OS_MAX_QS - 1] k;
          k = link (OS_MAX_QS - 1) None k
      in k\<lparr>OSQFreeList := Some 0\<rparr>)"

definition flag_zero :: os_flag_grp where
  "flag_zero = \<lparr>OSFlagType = 0, OSFlagWaitList = VNull, OSFlagFlags = 0,
     OSFlagName = replicate OS_FLAG_NAME_SIZE 0\<rparr>"

definition OS_FlagInit :: "kernel \<Rightarrow> kernel" where
  "OS_FlagInit k =
     (let init = (\<lambda>i link k. k\<lparr>OSFlagTbl := (OSFlagTbl k)(i := (OSFlagTbl k i)\<lparr>OSFlagType := OS_EVENT_TYPE_UNUSED,
                     OSFlagWaitList := link, OSFlagName := name_unset (OSFlagName (OSFlagTbl k i))\<rparr>)\<rparr>);
          k = k\<lparr>OSFlagTbl := (\<lambda>_. flag_zero)\<rparr>;
          k = fold (\<lambda>i. init i (VFlagGrp (Suc i))) [0..<OS_MAX_FLAGS - 1] k;
          k = init (OS_MAX_FLAGS - 1) VNull k
      in k\<lparr>OSFlagFreeList := Some 0\<rparr>)"

section \<open>The tasks of the kernel\<close>

text \<open>
  The addresses of the two tasks' functions and stacks are those the linker gives them.
\<close>

definition mem_zero :: os_mem where
  "mem_zero = \<lparr>OSMemAddr = 0, OSMemFreeBlk = VNull, OSMemBlkSize = 0, OSMemNBlks = 0, OSMemNFree = 0,
     OSMemName = replicate OS_MEM_NAME_SIZE 0\<rparr>"

definition OS_MemInit :: "kernel \<Rightarrow> kernel" where
  "OS_MemInit k =
     (let init = (\<lambda>i link k. k\<lparr>OSMemTbl := (OSMemTbl k)(i := (OSMemTbl k i)\<lparr>OSMemFreeBlk := link,
                     OSMemName := name_unset (OSMemName (OSMemTbl k i))\<rparr>)\<rparr>);
          k = k\<lparr>OSMemTbl := (\<lambda>_. mem_zero)\<rparr>;
          k = fold (\<lambda>i. init i (VMem (Suc i))) [0..<OS_MAX_MEM_PART - 1] k;
          k = init (OS_MAX_MEM_PART - 1) VNull k
      in k\<lparr>OSMemFreeList := Some 0\<rparr>)"

record sys_tasks =
  idle_task :: INT32U
  idle_stk :: INT32U
  stat_task :: INT32U
  stat_stk :: INT32U

abbreviation OS_TASK_IDLE_ID :: INT16U where "OS_TASK_IDLE_ID \<equiv> 65535"
abbreviation OS_TASK_STAT_ID :: INT16U where "OS_TASK_STAT_ID \<equiv> 65534"
abbreviation OS_TASK_IDLE_STK_SIZE :: INT32U where "OS_TASK_IDLE_STK_SIZE \<equiv> 512"
abbreviation OS_TASK_STAT_STK_SIZE :: INT32U where "OS_TASK_STAT_STK_SIZE \<equiv> 512"

text \<open>The characters of a C string, with the final NUL.\<close>

definition c_string :: "string \<Rightarrow> INT8U list" where
  "c_string s = map (\<lambda>c. of_nat (of_char c)) s @ [0]"

definition OS_InitTaskIdle :: "port \<Rightarrow> sys_tasks \<Rightarrow> kernel \<Rightarrow> kernel option" where
  "OS_InitTaskIdle port sys k = do {
     (_, k) \<leftarrow> OSTaskCreateExt port (idle_task sys) 0 (idle_stk sys + 4 * (OS_TASK_IDLE_STK_SIZE - 1)) OS_TASK_IDLE_PRIO
       OS_TASK_IDLE_ID (idle_stk sys) OS_TASK_IDLE_STK_SIZE VNull (OS_TASK_OPT_STK_CHK OR OS_TASK_OPT_STK_CLR) k;
     (_, k) \<leftarrow> OSTaskNameSet OS_TASK_IDLE_PRIO (Some (c_string ''uC/OS-II Idle'')) True k;
     Some k }"

definition OS_InitTaskStat :: "port \<Rightarrow> sys_tasks \<Rightarrow> kernel \<Rightarrow> kernel option" where
  "OS_InitTaskStat port sys k = do {
     (_, k) \<leftarrow> OSTaskCreateExt port (stat_task sys) 0 (stat_stk sys + 4 * (OS_TASK_STAT_STK_SIZE - 1)) OS_TASK_STAT_PRIO
       OS_TASK_STAT_ID (stat_stk sys) OS_TASK_STAT_STK_SIZE VNull (OS_TASK_OPT_STK_CHK OR OS_TASK_OPT_STK_CLR) k;
     (_, k) \<leftarrow> OSTaskNameSet OS_TASK_STAT_PRIO (Some (c_string ''uC/OS-II Stat'')) True k;
     Some k }"

definition OSInit :: "port \<Rightarrow> sys_tasks \<Rightarrow> kernel \<Rightarrow> kernel option" where
  "OSInit port sys k =
     (let k = OS_InitMisc k;
          k = OS_InitRdyList k;
          k = OS_InitTCBList k;
          k = OS_InitEventList k;
          k = OS_FlagInit k;
          k = OS_MemInit k;
          k = OS_QInit k
      in do { k \<leftarrow> OS_InitTaskIdle port sys k; OS_InitTaskStat port sys k })"

section \<open>The tables after initialisation\<close>

lemma fold_tcb:
  "fold (\<lambda>i k. k\<lparr>OSTCBTbl := (OSTCBTbl k)(i := f i (OSTCBTbl k i))\<rparr>) [0..<n] k =
     k\<lparr>OSTCBTbl := (\<lambda>t. if t < n then f t (OSTCBTbl k t) else OSTCBTbl k t)\<rparr>"
  by (induction n) (auto simp: fun_eq_iff less_Suc_eq intro!: kernel.fold_congs)

lemma fold_ecb:
  "fold (\<lambda>i k. k\<lparr>OSEventTbl := (OSEventTbl k)(i := f i (OSEventTbl k i))\<rparr>) [0..<n] k =
     k\<lparr>OSEventTbl := (\<lambda>t. if t < n then f t (OSEventTbl k t) else OSEventTbl k t)\<rparr>"
  by (induction n) (auto simp: fun_eq_iff less_Suc_eq intro!: kernel.fold_congs)

lemma fold_q:
  "fold (\<lambda>i k. k\<lparr>OSQTbl := (OSQTbl k)(i := f i (OSQTbl k i))\<rparr>) [0..<n] k =
     k\<lparr>OSQTbl := (\<lambda>t. if t < n then f t (OSQTbl k t) else OSQTbl k t)\<rparr>"
  by (induction n) (auto simp: fun_eq_iff less_Suc_eq intro!: kernel.fold_congs)

lemma fold_flag:
  "fold (\<lambda>i k. k\<lparr>OSFlagTbl := (OSFlagTbl k)(i := f i (OSFlagTbl k i))\<rparr>) [0..<n] k =
     k\<lparr>OSFlagTbl := (\<lambda>t. if t < n then f t (OSFlagTbl k t) else OSFlagTbl k t)\<rparr>"
  by (induction n) (auto simp: fun_eq_iff less_Suc_eq intro!: kernel.fold_congs)

lemma OS_InitTCBList_eq:
  "OS_InitTCBList k = k\<lparr>OSTCBTbl := (\<lambda>t. if t < OS_N_TCBS
      then tcb_zero\<lparr>OSTCBNext := (if t < OS_N_TCBS - 1 then Some (Suc t) else None),
                    OSTCBTaskName := name_unset (OSTCBTaskName tcb_zero)\<rparr> else tcb_zero),
     OSTCBPrioTbl := replicate (OS_LOWEST_PRIO + 1) PNull, OSTCBList := None, OSTCBFreeList := Some 0\<rparr>"
proof -
  let ?f = "\<lambda>i (b::os_tcb). b\<lparr>OSTCBNext := Some (Suc i), OSTCBTaskName := name_unset (OSTCBTaskName b)\<rparr>"
  have f: "fold (\<lambda>i k. k\<lparr>OSTCBTbl := (OSTCBTbl k)(i := ?f i (OSTCBTbl k i))\<rparr>) [0..<11] (k'\<lparr>OSTCBTbl := (\<lambda>_. tcb_zero), OSTCBPrioTbl := P\<rparr>) =
     k'\<lparr>OSTCBTbl := (\<lambda>t. if t < 11 then ?f t tcb_zero else tcb_zero), OSTCBPrioTbl := P\<rparr>" for k' P
    by (subst fold_tcb) (simp cong: if_cong)
  have "(\<lambda>t. if t < 11 then ?f t tcb_zero else tcb_zero)(11 := tcb_zero\<lparr>OSTCBNext := None,
      OSTCBTaskName := name_unset (OSTCBTaskName tcb_zero)\<rparr>) =
    (\<lambda>t. if t < 12 then tcb_zero\<lparr>OSTCBNext := (if t < 11 then Some (Suc t) else None),
                    OSTCBTaskName := name_unset (OSTCBTaskName tcb_zero)\<rparr> else tcb_zero)"
    by (auto simp: fun_eq_iff)
  then show ?thesis by (simp add: OS_InitTCBList_def set_tcb_def f cong: if_cong)
qed

lemma OS_InitEventList_eq:
  "OS_InitEventList k = k\<lparr>OSEventTbl := (\<lambda>e. if e < OS_MAX_EVENTS
      then ecb_zero\<lparr>OSEventPtr := (if e < OS_MAX_EVENTS - 1 then VEcb (Suc e) else VNull),
                    OSEventName := name_unset (OSEventName ecb_zero)\<rparr> else ecb_zero),
     OSEventFreeList := Some 0\<rparr>"
proof -
  let ?f = "\<lambda>i (b::os_event). b\<lparr>OSEventType := OS_EVENT_TYPE_UNUSED, OSEventPtr := VEcb (Suc i),
    OSEventName := name_unset (OSEventName b)\<rparr>"
  have f: "fold (\<lambda>i k. k\<lparr>OSEventTbl := (OSEventTbl k)(i := ?f i (OSEventTbl k i))\<rparr>) [0..<59] (k'\<lparr>OSEventTbl := (\<lambda>_. ecb_zero)\<rparr>) =
     k'\<lparr>OSEventTbl := (\<lambda>t. if t < 59 then ?f t ecb_zero else ecb_zero)\<rparr>" for k'
    by (subst fold_ecb) (simp cong: if_cong)
  have z: "ecb_zero\<lparr>OSEventType := 0\<rparr> = ecb_zero" by (simp add: ecb_zero_def)
  have "(\<lambda>t. if t < 59 then ?f t ecb_zero else ecb_zero)(59 := ecb_zero\<lparr>OSEventType := OS_EVENT_TYPE_UNUSED,
      OSEventPtr := VNull, OSEventName := name_unset (OSEventName ecb_zero)\<rparr>) =
    (\<lambda>e. if e < 60 then ecb_zero\<lparr>OSEventPtr := (if e < 59 then VEcb (Suc e) else VNull),
                    OSEventName := name_unset (OSEventName ecb_zero)\<rparr> else ecb_zero)"
    by (auto simp: fun_eq_iff z)
  then show ?thesis by (simp add: OS_InitEventList_def set_ecb_def f cong: if_cong)
qed

lemma OS_QInit_eq:
  "OS_QInit k = k\<lparr>OSQTbl := (\<lambda>q. if q < OS_MAX_QS - 1 then q_zero\<lparr>OSQPtr := Some (Suc q)\<rparr> else q_zero),
     OSQFreeList := Some 0\<rparr>"
proof -
  let ?f = "\<lambda>i (b::os_q). b\<lparr>OSQPtr := Some (Suc i)\<rparr>"
  have f: "fold (\<lambda>i k. k\<lparr>OSQTbl := (OSQTbl k)(i := ?f i (OSQTbl k i))\<rparr>) [0..<19] (k'\<lparr>OSQTbl := (\<lambda>_. q_zero)\<rparr>) =
     k'\<lparr>OSQTbl := (\<lambda>t. if t < 19 then ?f t q_zero else q_zero)\<rparr>" for k'
    by (subst fold_q) (simp cong: if_cong)
  have z: "q_zero\<lparr>OSQPtr := None\<rparr> = q_zero" by (simp add: q_zero_def)
  have "(\<lambda>t. if t < 19 then ?f t q_zero else q_zero)(19 := q_zero\<lparr>OSQPtr := None\<rparr>) =
    (\<lambda>t. if t < 19 then q_zero\<lparr>OSQPtr := Some (Suc t)\<rparr> else q_zero)"
    by (auto simp: fun_eq_iff z)
  then show ?thesis by (simp add: OS_QInit_def f)
qed

lemma OS_FlagInit_frame:
  "\<exists>F. OS_FlagInit k = k\<lparr>OSFlagTbl := F, OSFlagFreeList := Some 0\<rparr>"
proof -
  let ?f = "\<lambda>i (b::os_flag_grp). b\<lparr>OSFlagType := OS_EVENT_TYPE_UNUSED, OSFlagWaitList := VFlagGrp (Suc i),
    OSFlagName := name_unset (OSFlagName b)\<rparr>"
  have f: "fold (\<lambda>i k. k\<lparr>OSFlagTbl := (OSFlagTbl k)(i := ?f i (OSFlagTbl k i))\<rparr>) [0..<19] (k'\<lparr>OSFlagTbl := (\<lambda>_. flag_zero)\<rparr>) =
     k'\<lparr>OSFlagTbl := (\<lambda>t. if t < 19 then ?f t flag_zero else flag_zero)\<rparr>" for k'
    by (subst fold_flag) (simp cong: if_cong)
  show ?thesis by (rule exI) (simp add: OS_FlagInit_def f)
qed

lemma fold_mem:
  "fold (\<lambda>i k. k\<lparr>OSMemTbl := (OSMemTbl k)(i := f i (OSMemTbl k i))\<rparr>) [0..<n] k =
     k\<lparr>OSMemTbl := (\<lambda>t. if t < n then f t (OSMemTbl k t) else OSMemTbl k t)\<rparr>"
  by (induction n) (auto simp: fun_eq_iff less_Suc_eq intro!: kernel.fold_congs)

lemma OS_MemInit_eq:
  "OS_MemInit k = k\<lparr>OSMemTbl := (\<lambda>i. if i < OS_MAX_MEM_PART then mem_zero\<lparr>
      OSMemFreeBlk := (if i < OS_MAX_MEM_PART - 1 then VMem (Suc i) else VNull),
      OSMemName := name_unset (OSMemName mem_zero)\<rparr> else mem_zero), OSMemFreeList := Some 0\<rparr>"
proof -
  let ?f = "\<lambda>i (b::os_mem). b\<lparr>OSMemFreeBlk := VMem (Suc i), OSMemName := name_unset (OSMemName b)\<rparr>"
  have f: "fold (\<lambda>i k. k\<lparr>OSMemTbl := (OSMemTbl k)(i := ?f i (OSMemTbl k i))\<rparr>) [0..<59] (k'\<lparr>OSMemTbl := (\<lambda>_. mem_zero)\<rparr>) =
     k'\<lparr>OSMemTbl := (\<lambda>t. if t < 59 then ?f t mem_zero else mem_zero)\<rparr>" for k'
    by (subst fold_mem) (simp cong: if_cong)
  show ?thesis by (simp add: OS_MemInit_def f fun_eq_iff)
qed

section \<open>A new task\<close>

lemma task_ok_prev [simp]: "task_ok p (b\<lparr>OSTCBPrev := x\<rparr>) r ws = task_ok p b r ws"
  by (simp add: task_ok_def tcb_fields_def event_bound_def linked_events_def suspended_def pending_def
      split: option.splits)

text \<open>The control block that \<open>OS_TCBInit\<close> makes.\<close>

definition new_tcb :: "INT8U \<Rightarrow> os_tcb \<Rightarrow> bool" where
  "new_tcb p b \<longleftrightarrow> tcb_fields p b \<and> OSTCBStat b = OS_STAT_RDY \<and> OSTCBStatPend b = OS_STAT_PEND_OK \<and> OSTCBDly b = 0 \<and>
     OSTCBEventPtr b = None \<and> OSTCBEventMultiPtr b = None"

lemma new_tcb_prev [simp]: "new_tcb p (b\<lparr>OSTCBPrev := x\<rparr>) = new_tcb p b"
  "new_tcb p (b\<lparr>OSTCBTaskName := n\<rparr>) = new_tcb p b"
  by (simp_all add: new_tcb_def tcb_fields_def)

text \<open>
  \<open>created p t k k'\<close>: control block \<open>t\<close> was taken from the free list for a new ready task of
  priority \<open>p\<close>, at the head of the task list.
\<close>

definition created :: "INT8U \<Rightarrow> nat \<Rightarrow> kernel \<Rightarrow> kernel \<Rightarrow> bool" where
  "created p t k k' \<longleftrightarrow> kernel_pre k' \<and> new_tcb p (OSTCBTbl k' t) \<and>
     (\<forall>u q. u \<noteq> t \<longrightarrow> new_tcb q (OSTCBTbl k u) \<longrightarrow> new_tcb q (OSTCBTbl k' u)) \<and> ready k' = insert p (ready k) \<and>
     (\<forall>q. tcb_prio q k' = (if q = p then Some t else tcb_prio q k)) \<and>
     (\<forall>q. q \<noteq> p \<longrightarrow> prio_at q k' = prio_at q k) \<and> OSTCBFreeList k' = OSTCBNext (OSTCBTbl k t) \<and> OSTCBList k' = Some t \<and>
     OSTCBNext (OSTCBTbl k' t) = OSTCBList k \<and>
     (\<forall>u. u \<noteq> t \<longrightarrow> OSTCBNext (OSTCBTbl k' u) = OSTCBNext (OSTCBTbl k u) \<and> 
         length (OSTCBTaskName (OSTCBTbl k' u)) = length (OSTCBTaskName (OSTCBTbl k u))) \<and>
     length (OSTCBTaskName (OSTCBTbl k' t)) = length (OSTCBTaskName (OSTCBTbl k t)) \<and>
     OSEventTbl k' = OSEventTbl k \<and> OSEventFreeList k' = OSEventFreeList k \<and> OSQTbl k' = OSQTbl k \<and> OSQFreeList k' = OSQFreeList k \<and>
     OSRunning k' = OSRunning k \<and> OSIntNesting k' = OSIntNesting k \<and> OSLockNesting k' = OSLockNesting k \<and>
     OSTCBCur k' = OSTCBCur k \<and> OSPrioCur k' = OSPrioCur k"

lemma tcb_prio_update:
  assumes "OSTCBPrioTbl k' = (OSTCBPrioTbl k)[unat p := e]" "unat p < length (OSTCBPrioTbl k)"
  shows "tcb_prio q k' = (if q = p then (case e of PTcb t \<Rightarrow> Some t | _ \<Rightarrow> None) else tcb_prio q k)"
proof (cases "q = p")
  case True
  then show ?thesis using assms by (simp add: tcb_prio_def)
next
  case False
  then have "unat p \<noteq> unat q" by (simp add: word_unat_eq_iff)
  then show ?thesis using False assms by (simp add: tcb_prio_def)
qed

lemma task_ok_new: "new_tcb p b \<Longrightarrow> task_ok p b r {}"
  by (simp add: new_tcb_def task_ok_def event_bound_def linked_events_def suspended_def)

lemma kernel_pre_created:
  assumes pre: "kernel_pre k" and p: "unat p \<le> OS_LOWEST_PRIO" "tcb_prio p k = None"
    and t: "t < OS_N_TCBS" "\<And>q. tcb_prio q k \<noteq> Some t"
    and prio: "OSTCBPrioTbl k' = (OSTCBPrioTbl k)[unat p := PTcb t]"
    and r: "pt_ok (OSRdy k')" "ready k' = insert p (ready k)"
    and ev: "OSEventTbl k' = OSEventTbl k"
    and new: "new_tcb p (OSTCBTbl k' t)"
    and old: "\<And>u. u \<noteq> t \<Longrightarrow> \<exists>x. OSTCBTbl k' u = (OSTCBTbl k u)\<lparr>OSTCBPrev := x\<rparr>"
  shows "kernel_pre k' \<and> (\<forall>q. tcb_prio q k' = (if q = p then Some t else tcb_prio q k))"
proof -
  have K: "length (OSTCBPrioTbl k) = 21" "\<forall>e < OS_MAX_EVENTS. pt_ok (OSEventWait (OSEventTbl k e))"
    "ready k \<subseteq> live k" "\<forall>e < OS_MAX_EVENTS. waiters e k \<subseteq> live k"
    "\<And>p t. tcb_prio p k = Some t \<Longrightarrow> t < OS_N_TCBS \<and> task_ok p (OSTCBTbl k t) (p \<in> ready k) (waits p k)"
    using pre by (simp_all add: kernel_pre_def)
  have tp: "tcb_prio q k' = (if q = p then Some t else tcb_prio q k)" for q
    using tcb_prio_update [OF prio] K(1) p(1) by simp
  have wt: "waiters e k' = waiters e k" "waits q k' = waits q k" for e q
    by (simp_all add: waiters_def waits_def ev)
  have "p \<notin> live k" using p(2) by (simp add: live_def)
  then have pw: "waits p k = {}" "p \<notin> ready k" using K(3,4) by (auto simp: waits_def)
  have live: "live k' = insert p (live k)" by (auto simp: live_def tp)
  have "u < OS_N_TCBS \<and> task_ok q (OSTCBTbl k' u) (q \<in> ready k') (waits q k')" if q: "tcb_prio q k' = Some u" for q u
  proof (cases "q = p")
    case True
    then show ?thesis using q tp t(1) new pw by (simp add: wt task_ok_new)
  next
    case False
    then have "tcb_prio q k = Some u" "u \<noteq> t" using q tp t(2) by auto
    moreover obtain x where "OSTCBTbl k' u = (OSTCBTbl k u)\<lparr>OSTCBPrev := x\<rparr>" using old calculation(2) by blast
    ultimately show ?thesis using K(5) False by (simp add: wt r(2))
  qed
  then have "kernel_pre k'"
    using K r ev prio by (auto simp: kernel_pre_def wt live)
  with tp show ?thesis by blast
qed

lemma length_name_unset [simp]: "length (name_unset n) = length n"
  by (simp add: name_unset_def)

lemma OS_TCBInit_spec:
  assumes pre: "kernel_pre k" and p: "unat p \<le> OS_LOWEST_PRIO" "tcb_prio p k = None"
    and t: "OSTCBFreeList k = Some t" "t < OS_N_TCBS" "\<And>q. tcb_prio q k \<noteq> Some t"
    and h: "\<And>h. OSTCBList k = Some h \<Longrightarrow> h < OS_N_TCBS \<and> h \<noteq> t"
  shows "\<exists>k'. OS_TCBInit p ptos pbos id_num stk_size pext opt k = Some (OS_ERR_NONE, k') \<and> created p t k k'"
proof -
  have len: "length (OSTCBPrioTbl k) = 21" and rdy: "pt_ok (OSRdy k)" using pre by (simp_all add: kernel_pre_def)
  let ?b = "OSTCBTbl k t"
  define b where "b = ?b\<lparr>OSTCBStkPtr := ptos, OSTCBPrio := p, OSTCBStat := OS_STAT_RDY,
    OSTCBStatPend := OS_STAT_PEND_OK, OSTCBDly := 0, OSTCBExtPtr := pext,
    OSTCBStkSize := stk_size, OSTCBStkBottom := pbos, OSTCBOpt := opt, OSTCBId := id_num,
    OSTCBDelReq := OS_ERR_NONE, OSTCBY := prio_y p, OSTCBX := prio_x p, OSTCBBitY := bit8 (prio_y p),
    OSTCBBitX := bit8 (prio_x p), OSTCBEventPtr := None, OSTCBEventMultiPtr := None, OSTCBFlagNode := None,
    OSTCBMsg := VNull, OSTCBCtxSwCtr := 0, OSTCBCyclesStart := 0, OSTCBCyclesTot := 0, OSTCBStkBase := 0,
    OSTCBStkUsed := 0, OSTCBTaskName := name_unset (OSTCBTaskName ?b)\<rparr>"
  define b1 where "b1 = b\<lparr>OSTCBNext := OSTCBList k, OSTCBPrev := None\<rparr>"
  obtain r where r: "pt_ins p (OSRdy k) = Some r" "pt_ok r" "pt_members r = insert p (ready k)"
    using pt.ins [OF rdy, of p] p(1) by (auto simp: ready_def word_less_nat_alt)
  define T where "T = (let T = (OSTCBTbl k)(t := b1)
    in case OSTCBList k of None \<Rightarrow> T | Some h \<Rightarrow> T(h := (T h)\<lparr>OSTCBPrev := Some t\<rparr>))"
  define k' where "k' = k\<lparr>OSTCBFreeList := OSTCBNext ?b, OSTCBPrioTbl := (OSTCBPrioTbl k)[unat p := PTcb t],
    OSTCBTbl := T, OSTCBList := Some t, OSRdy := r, OSTaskCtr := OSTaskCtr k + 1\<rparr>"
  have bf: "pt_set (prio_y p) (bit8 (prio_x p)) (bit8 (prio_y p)) = pt_ins p" by (simp add: pt_ins_def)
  have res: "OS_TCBInit p ptos pbos id_num stk_size pext opt k = Some (OS_ERR_NONE, k')"
  proof (cases "OSTCBList k")
    case None
    then show ?thesis
      using t len p(1) r(1) bf
      by (simp add: OS_TCBInit_def tcb_at_def set_tcb_def Let_def k'_def T_def b1_def flip: b_def)
  next
    case (Some hd)
    then show ?thesis
      using t len p(1) r(1) bf h [OF Some]
      by (simp add: OS_TCBInit_def tcb_at_def set_tcb_def Let_def k'_def T_def b1_def flip: b_def)
  qed
  have T1: "T t = b1"
    using h by (cases "OSTCBList k") (auto simp: T_def)
  have T2: "\<exists>x. T u = (OSTCBTbl k u)\<lparr>OSTCBPrev := x\<rparr>" if "u \<noteq> t" for u
  proof (cases "OSTCBList k = Some u")
    case True
    then show ?thesis using that by (auto simp: T_def)
  next
    case False
    then have "T u = (OSTCBTbl k u)\<lparr>OSTCBPrev := OSTCBPrev (OSTCBTbl k u)\<rparr>"
      using that by (auto simp: T_def Let_def split: option.splits)
    then show ?thesis by blast
  qed
  have new: "new_tcb p b1" by (simp add: b1_def b_def new_tcb_def tcb_fields_def)
  have main: "kernel_pre k' \<and> (\<forall>q. tcb_prio q k' = (if q = p then Some t else tcb_prio q k))"
    using new T1 T2 r by (intro kernel_pre_created [OF pre p t(2,3)]) (simp_all add: k'_def ready_def)
  moreover have "OSTCBNext (T u) = OSTCBNext (OSTCBTbl k u) \<and> OSTCBTaskName (T u) = OSTCBTaskName (OSTCBTbl k u)"
    if "u \<noteq> t" for u using T2 [OF that] by auto
  moreover have "prio_at q k' = prio_at q k" if "q \<noteq> p" for q
  proof -
    have "unat p \<noteq> unat q" using that by (simp add: word_unat_eq_iff)
    then show ?thesis by (simp add: prio_at_def k'_def)
  qed
  moreover have "new_tcb q (T u)" if "u \<noteq> t" "new_tcb q (OSTCBTbl k u)" for u q
    using T2 [OF that(1)] that(2) by auto
  ultimately have "created p t k k'"
    using T1 r(3) new unfolding created_def by (simp add: k'_def ready_def) (simp add: b1_def b_def)
  with res show ?thesis by blast
qed

lemma kernel_pre_set_prio_reserved:
  assumes pre: "kernel_pre k" and p: "prio_at p k = Some PNull"
  shows "kernel_pre (set_prio p PReserved k\<lparr>OSRam := m\<rparr>)" "tcb_prio q (set_prio p PReserved k\<lparr>OSRam := m\<rparr>) = tcb_prio q k"
proof -
  have bound: "unat p < length (OSTCBPrioTbl k)" "OSTCBPrioTbl k ! unat p = PNull"
    using p by (auto simp: prio_at_def split: if_splits)
  show tp: "tcb_prio q (set_prio p PReserved k\<lparr>OSRam := m\<rparr>) = tcb_prio q k" for q
    using bound by (subst tcb_prio_update [of _ k p PReserved]) (auto simp: set_prio_def tcb_prio_def)
  have "waiters e (set_prio p PReserved k\<lparr>OSRam := m\<rparr>) = waiters e k" "waits q (set_prio p PReserved k\<lparr>OSRam := m\<rparr>) = waits q k"
    "ready (set_prio p PReserved k\<lparr>OSRam := m\<rparr>) = ready k" for e q
    by (simp_all add: waiters_def waits_def ready_def set_prio_def)
  with pre tp show "kernel_pre (set_prio p PReserved k\<lparr>OSRam := m\<rparr>)"
    by (simp add: kernel_pre_def live_def) (simp add: set_prio_def)
qed

lemma OS_TaskStkClr_eq: "\<exists>m. OS_TaskStkClr pbos stk_size opt k = k\<lparr>OSRam := m\<rparr>"
proof -
  have "k = k\<lparr>OSRam := OSRam k\<rparr>" by simp
  then show ?thesis unfolding OS_TaskStkClr_def by metis
qed

lemma OSTaskStkInit_eq: "\<exists>psp m. OSTaskStkInit port task p_arg ptos k = (psp, k\<lparr>OSRam := m\<rparr>)"
  unfolding OSTaskStkInit_def Let_def by blast

lemma OSTaskCreateExt_tcb:
  assumes pre: "kernel_pre k" and p: "unat p \<le> OS_LOWEST_PRIO" "prio_at p k = Some PNull"
    and t: "OSTCBFreeList k = Some t" "t < OS_N_TCBS" "\<And>q. tcb_prio q k \<noteq> Some t"
    and h: "\<And>h. OSTCBList k = Some h \<Longrightarrow> h < OS_N_TCBS \<and> h \<noteq> t"
    and lev: "OSIntNesting k = 0"
  shows "\<exists>k'. OSTaskCreateExt port task p_arg ptos p id_num pbos stk_size pext opt k =
      (if OSRunning k' then do { k'' \<leftarrow> OS_Sched k'; Some (OS_ERR_NONE, k'') } else Some (OS_ERR_NONE, k')) \<and> created p t k k'"
proof -
  obtain m0 where m0: "OS_TaskStkClr pbos stk_size opt (set_prio p PReserved k) = set_prio p PReserved k\<lparr>OSRam := m0\<rparr>"
    using OS_TaskStkClr_eq by blast
  obtain psp m where "OSTaskStkInit port task p_arg ptos (set_prio p PReserved k\<lparr>OSRam := m0\<rparr>) =
      (psp, (set_prio p PReserved k\<lparr>OSRam := m0\<rparr>)\<lparr>OSRam := m\<rparr>)" using OSTaskStkInit_eq by blast
  then have pm: "OSTaskStkInit port task p_arg ptos (OS_TaskStkClr pbos stk_size opt (set_prio p PReserved k)) =
      (psp, set_prio p PReserved k\<lparr>OSRam := m\<rparr>)" by (simp add: m0)
  let ?k = "set_prio p PReserved k\<lparr>OSRam := m\<rparr>"
  note R = kernel_pre_set_prio_reserved [OF pre p(2), where m = m]
  have "tcb_prio p k = None" using p(2) by (auto simp: prio_at_def tcb_prio_def split: if_splits)
  then obtain k' where k': "OS_TCBInit p psp pbos id_num stk_size pext opt ?k = Some (OS_ERR_NONE, k')" "created p t ?k k'"
    using OS_TCBInit_spec [OF R(1) p(1), of t psp pbos id_num stk_size pext opt] t h R(2) by (auto simp: set_prio_def)
  have fields: "OSTCBTbl ?k = OSTCBTbl k" "OSTCBList ?k = OSTCBList k" "ready ?k = ready k" "OSEventTbl ?k = OSEventTbl k"
    "OSRunning ?k = OSRunning k" "OSIntNesting ?k = OSIntNesting k" "OSLockNesting ?k = OSLockNesting k"
    "OSEventFreeList ?k = OSEventFreeList k" "OSQTbl ?k = OSQTbl k" "OSQFreeList ?k = OSQFreeList k"
    "OSTCBCur ?k = OSTCBCur k" "OSPrioCur ?k = OSPrioCur k"
    by (simp_all add: set_prio_def ready_def)
  have at: "prio_at q ?k = prio_at q k" if "q \<noteq> p" for q
  proof -
    have "unat p \<noteq> unat q" using that by (simp add: word_unat_eq_iff)
    then show ?thesis by (simp add: prio_at_def set_prio_def)
  qed
  have "created p t k k'" using k'(2) at unfolding created_def fields R(2) by simp
  moreover have "\<not> p > of_nat OS_LOWEST_PRIO" using p(1) by (simp add: word_less_nat_alt)
  ultimately show ?thesis
    using lev p(2) pm k'(1) by (intro exI [of _ k']) (simp add: OSTaskCreateExt_def create_end_def)
qed

lemma OSTaskCreateExt_init:
  assumes "kernel_pre k" "unat p \<le> OS_LOWEST_PRIO" "prio_at p k = Some PNull" "OSTCBFreeList k = Some t" "t < OS_N_TCBS"
    "\<And>q. tcb_prio q k \<noteq> Some t" "\<And>h. OSTCBList k = Some h \<Longrightarrow> h < OS_N_TCBS \<and> h \<noteq> t" "\<not> OSRunning k" "OSIntNesting k = 0"
  shows "\<exists>k'. OSTaskCreateExt port task p_arg ptos p id_num pbos stk_size pext opt k = Some (OS_ERR_NONE, k') \<and> created p t k k'"
proof -
  obtain k' where "OSTaskCreateExt port task p_arg ptos p id_num pbos stk_size pext opt k =
      (if OSRunning k' then do { k'' \<leftarrow> OS_Sched k'; Some (OS_ERR_NONE, k'') } else Some (OS_ERR_NONE, k'))" "created p t k k'"
    using OSTaskCreateExt_tcb [OF assms(1-7,9)] by blast
  then show ?thesis using assms(8) by (auto simp: created_def)
qed

section \<open>The task lists\<close>

definition raw_lists :: "kernel \<Rightarrow> nat list \<Rightarrow> nat list \<Rightarrow> bool" where
  "raw_lists k ts fs \<longleftrightarrow> chain (tcb_next k) (OSTCBList k) ts \<and> chain (tcb_next k) (OSTCBFreeList k) fs \<and>
     distinct (ts @ fs) \<and> set (ts @ fs) \<subseteq> {..<OS_N_TCBS} \<and>
     (\<forall>t. t \<in> set ts \<longleftrightarrow> (\<exists>p. tcb_prio p k = Some t))"

lemma raw_lists_created:
  assumes c: "created p t k k'" and l: "raw_lists k ts (t # fs)" and p: "tcb_prio p k = None"
  shows "raw_lists k' (t # ts) fs"
proof -
  have nx: "tcb_next k' u = tcb_next k u" if "u \<noteq> t" for u
    using c that by (simp add: created_def tcb_next_def)
  have d: "t \<notin> set ts" "t \<notin> set fs" using l by (auto simp: raw_lists_def)
  have "chain (tcb_next k') (OSTCBList k) ts \<longleftrightarrow> chain (tcb_next k) (OSTCBList k) ts"
    using d by (intro chain_cong nx) auto
  moreover have "chain (tcb_next k') (tcb_next k t) fs \<longleftrightarrow> chain (tcb_next k) (tcb_next k t) fs"
    using d by (intro chain_cong nx) auto
  moreover have "OSTCBList k' = Some t" "tcb_next k' t = OSTCBList k" "OSTCBFreeList k' = tcb_next k t"
    using c by (simp_all add: created_def tcb_next_def)
  moreover have "x \<in> set (t # ts) \<longleftrightarrow> (\<exists>q. tcb_prio q k' = Some x)" for x
  proof -
    have tp: "tcb_prio q k' = (if q = p then Some t else tcb_prio q k)" for q using c by (simp add: created_def)
    have "(\<exists>q. tcb_prio q k' = Some x) \<longleftrightarrow> x = t \<or> (\<exists>q. tcb_prio q k = Some x)"
      unfolding tp using p by (metis option.distinct(1) option.inject)
    then show ?thesis using l by (simp add: raw_lists_def)
  qed
  ultimately show ?thesis
    using l by (auto simp: raw_lists_def)
qed

lemma raw_lists_task_lists:
  assumes "raw_lists k (us @ [i]) fs" "tcb_prio OS_TASK_IDLE_PRIO k = Some i"
    "\<And>p q t. tcb_prio p k = Some t \<Longrightarrow> tcb_prio q k = Some t \<Longrightarrow> p = q"
  shows "task_lists k us i fs"
proof -
  have "t \<in> set us \<longleftrightarrow> (\<exists>p. p \<noteq> OS_TASK_IDLE_PRIO \<and> tcb_prio p k = Some t)" for t
  proof -
    have "t \<in> set us \<longleftrightarrow> t \<in> set (us @ [i]) \<and> t \<noteq> i" using assms(1) by (auto simp: raw_lists_def)
    also have "\<dots> \<longleftrightarrow> (\<exists>p. tcb_prio p k = Some t) \<and> t \<noteq> i" using assms(1) by (simp only: raw_lists_def)
    also have "\<dots> \<longleftrightarrow> (\<exists>p. p \<noteq> OS_TASK_IDLE_PRIO \<and> tcb_prio p k = Some t)" proof
      assume "(\<exists>p. tcb_prio p k = Some t) \<and> t \<noteq> i"
      then obtain p where p: "tcb_prio p k = Some t" "t \<noteq> i" by blast
      then have "p \<noteq> OS_TASK_IDLE_PRIO" using assms(2) by auto
      with p show "\<exists>p. p \<noteq> OS_TASK_IDLE_PRIO \<and> tcb_prio p k = Some t" by blast
    next
      assume "\<exists>p. p \<noteq> OS_TASK_IDLE_PRIO \<and> tcb_prio p k = Some t"
      then show "(\<exists>p. tcb_prio p k = Some t) \<and> t \<noteq> i" using assms(2,3) by blast
    qed
    finally show ?thesis .
  qed
  with assms show ?thesis by (simp add: task_lists_def raw_lists_def)
qed

lemma tcb_prio_inj:
  assumes "kernel_pre k" "tcb_prio p k = Some t" "tcb_prio q k = Some t"
  shows "p = q"
proof -
  have "task_ok p (OSTCBTbl k t) (p \<in> ready k) (waits p k)" "task_ok q (OSTCBTbl k t) (q \<in> ready k) (waits q k)"
    using assms by (simp_all add: kernel_pre_def)
  then show ?thesis by (auto simp: task_ok_def tcb_fields_def)
qed

section \<open>Names\<close>

lemma str_len_app: "0 \<notin> set s \<Longrightarrow> str_len n (s @ 0 # rest) = Some (n + of_nat (length s))"
  by (induction s arbitrary: n) (auto simp: add.assoc)

lemma str_copy_app:
  "0 \<notin> set s \<Longrightarrow> length s < length d \<Longrightarrow>
     str_copy n d (s @ 0 # rest) = Some (n + of_nat (length s), s @ 0 # drop (Suc (length s)) d)"
proof (induction s arbitrary: n d)
  case Nil
  then show ?case by (cases d) simp_all
next
  case (Cons b s)
  then show ?case by (cases d) (auto simp: add.assoc)
qed

lemma task_ok_name [simp]: "task_ok p (b\<lparr>OSTCBTaskName := x\<rparr>) r ws = task_ok p b r ws"
  by (simp add: task_ok_def tcb_fields_def event_bound_def linked_events_def suspended_def pending_def
      split: option.splits)

lemma OSTaskNameSet_spec:
  assumes ok: "kernel_ok k" and t: "tcb_prio p k = Some t" and p: "p \<le> of_nat OS_LOWEST_PRIO"
    and s: "0 \<notin> set s" "length s < OS_TASK_NAME_SIZE" and len: "length (OSTCBTaskName (OSTCBTbl k t)) = OS_TASK_NAME_SIZE"
    and int: "OSIntNesting k = 0"
  shows "\<exists>k'. OSTaskNameSet p (Some (s @ 0 # rest)) True k = Some (Some OS_ERR_NONE, k') \<and> kernel_ok k' \<and>
     touches p t k k' \<and> ready k' = ready k \<and> OSEventTbl k' = OSEventTbl k \<and> take (Suc (length s)) (OSTCBTaskName (OSTCBTbl k' t)) = s @ [0] \<and>
     length (OSTCBTaskName (OSTCBTbl k' t)) = OS_TASK_NAME_SIZE \<and>
     (new_tcb p (OSTCBTbl k t) \<longrightarrow> new_tcb p (OSTCBTbl k' t))"
proof -
  have T: "t < OS_N_TCBS" "task_ok p (OSTCBTbl k t) (p \<in> ready k) (waits p k)"
    using kernel_okD(7) [OF ok t] by simp_all
  have self: "p \<noteq> OS_PRIO_SELF" "\<not> p > of_nat OS_LOWEST_PRIO" using p by (auto simp: word_le_nat_alt word_less_nat_alt)
  have at: "prio_at p k = Some (PTcb t)" using t by (auto simp: tcb_prio_def prio_at_def split: if_splits prio_entry.splits)
  have n: "\<not> (of_nat (length s) :: INT8U) > 31"
  proof -
    have "unat (of_nat (length s) :: INT8U) = length s" using s(2) by (intro unat_of_nat_small) simp
    then show ?thesis using s(2) by (simp add: word_less_nat_alt)
  qed
  define buf where "buf = s @ 0 # drop (Suc (length s)) (OSTCBTaskName (OSTCBTbl k t))"
  define k' where "k' = set_tcb t ((OSTCBTbl k t)\<lparr>OSTCBTaskName := buf\<rparr>) k"
  have "OSTaskNameSet p (Some (s @ 0 # rest)) True k = Some (Some OS_ERR_NONE, k')"
    using self at T(1) int n s len
    by (simp add: OSTaskNameSet_def self_prio_def OS_StrLen_def OS_StrCopy_def str_len_app str_copy_app k'_def buf_def)
  moreover have touch: "touches p t k k'"
    unfolding k'_def by (intro touches_set_tcb) (simp add: same_task_def)
  moreover have "kernel_ok k'"
    using T kernel_okD(6) [OF ok] by (intro kernel_ok_touches [OF ok touch t]) (simp_all add: k'_def)
  ultimately show ?thesis using s(2) len by (auto simp: k'_def buf_def)
qed

section \<open>\<open>OSInit\<close> and \<open>OSStart\<close>\<close>

definition init_tables :: "kernel \<Rightarrow> kernel" where
  "init_tables k = OS_QInit (OS_MemInit (OS_FlagInit (OS_InitEventList (OS_InitTCBList (OS_InitRdyList (OS_InitMisc k))))))"

lemma init_tables_facts:
  fixes k k0 :: kernel
  assumes k0_def: "k0 = init_tables k"
  shows "kernel_pre k0" "ready k0 = {}" "tcb_prio p k0 = None" "raw_lists k0 [] [0..<OS_N_TCBS]"
    "OSTCBPrioTbl k0 = replicate (OS_LOWEST_PRIO + 1) PNull"
    "\<not> OSRunning k0" "OSIntNesting k0 = 0" "OSLockNesting k0 = 0" "OSTCBList k0 = None" "OSTCBFreeList k0 = Some 0"
    "OSEventTbl k0 = OSEventTbl (OS_InitEventList k)" "waiters e k0 = {}"
    "OSEventFreeList k0 = Some 0" "OSQTbl k0 = OSQTbl (OS_QInit k)" "OSQFreeList k0 = Some 0"
    "t < OS_N_TCBS \<Longrightarrow> length (OSTCBTaskName (OSTCBTbl k0 t)) = OS_TASK_NAME_SIZE"
    "t < OS_N_TCBS \<Longrightarrow> tcb_next k0 t = (if t < OS_N_TCBS - 1 then Some (Suc t) else None)"
proof -
  obtain F where F: "OS_FlagInit (OS_InitEventList (OS_InitTCBList (OS_InitRdyList (OS_InitMisc k)))) =
      OS_InitEventList (OS_InitTCBList (OS_InitRdyList (OS_InitMisc k)))\<lparr>OSFlagTbl := F, OSFlagFreeList := Some 0\<rparr>"
    using OS_FlagInit_frame by blast
  then have eq: "k0 = OS_QInit (OS_MemInit (OS_InitEventList (OS_InitTCBList (OS_InitRdyList (OS_InitMisc k)))\<lparr>OSFlagTbl := F,
      OSFlagFreeList := Some 0\<rparr>))" by (simp only: k0_def init_tables_def)
  note defs = eq OS_QInit_eq OS_MemInit_eq OS_InitEventList_eq OS_InitTCBList_eq OS_InitRdyList_def OS_InitMisc_def
  show prio: "OSTCBPrioTbl k0 = replicate (OS_LOWEST_PRIO + 1) PNull" and "\<not> OSRunning k0" "OSIntNesting k0 = 0"
    "OSLockNesting k0 = 0" "OSTCBList k0 = None" "OSTCBFreeList k0 = Some 0"
    "OSEventTbl k0 = OSEventTbl (OS_InitEventList k)"
    "OSEventFreeList k0 = Some 0" "OSQTbl k0 = OSQTbl (OS_QInit k)" "OSQFreeList k0 = Some 0"
    by (simp_all add: defs)
  show tp: "tcb_prio p k0 = None" for p
    by (simp add: tcb_prio_def prio)
  have ev: "OSEventWait (OSEventTbl k0 e) = pt_empty" for e by (simp add: defs ecb_zero_def)
  have rdy: "OSRdy k0 = pt_empty" by (simp add: defs)
  show w: "waiters e k0 = {}" for e using pt_empty_spec by (simp add: waiters_def ev)
  show r: "ready k0 = {}" using pt_empty_spec by (simp add: ready_def rdy)
  show "kernel_pre k0" using pt_empty_spec by (simp add: kernel_pre_def prio tp ev rdy w r)
  show "length (OSTCBTaskName (OSTCBTbl k0 t)) = OS_TASK_NAME_SIZE" if "t < OS_N_TCBS" for t
    using that by (simp add: defs tcb_zero_def)
  show nx: "tcb_next k0 t = (if t < OS_N_TCBS - 1 then Some (Suc t) else None)" if "t < OS_N_TCBS" for t
    using that by (simp add: defs tcb_next_def)
  have "chain (tcb_next k0) (Some (12 - Suc n)) [12 - Suc n..<12]" if "n < 12" for n
    using that
  proof (induction n)
    case 0
    then show ?case by (simp add: nx)
  next
    case (Suc n)
    define i where "i = 10 - n"
    have i: "12 - Suc n = Suc i" "12 - Suc (Suc n) = i" "i < 11" using Suc.prems by (simp_all add: i_def)
    have "chain (tcb_next k0) (Some (Suc i)) [Suc i..<12]" using Suc i(1) by (simp only: Suc_lessD)
    moreover have "tcb_next k0 i = Some (Suc i)" "[i..<12] = i # [Suc i..<12]"
      using i(3) by (simp_all add: nx upt_conv_Cons)
    ultimately show ?case unfolding i(2) by (simp only: chain.simps simp_thms)
  qed
  from this [of 11] have "chain (tcb_next k0) (Some 0) [0..<12]" by simp
  then show "raw_lists k0 [] [0..<OS_N_TCBS]"
    by (auto simp: raw_lists_def tp) (simp_all add: defs)
qed

lemma prio_at_same_kernel: "same_kernel k k' \<Longrightarrow> prio_at q k' = prio_at q k"
  by (simp add: prio_at_def same_kernel_kernel)

lemma OS_InitTask_spec:
  assumes pre: "kernel_pre k" and at: "prio_at p k = Some PNull" and p: "p \<le> of_nat OS_LOWEST_PRIO"
    and ok: "p = OS_TASK_IDLE_PRIO \<or> OS_TASK_IDLE_PRIO \<in> ready k"
    and l: "raw_lists k ts (t # fs)" and idle: "\<not> OSRunning k" "OSIntNesting k = 0"
    and len: "\<And>t. t < OS_N_TCBS \<Longrightarrow> length (OSTCBTaskName (OSTCBTbl k t)) = OS_TASK_NAME_SIZE"
    and s: "0 \<notin> set s" "length s < OS_TASK_NAME_SIZE"
  shows "\<exists>k1 k'. OSTaskCreateExt port task p_arg ptos p id_num pbos stk_size pext opt k = Some (OS_ERR_NONE, k1) \<and>
     OSTaskNameSet p (Some (s @ [0])) True k1 = Some (Some OS_ERR_NONE, k') \<and>
     kernel_ok k' \<and> new_tcb p (OSTCBTbl k' t) \<and>
     (\<forall>u q. u \<noteq> t \<longrightarrow> new_tcb q (OSTCBTbl k u) \<longrightarrow> new_tcb q (OSTCBTbl k' u)) \<and>
     ready k' = insert p (ready k) \<and> raw_lists k' (t # ts) fs \<and>
     (\<forall>q. tcb_prio q k' = (if q = p then Some t else tcb_prio q k)) \<and> (\<forall>q. q \<noteq> p \<longrightarrow> prio_at q k' = prio_at q k) \<and>
     (\<forall>t < OS_N_TCBS. length (OSTCBTaskName (OSTCBTbl k' t)) = OS_TASK_NAME_SIZE) \<and>
     OSEventTbl k' = OSEventTbl k \<and> OSEventFreeList k' = OSEventFreeList k \<and> OSQTbl k' = OSQTbl k \<and> OSQFreeList k' = OSQFreeList k \<and>
     \<not> OSRunning k' \<and> OSIntNesting k' = 0 \<and> OSLockNesting k' = OSLockNesting k"
proof -
  have L: "OSTCBFreeList k = Some t" "t < OS_N_TCBS" "t \<notin> set ts" "\<And>q. tcb_prio q k \<noteq> Some t"
    using l by (auto simp: raw_lists_def)
  have hd: "h < OS_N_TCBS \<and> h \<noteq> t" if "OSTCBList k = Some h" for h
    using l that by (cases ts) (auto simp: raw_lists_def)
  have p20: "unat p \<le> OS_LOWEST_PRIO" using p by (simp add: word_le_nat_alt)
  obtain k1 where k1: "OSTaskCreateExt port task p_arg ptos p id_num pbos stk_size pext opt k = Some (OS_ERR_NONE, k1)"
    "created p t k k1"
    using OSTaskCreateExt_init [OF pre p20 at L(1,2,4) hd idle] by blast
  have C: "kernel_ok k1" "ready k1 = insert p (ready k)" "tcb_prio p k1 = Some t" "\<not> OSRunning k1" "OSIntNesting k1 = 0"
    "length (OSTCBTaskName (OSTCBTbl k1 u)) = length (OSTCBTaskName (OSTCBTbl k u))" for u
    using k1(2) ok idle by (cases "u = t"; auto simp: created_def kernel_ok_def)+
  have "tcb_prio p k = None" using at by (auto simp: prio_at_def tcb_prio_def split: if_splits)
  then have raw1: "raw_lists k1 (t # ts) fs" using raw_lists_created [OF k1(2) l] by simp
  obtain k' where k': "OSTaskNameSet p (Some (s @ [0])) True k1 = Some (Some OS_ERR_NONE, k')" "kernel_ok k'"
     "touches p t k1 k'" "ready k' = ready k1" "OSEventTbl k' = OSEventTbl k1"
     "length (OSTCBTaskName (OSTCBTbl k' t)) = OS_TASK_NAME_SIZE"
     "new_tcb p (OSTCBTbl k1 t) \<longrightarrow> new_tcb p (OSTCBTbl k' t)"
    using OSTaskNameSet_spec [OF C(1,3) p s _ C(5), of "[]"] C(6) len [OF L(2)] by auto
  have new: "new_tcb p (OSTCBTbl k' t)" "u \<noteq> t \<Longrightarrow> new_tcb q (OSTCBTbl k u) \<Longrightarrow> new_tcb q (OSTCBTbl k' u)" for u q
    using k1(2) k'(7) touches_other(1) [OF k'(3)] by (simp_all add: created_def)
  have sk: "same_kernel k1 k'" using k'(3) by (rule touches_same_kernel)
  have nx: "tcb_next k' = tcb_next k1" by (rule ext) (simp add: tcb_next_def same_kernel_kernel [OF sk])
  have "raw_lists k' (t # ts) fs" using raw1 by (simp add: raw_lists_def nx same_kernel_kernel [OF sk])
  moreover have "tcb_prio q k' = (if q = p then Some t else tcb_prio q k)" "q \<noteq> p \<Longrightarrow> prio_at q k' = prio_at q k" for q
    using k1(2) by (simp_all add: created_def same_kernel_kernel [OF sk] prio_at_same_kernel [OF sk])
  moreover have "length (OSTCBTaskName (OSTCBTbl k' u)) = OS_TASK_NAME_SIZE" if "u < OS_N_TCBS" for u
    using k'(6) touches_other(1) [OF k'(3), of u] C(6) len [OF that] by (cases "u = t") simp_all
  ultimately show ?thesis
    using k1 k' C(2) idle new by (intro exI [of _ k1] exI [of _ k']) (auto simp: created_def same_kernel_kernel [OF sk])
qed

lemma sys_names:
  "c_string ''uC/OS-II Idle'' = butlast (c_string ''uC/OS-II Idle'') @ [0]" "0 \<notin> set (butlast (c_string ''uC/OS-II Idle''))"
  "length (butlast (c_string ''uC/OS-II Idle'')) < OS_TASK_NAME_SIZE"
  "c_string ''uC/OS-II Stat'' = butlast (c_string ''uC/OS-II Stat'') @ [0]" "0 \<notin> set (butlast (c_string ''uC/OS-II Stat''))"
  "length (butlast (c_string ''uC/OS-II Stat'')) < OS_TASK_NAME_SIZE"
  by (simp_all add: c_string_def)

text \<open>
  From any contents of memory \<open>OSInit\<close> makes a kernel with the idle and the statistics task ready,
  no event in use and no other task.
\<close>

definition fresh_kernel :: "kernel \<Rightarrow> bool" where
  "fresh_kernel k \<longleftrightarrow> kernel_ok k \<and> task_lists k [1] 0 [2..<OS_N_TCBS] \<and>
     ready k = {OS_TASK_IDLE_PRIO, OS_TASK_STAT_PRIO} \<and> live k = {OS_TASK_IDLE_PRIO, OS_TASK_STAT_PRIO} \<and>
     new_tcb OS_TASK_STAT_PRIO (OSTCBTbl k 1) \<and> new_tcb OS_TASK_IDLE_PRIO (OSTCBTbl k 0) \<and>
     (\<forall>e. waiters e k = {}) \<and> \<not> OSRunning k \<and> OSIntNesting k = 0 \<and> OSLockNesting k = 0"

lemma OSInit_spec: "\<exists>k'. OSInit port sys k = Some k' \<and> fresh_kernel k' \<and> OSEventTbl k' = OSEventTbl (OS_InitEventList k) \<and>
    OSEventFreeList k' = Some 0 \<and> OSQTbl k' = OSQTbl (OS_QInit k) \<and> OSQFreeList k' = Some 0 \<and>
    (\<forall>q. q < OS_TASK_STAT_PRIO \<longrightarrow> prio_at q k' = Some PNull)"
proof -
  define k0 where "k0 = init_tables k"
  note F = init_tables_facts [OF k0_def]
  have at: "prio_at OS_TASK_IDLE_PRIO k0 = Some PNull" "prio_at OS_TASK_STAT_PRIO k0 = Some PNull"
    "\<forall>q. q < OS_TASK_STAT_PRIO \<longrightarrow> prio_at q k0 = Some PNull"
    by (simp_all add: prio_at_def F(5) word_less_nat_alt)
  have up: "[0..<OS_N_TCBS] = 0 # 1 # [2..<OS_N_TCBS]" by (simp add: upt_rec_numeral upt_conv_Cons)
  obtain k1 where k1: "OS_InitTaskIdle port sys k0 = Some k1" "kernel_ok k1" "ready k1 = {OS_TASK_IDLE_PRIO}"
    "raw_lists k1 [0] (1 # [2..<OS_N_TCBS])" "\<forall>q. tcb_prio q k1 = (if q = OS_TASK_IDLE_PRIO then Some 0 else None)"
    "prio_at OS_TASK_STAT_PRIO k1 = Some PNull"
    "\<forall>t < OS_N_TCBS. length (OSTCBTaskName (OSTCBTbl k1 t)) = OS_TASK_NAME_SIZE" "OSEventTbl k1 = OSEventTbl k0"
    "OSEventFreeList k1 = OSEventFreeList k0" "OSQTbl k1 = OSQTbl k0" "OSQFreeList k1 = OSQFreeList k0"
    "\<not> OSRunning k1" "OSIntNesting k1 = 0" "OSLockNesting k1 = 0" "new_tcb OS_TASK_IDLE_PRIO (OSTCBTbl k1 0)"
    "\<forall>q. q \<noteq> OS_TASK_IDLE_PRIO \<longrightarrow> prio_at q k1 = prio_at q k0"
    using OS_InitTask_spec [OF F(1) at(1) _ disjI1 [OF refl], of "[]" 0 "1 # [2..<OS_N_TCBS]"
        "butlast (c_string ''uC/OS-II Idle'')" port "idle_task sys" 0 "idle_stk sys + 4 * (OS_TASK_IDLE_STK_SIZE - 1)"
        OS_TASK_IDLE_ID "idle_stk sys" OS_TASK_IDLE_STK_SIZE VNull "OS_TASK_OPT_STK_CHK OR OS_TASK_OPT_STK_CLR"]
      F sys_names(1-3) at(2) unfolding up OS_InitTaskIdle_def by auto
  have pre1: "kernel_pre k1" "OS_TASK_IDLE_PRIO \<in> ready k1" using k1(2,3) by (simp_all add: kernel_ok_def)
  obtain k2 where k2: "OS_InitTaskStat port sys k1 = Some k2" "kernel_ok k2"
    "ready k2 = {OS_TASK_STAT_PRIO, OS_TASK_IDLE_PRIO}" "raw_lists k2 [1, 0] [2..<OS_N_TCBS]"
    "\<forall>q. tcb_prio q k2 = (if q = OS_TASK_STAT_PRIO then Some 1 else tcb_prio q k1)"
    "OSEventTbl k2 = OSEventTbl k1" "OSEventFreeList k2 = OSEventFreeList k1" "OSQTbl k2 = OSQTbl k1"
    "OSQFreeList k2 = OSQFreeList k1" "\<not> OSRunning k2" "OSIntNesting k2 = 0" "OSLockNesting k2 = 0"
    "new_tcb OS_TASK_STAT_PRIO (OSTCBTbl k2 1)" "new_tcb OS_TASK_IDLE_PRIO (OSTCBTbl k2 0)"
    "\<forall>q. q \<noteq> OS_TASK_STAT_PRIO \<longrightarrow> prio_at q k2 = prio_at q k1"
    using OS_InitTask_spec [OF pre1(1) k1(6) _ disjI2 [OF pre1(2)] k1(4), of
        "butlast (c_string ''uC/OS-II Stat'')" port "stat_task sys" 0 "stat_stk sys + 4 * (OS_TASK_STAT_STK_SIZE - 1)"
        OS_TASK_STAT_ID "stat_stk sys" OS_TASK_STAT_STK_SIZE VNull "OS_TASK_OPT_STK_CHK OR OS_TASK_OPT_STK_CLR"]
      k1 sys_names(4-6) unfolding OS_InitTaskStat_def by auto
  have tp: "tcb_prio q k2 = (if q = OS_TASK_STAT_PRIO then Some 1 else if q = OS_TASK_IDLE_PRIO then Some 0 else None)" for q
    using k1(5) k2(5) by simp
  have "kernel_pre k2" using k2(2) by (simp add: kernel_ok_def)
  then have "task_lists k2 [1] 0 [2..<OS_N_TCBS]"
    using k2(4) tp by (intro raw_lists_task_lists) (auto intro: tcb_prio_inj)
  moreover have "live k2 = {OS_TASK_IDLE_PRIO, OS_TASK_STAT_PRIO}" by (auto simp: live_def tp split: if_splits)
  moreover have "waiters e k2 = {}" for e using F(12) k1(8) k2(6) by (simp add: waiters_def)
  ultimately have "fresh_kernel k2" using k2 by (auto simp: fresh_kernel_def)
  moreover have "OSInit port sys k = Some k2"
    using k1(1) k2(1) by (simp add: OSInit_def init_tables_def k0_def)
  moreover have "prio_at q k2 = Some PNull" if "q < OS_TASK_STAT_PRIO" for q
  proof -
    have "q \<noteq> OS_TASK_STAT_PRIO" "q \<noteq> OS_TASK_IDLE_PRIO" using that by auto
    then show ?thesis using that at(3) k1(16) k2(15) by simp
  qed
  ultimately show ?thesis using F(11,13-15) k1(8-11) k2(6-9) by auto
qed

lemma OSStart_spec:
  assumes ok: "kernel_ok k" and l: "task_lists k us i fs" and off: "\<not> OSRunning k"
  shows "\<exists>k'. OSStart k = Some k' \<and> kernel_ok k' \<and> task_lists k' us i fs \<and> highest_runs k' \<and> OSRunning k' \<and>
     ready k' = ready k \<and> (\<forall>p. tcb_prio p k' = tcb_prio p k) \<and> OSTCBTbl k' = OSTCBTbl k \<and> OSEventTbl k' = OSEventTbl k \<and>
     OSEventFreeList k' = OSEventFreeList k \<and> OSQTbl k' = OSQTbl k \<and> OSQFreeList k' = OSQFreeList k \<and>
     OSIntNesting k' = OSIntNesting k \<and> OSLockNesting k' = OSLockNesting k \<and> OSTCBPrioTbl k' = OSTCBPrioTbl k"
proof -
  obtain t where t: "tcb_prio (Min (ready k)) k = Some t" using min_ready(2) [OF ok] by blast
  let ?k = "k\<lparr>OSPrioHighRdy := Min (ready k), OSPrioCur := Min (ready k), OSTCBHighRdy := Some t, OSTCBCur := Some t,
    OSRunning := True\<rparr>"
  have "OSStart k = Some ?k"
    using off t by (simp add: OSStart_def OS_SchedNew_spec [OF ok] OSStartHighRdy_def OSCtxSw_def kernel_frame)
  moreover have "task_lists ?k us i fs \<longleftrightarrow> task_lists k us i fs"
    by (rule task_lists_cong) (simp_all add: tcb_next_def kernel_frame)
  moreover have "highest_runs ?k" using t by (simp add: highest_runs_def sched_ok_def running_def kernel_frame)
  moreover have "kernel_ok ?k" using ok by (simp add: kernel_frame)
  ultimately show ?thesis using l by (simp add: kernel_frame)
qed

end
