(* ===== verification/Os_Pool.thy ===== *)
theory Os_Pool
  imports Os_Init
begin

text \<open>
  The lists of free control blocks (\<open>OSEventFreeList\<close>, \<open>OSQFreeList\<close>): what the services that
  create and delete objects rely on, stated as a locale, and that both lists provide it.
\<close>

section \<open>The interface\<close>

locale pool =
  fixes inv :: "'k \<Rightarrow> 'b list \<Rightarrow> bool"
    and alloc :: "'k \<Rightarrow> ('b option \<times> 'k) option"
    and release :: "'b \<Rightarrow> 'k \<Rightarrow> 'k option"
    and may_free :: "'b \<Rightarrow> 'k \<Rightarrow> bool"
  assumes distinct_free: "inv k bs \<Longrightarrow> distinct bs"
    and alloc_none: "inv k [] \<Longrightarrow> alloc k = Some (None, k)"
    and alloc_some: "inv k (b # bs) \<Longrightarrow> \<exists>k'. alloc k = Some (Some b, k') \<and> inv k' bs"
    and release: "inv k bs \<Longrightarrow> b \<notin> set bs \<Longrightarrow> may_free b k \<Longrightarrow> \<exists>k'. release b k = Some k' \<and> inv k' (b # bs)"
begin

lemma alloc_cases:
  assumes "inv k bs"
  obtains "bs = []" "alloc k = Some (None, k)"
  | b bs' k' where "bs = b # bs'" "alloc k = Some (Some b, k')" "inv k' bs'" "b \<notin> set bs'"
proof (cases bs)
  case Nil
  then show ?thesis using assms alloc_none that(1) by simp
next
  case (Cons b bs')
  then show ?thesis using alloc_some [of k b bs'] distinct_free [OF assms] assms that(2) by auto
qed

text \<open>A block that is given back is the next one handed out.\<close>

lemma release_alloc:
  assumes "inv k bs" "b \<notin> set bs" "may_free b k"
  shows "\<exists>k' k''. release b k = Some k' \<and> alloc k' = Some (Some b, k'') \<and> inv k'' bs"
  using release [OF assms] alloc_some by blast

end

section \<open>Event control blocks\<close>

definition ev_next :: "kernel \<Rightarrow> nat \<Rightarrow> nat option" where
  "ev_next k e = (case event_link (OSEventPtr (OSEventTbl k e)) of None \<Rightarrow> None | Some l \<Rightarrow> l)"

definition event_free_ok :: "kernel \<Rightarrow> nat \<Rightarrow> bool" where
  "event_free_ok k e \<longleftrightarrow> e < OS_MAX_EVENTS \<and> OSEventType (OSEventTbl k e) = OS_EVENT_TYPE_UNUSED \<and>
     waiters e k = {} \<and> event_link (OSEventPtr (OSEventTbl k e)) \<noteq> None"

definition events_ok :: "kernel \<Rightarrow> nat list \<Rightarrow> bool" where
  "events_ok k es \<longleftrightarrow> chain (ev_next k) (OSEventFreeList k) es \<and> distinct es \<and> (\<forall>e \<in> set es. event_free_ok k e)"

lemma events_ok_cong:
  assumes "OSEventFreeList k' = OSEventFreeList k" "\<And>e. e \<in> set es \<Longrightarrow> OSEventTbl k' e = OSEventTbl k e"
  shows "events_ok k' es \<longleftrightarrow> events_ok k es"
proof -
  have "chain (ev_next k') (OSEventFreeList k) es \<longleftrightarrow> chain (ev_next k) (OSEventFreeList k) es"
    using assms(2) by (intro chain_cong) (simp add: ev_next_def)
  moreover have "event_free_ok k' e \<longleftrightarrow> event_free_ok k e" if "e \<in> set es" for e
    using assms(2) [OF that] by (simp add: event_free_ok_def waiters_def)
  ultimately show ?thesis by (simp add: events_ok_def assms(1))
qed

lemma event_alloc_spec:
  assumes "events_ok k (e # es)"
  shows "\<exists>n. event_alloc k = Some (Some e, k\<lparr>OSEventFreeList := n\<rparr>) \<and> events_ok (k\<lparr>OSEventFreeList := n\<rparr>) es"
proof -
  have e: "OSEventFreeList k = Some e" "event_free_ok k e" "chain (ev_next k) (ev_next k e) es"
    using assms by (simp_all add: events_ok_def)
  then obtain n where n: "event_link (OSEventPtr (OSEventTbl k e)) = Some n" "ev_next k e = n"
    by (auto simp: event_free_ok_def ev_next_def)
  let ?k = "k\<lparr>OSEventFreeList := n\<rparr>"
  have "event_alloc k = Some (Some e, ?k)"
    using e n by (simp add: event_alloc_def event_free_ok_def)
  moreover have "events_ok ?k es"
  proof -
    have "chain (ev_next ?k) n es \<longleftrightarrow> chain (ev_next k) n es"
      by (intro chain_cong) (simp add: ev_next_def)
    then have "chain (ev_next ?k) (OSEventFreeList ?k) es" using e(3) n(2) by simp
    moreover have "event_free_ok ?k x" if "x \<in> set es" for x
      using assms that by (simp add: events_ok_def event_free_ok_def kernel_frame)
    ultimately show ?thesis using assms by (simp add: events_ok_def)
  qed
  ultimately show ?thesis by blast
qed

lemma event_free_spec:
  assumes "events_ok k es" "e \<notin> set es" "e < OS_MAX_EVENTS" "waiters e k = {}"
  shows "\<exists>k'. event_free e k = Some k' \<and> events_ok k' (e # es) \<and> kernel_ok k' = kernel_ok k \<and>
     ready k' = ready k \<and> (\<forall>x. waiters x k' = waiters x k) \<and> OSTCBTbl k' = OSTCBTbl k \<and> (\<forall>p. tcb_prio p k' = tcb_prio p k) \<and>
     OSTCBCur k' = OSTCBCur k \<and> OSPrioCur k' = OSPrioCur k \<and> OSIntNesting k' = OSIntNesting k \<and>
     OSLockNesting k' = OSLockNesting k \<and> OSRunning k' = OSRunning k \<and>
     (\<forall>x. x \<noteq> e \<longrightarrow> OSEventTbl k' x = OSEventTbl k x) \<and> OSEventType (OSEventTbl k' e) = OS_EVENT_TYPE_UNUSED"
proof -
  let ?ev = "(OSEventTbl k e)\<lparr>OSEventName := name_unset (OSEventName (OSEventTbl k e)), OSEventType := OS_EVENT_TYPE_UNUSED,
     OSEventPtr := link_of (OSEventFreeList k), OSEventCnt := 0\<rparr>"
  define k' where "k' = set_ecb e ?ev k\<lparr>OSEventFreeList := Some e\<rparr>"
  have w: "waiters x k' = waiters x k" "ready k' = ready k" for x
    by (simp_all add: k'_def kernel_frame view_set_ecb)
  have link: "event_link (link_of l) = Some l" for l by (simp add: link_of_def split: option.splits)
  have "chain (ev_next k') (OSEventFreeList k) es \<longleftrightarrow> chain (ev_next k) (OSEventFreeList k) es"
    using assms(2) by (intro chain_cong) (auto simp: ev_next_def k'_def set_ecb_def)
  moreover have "ev_next k' e = OSEventFreeList k" by (simp add: ev_next_def k'_def set_ecb_def link)
  moreover have "event_free_ok k' x" if "x = e \<or> event_free_ok k x" for x
    using that assms(3,4) by (auto simp: event_free_ok_def w) (auto simp: k'_def set_ecb_def link)
  ultimately have "events_ok k' (e # es)"
    using assms(1,2) by (auto simp: events_ok_def) (simp add: k'_def)
  moreover have "kernel_ok k' = kernel_ok k" by (simp add: k'_def kernel_frame kernel_ok_set_ecb)
  moreover have "event_free e k = Some k'" using assms(3) by (simp add: event_free_def k'_def Let_def)
  moreover have "tcb_prio p k' = tcb_prio p k" for p by (simp add: k'_def kernel_frame)
  ultimately show ?thesis using w by (simp add: k'_def set_ecb_def)
qed

interpretation ev: pool events_ok event_alloc event_free "\<lambda>e k. e < OS_MAX_EVENTS \<and> waiters e k = {}"
proof unfold_locales
  show "distinct es" if "events_ok k es" for k es using that by (simp add: events_ok_def)
  show "event_alloc k = Some (None, k)" if "events_ok k []" for k
    using that by (simp add: events_ok_def event_alloc_def)
  show "\<exists>k'. event_alloc k = Some (Some e, k') \<and> events_ok k' es" if "events_ok k (e # es)" for k e es
    using event_alloc_spec [OF that] by blast
  show "\<exists>k'. event_free e k = Some k' \<and> events_ok k' (e # es)"
    if "events_ok k es" "e \<notin> set es" "e < OS_MAX_EVENTS \<and> waiters e k = {}" for k es e
    using event_free_spec [OF that(1,2)] that(3) by blast
qed

lemma events_ok_init:
  assumes tbl: "OSEventTbl k' = OSEventTbl (OS_InitEventList k)" and free: "OSEventFreeList k' = Some 0"
  shows "events_ok k' [0..<OS_MAX_EVENTS]"
proof -
  have ev: "OSEventTbl k' e = ecb_zero\<lparr>OSEventPtr := (if e < OS_MAX_EVENTS - 1 then VEcb (Suc e) else VNull),
      OSEventName := name_unset (OSEventName ecb_zero)\<rparr>" if "e < OS_MAX_EVENTS" for e
    using that by (simp add: tbl OS_InitEventList_eq)
  have nx: "ev_next k' e = (if e < 59 then Some (Suc e) else None)" if "e < 60" for e
    using that by (simp add: ev_next_def ev)
  have "chain (ev_next k') (Some (60 - Suc n)) [60 - Suc n..<60]" if "n < 60" for n
    using that
  proof (induction n)
    case 0
    then show ?case by (simp add: nx)
  next
    case (Suc n)
    define i where "i = 58 - n"
    have i: "60 - Suc n = Suc i" "60 - Suc (Suc n) = i" "i < 59" using Suc.prems by (simp_all add: i_def)
    have "chain (ev_next k') (Some (Suc i)) [Suc i..<60]" using Suc i(1) by (simp only: Suc_lessD)
    moreover have "ev_next k' i = Some (Suc i)" "[i..<60] = i # [Suc i..<60]"
      using i(3) by (simp_all add: nx upt_conv_Cons)
    ultimately show ?case unfolding i(2) by (simp only: chain.simps simp_thms)
  qed
  from this [of 59] have "chain (ev_next k') (Some 0) [0..<60]" by simp
  moreover have "event_free_ok k' e" if "e < 60" for e
    using that pt_empty_spec by (simp add: event_free_ok_def ev waiters_def ecb_zero_def)
  ultimately show ?thesis by (simp add: events_ok_def free)
qed

end
