(* ===== verification/Os_Boot.thy ===== *)
theory Os_Boot
  imports Os_Pool
begin

text \<open>
  A kernel that has been booted: \<open>OSInit\<close> and \<open>OSStart\<close> from cleared memory. The statistics task
  runs, the idle task is ready, every event and queue is free. The properties of the services are
  applied to it.
\<close>

definition bss_kernel :: kernel where
  "bss_kernel = \<lparr>OSTime = 0, OSIntNesting = 0, OSLockNesting = 0, OSTaskCtr = 0, OSRunning = False,
     OSCtxSwCtr = 0, OSIdleCtr = 0, OSIdleCtrRun = 0, OSIdleCtrMax = 0, OSStatRdy = False, OSCPUUsage = 0,
     OSTickStepState = 0, OSRdy = pt_empty, OSPrioCur = 0, OSPrioHighRdy = 0, OSTCBCur = None,
     OSTCBHighRdy = None, OSTCBList = None, OSTCBFreeList = None, OSTCBPrioTbl = replicate 21 PNull,
     OSTCBTbl = (\<lambda>_. tcb_zero), OSEventTbl = (\<lambda>_. ecb_zero), OSEventFreeList = None,
     OSQTbl = (\<lambda>_. q_zero), OSQFreeList = None, OSMem = (\<lambda>_. VNull), OSRam = (\<lambda>_. 0),
     OSFlagTbl = (\<lambda>_. flag_zero), OSFlagFreeList = None,
     OSFlagNodes = (\<lambda>_. \<lparr>OSFlagNodeNext = VNull, OSFlagNodePrev = VNull, OSFlagNodeTCB = VNull,
       OSFlagNodeFlagGrp = VNull, OSFlagNodeFlags = 0, OSFlagNodeWaitType = 0\<rparr>),
     OSMemTbl = (\<lambda>_. mem_zero), OSMemFreeList = None\<rparr>"

definition port0 :: port where
  "port0 = \<lparr>reent_size = 1064, reent_init = (\<lambda>a m. m), start_tsk = 0x1000\<rparr>"

definition sys0 :: sys_tasks where
  "sys0 = \<lparr>idle_task = 0x2000, idle_stk = 0x10000, stat_task = 0x3000, stat_stk = 0x20000\<rparr>"

definition boot_kernel :: kernel where
  "boot_kernel = the (do { k \<leftarrow> OSInit port0 sys0 bss_kernel; OSStart k })"

text \<open>A kernel at the level of a task, in which the task of priority \<open>p\<close> calls a service.\<close>

definition task_level :: "kernel \<Rightarrow> bool" where
  "task_level k \<longleftrightarrow> OSIntNesting k = 0 \<and> OSLockNesting k = 0 \<and> sched_ok k"

lemma task_level_same_kernel [simp]: "same_kernel k k' \<Longrightarrow> task_level k' = task_level k"
  by (simp add: task_level_def same_kernel_kernel)

lemma task_level_touches [simp]: "touches p t k k' \<Longrightarrow> task_level k' = task_level k"
  using touches_same_kernel by simp

lemma OS_Sched_task_level:
  assumes "kernel_ok k" "task_level k"
  shows "\<exists>k'. OS_Sched k = Some k' \<and> switched k k' \<and> kernel_ok k' \<and> highest_runs k' \<and> task_level k'"
  using OS_Sched_spec [OF assms(1)] assms(2)
  by (auto simp: task_level_def switched_view highest_runs_def)

text \<open>What an operation on events and queues leaves alone.\<close>

definition tasks_same :: "kernel \<Rightarrow> kernel \<Rightarrow> bool" where
  "tasks_same k k' \<longleftrightarrow> k' = k\<lparr>OSEventTbl := OSEventTbl k', OSEventFreeList := OSEventFreeList k', OSQTbl := OSQTbl k',
     OSQFreeList := OSQFreeList k', OSMem := OSMem k'\<rparr> \<and> (\<forall>e. waiters e k' = waiters e k)"

lemma tasks_same_refl [simp]: "tasks_same k k"
  by (simp add: tasks_same_def)

lemma tasks_same_trans:
  assumes "tasks_same k k'" "tasks_same k' k''"
  shows "tasks_same k k''"
proof -
  have "k'' = k'\<lparr>OSEventTbl := OSEventTbl k'', OSEventFreeList := OSEventFreeList k'', OSQTbl := OSQTbl k'',
     OSQFreeList := OSQFreeList k'', OSMem := OSMem k''\<rparr>" using assms(2) by (simp add: tasks_same_def)
  also have "k' = k\<lparr>OSEventTbl := OSEventTbl k', OSEventFreeList := OSEventFreeList k', OSQTbl := OSQTbl k',
     OSQFreeList := OSQFreeList k', OSMem := OSMem k'\<rparr>" using assms(1) by (simp add: tasks_same_def)
  finally have "k'' = k\<lparr>OSEventTbl := OSEventTbl k'', OSEventFreeList := OSEventFreeList k'', OSQTbl := OSQTbl k'',
     OSQFreeList := OSQFreeList k'', OSMem := OSMem k''\<rparr>" by simp
  with assms show ?thesis by (simp add: tasks_same_def)
qed

lemma tasks_same_view:
  assumes "tasks_same k k'"
  shows "ready k' = ready k" "waiters e k' = waiters e k" "waits p k' = waits p k" "OSTCBTbl k' = OSTCBTbl k"
    "tcb_prio p k' = tcb_prio p k" "running k' p c = running k p c" "sched_ok k' = sched_ok k" "live k' = live k"
    "task_level k' = task_level k" "at_call k' p c = at_call k p c" "OSIntNesting k' = OSIntNesting k"
    "OSLockNesting k' = OSLockNesting k" "OSRunning k' = OSRunning k" "OSPrioCur k' = OSPrioCur k"
    "task_lists k' us i fs = task_lists k us i fs" "highest_runs k' = highest_runs k" "OSTCBPrioTbl k' = OSTCBPrioTbl k"
    "OSRdy k' = OSRdy k" "OSTCBCur k' = OSTCBCur k" "OSTime k' = OSTime k"
proof -
  have "k' = k\<lparr>OSEventTbl := OSEventTbl k', OSEventFreeList := OSEventFreeList k', OSQTbl := OSQTbl k',
     OSQFreeList := OSQFreeList k', OSMem := OSMem k'\<rparr>" using assms by (simp add: tasks_same_def)
  then obtain E F Q R M where k': "k' = k\<lparr>OSEventTbl := E, OSEventFreeList := F, OSQTbl := Q, OSQFreeList := R, OSMem := M\<rparr>" by blast
  show t: "ready k' = ready k" "OSTCBTbl k' = OSTCBTbl k" "tcb_prio p k' = tcb_prio p k" "OSIntNesting k' = OSIntNesting k"
    "OSLockNesting k' = OSLockNesting k" "OSRunning k' = OSRunning k" "OSPrioCur k' = OSPrioCur k"
    "OSTCBPrioTbl k' = OSTCBPrioTbl k" "OSRdy k' = OSRdy k" "OSTCBCur k' = OSTCBCur k" "OSTime k' = OSTime k" for p
    by (simp_all add: k' ready_def tcb_prio_def)
  show w: "waiters e k' = waiters e k" "waits p k' = waits p k" for e p
    using assms by (simp_all add: tasks_same_def waits_def)
  show "running k' p c = running k p c" "sched_ok k' = sched_ok k" "live k' = live k" "task_level k' = task_level k"
    "at_call k' p c = at_call k p c" "highest_runs k' = highest_runs k"
    by (simp_all add: running_def sched_ok_def live_def task_level_def at_call_def highest_runs_def t w)
  show "task_lists k' us i fs = task_lists k us i fs"
    by (rule task_lists_cong) (simp_all add: tcb_next_def t, simp_all add: k')
qed

lemma kernel_ok_tasks_same:
  assumes "tasks_same k k'" "kernel_ok k" "\<And>e. e < OS_MAX_EVENTS \<Longrightarrow> pt_ok (OSEventWait (OSEventTbl k' e))"
  shows "kernel_ok k'"
  using assms(2,3) tasks_same_view [OF assms(1)] by (simp add: kernel_ok_def kernel_pre_def)

lemma tasks_same_set_ecb: "OSEventWait ev = OSEventWait (OSEventTbl k e) \<Longrightarrow> tasks_same k (set_ecb e ev k)"
  by (simp add: tasks_same_def view_set_ecb) (simp add: set_ecb_def)

lemma tasks_same_free_list: "tasks_same k (k\<lparr>OSEventFreeList := n\<rparr>)"
  by (simp add: tasks_same_def kernel_frame)

text \<open>
  A free event is taken and made an object of some type: what \<open>OSSemCreate\<close>, \<open>OSQCreate\<close> and
  \<open>OSMboxCreate\<close> have in common.
\<close>

lemma event_create_spec:
  assumes ok: "kernel_ok k" and free: "events_ok k (e # es)"
    and mk: "\<And>ev. OSEventWait (mk ev) = OSEventWait ev"
  shows "\<exists>k1 k'. event_alloc k = Some (Some e, k1) \<and> ecb_at e k1 = Some (OSEventTbl k e) \<and>
     OS_EventWaitListInit e (set_ecb e (mk (OSEventTbl k e)) k1) = Some k' \<and> kernel_ok k' \<and> tasks_same k k' \<and>
     events_ok k' es \<and> OSEventTbl k' = (OSEventTbl k)(e := (mk (OSEventTbl k e))\<lparr>OSEventWait := pt_empty\<rparr>) \<and>
     e < OS_MAX_EVENTS \<and> waiters e k' = {} \<and> OSQTbl k' = OSQTbl k \<and> OSQFreeList k' = OSQFreeList k \<and> OSMem k' = OSMem k \<and>
     OSQTbl k1 = OSQTbl k \<and> OSQFreeList k1 = OSQFreeList k \<and> OSMem k1 = OSMem k \<and> OSIntNesting k1 = OSIntNesting k"
proof -
  obtain n where n: "event_alloc k = Some (Some e, k\<lparr>OSEventFreeList := n\<rparr>)" "events_ok (k\<lparr>OSEventFreeList := n\<rparr>) es"
    using event_alloc_spec [OF free] by blast
  have e: "e < OS_MAX_EVENTS" "waiters e k = {}" "e \<notin> set es"
    using free by (simp_all add: events_ok_def event_free_ok_def)
  define k' where "k' = set_ecb e ((mk (OSEventTbl k e))\<lparr>OSEventWait := pt_empty\<rparr>) (k\<lparr>OSEventFreeList := n\<rparr>)"
  have "OS_EventWaitListInit e (set_ecb e (mk (OSEventTbl k e)) (k\<lparr>OSEventFreeList := n\<rparr>)) = Some k'"
    using e(1) by (simp add: OS_EventWaitListInit_def ecb_at_def k'_def set_ecb_def)
  moreover have w: "waiters x k' = waiters x k" for x
    using e(2) pt_empty_spec by (simp add: waiters_def k'_def set_ecb_def)
  then have same: "tasks_same k k'" by (simp add: tasks_same_def) (simp add: k'_def set_ecb_def)
  moreover have "kernel_ok k'"
    using kernel_okD(3) [OF ok] pt_empty_spec by (intro kernel_ok_tasks_same [OF same ok]) (simp add: k'_def set_ecb_def)
  moreover have "events_ok k' es \<longleftrightarrow> events_ok (k\<lparr>OSEventFreeList := n\<rparr>) es"
    using e(3) by (intro events_ok_cong) (auto simp: k'_def set_ecb_def)
  ultimately show ?thesis
    using n e w by (intro exI [of _ "k\<lparr>OSEventFreeList := n\<rparr>"] exI [of _ k']) (simp add: k'_def set_ecb_def)
qed

lemma boot_facts:
  shows "kernel_ok boot_kernel" "task_lists boot_kernel [1] 0 [2..<OS_N_TCBS]" "lists_ok boot_kernel"
    "ready boot_kernel = {OS_TASK_IDLE_PRIO, OS_TASK_STAT_PRIO}" "live boot_kernel = {OS_TASK_IDLE_PRIO, OS_TASK_STAT_PRIO}"
    "waiters e boot_kernel = {}" "task_level boot_kernel" "highest_runs boot_kernel"
    "events_ok boot_kernel [0..<OS_MAX_EVENTS]" "OSRunning boot_kernel"
    "tcb_prio OS_TASK_STAT_PRIO boot_kernel = Some 1" "tcb_prio OS_TASK_IDLE_PRIO boot_kernel = Some 0"
    "new_tcb OS_TASK_STAT_PRIO (OSTCBTbl boot_kernel 1)" "new_tcb OS_TASK_IDLE_PRIO (OSTCBTbl boot_kernel 0)"
    "OSPrioCur boot_kernel = OS_TASK_STAT_PRIO" "at_call boot_kernel OS_TASK_STAT_PRIO 1"
    "OSQTbl boot_kernel = OSQTbl (OS_QInit bss_kernel)" "OSQFreeList boot_kernel = Some 0"
    "OSEventTbl boot_kernel = OSEventTbl (OS_InitEventList bss_kernel)"
    "q < OS_TASK_STAT_PRIO \<Longrightarrow> prio_at q boot_kernel = Some PNull"
proof -
  obtain k1 where k1: "OSInit port0 sys0 bss_kernel = Some k1" "fresh_kernel k1"
    "OSEventTbl k1 = OSEventTbl (OS_InitEventList bss_kernel)" "OSEventFreeList k1 = Some 0"
    "OSQTbl k1 = OSQTbl (OS_QInit bss_kernel)" "OSQFreeList k1 = Some 0"
    "\<forall>q. q < OS_TASK_STAT_PRIO \<longrightarrow> prio_at q k1 = Some PNull" using OSInit_spec by blast
  then have f: "kernel_ok k1" "task_lists k1 [1] 0 [2..<OS_N_TCBS]" "\<not> OSRunning k1" by (simp_all add: fresh_kernel_def)
  obtain k2 where k2: "OSStart k1 = Some k2" "kernel_ok k2" "task_lists k2 [1] 0 [2..<OS_N_TCBS]" "highest_runs k2"
    "OSRunning k2" "ready k2 = ready k1" "\<forall>p. tcb_prio p k2 = tcb_prio p k1" "OSTCBTbl k2 = OSTCBTbl k1"
    "OSEventTbl k2 = OSEventTbl k1" "OSEventFreeList k2 = OSEventFreeList k1" "OSQTbl k2 = OSQTbl k1"
    "OSQFreeList k2 = OSQFreeList k1" "OSIntNesting k2 = OSIntNesting k1" "OSLockNesting k2 = OSLockNesting k1"
    "OSTCBPrioTbl k2 = OSTCBPrioTbl k1"
    using OSStart_spec [OF f] by blast
  have b: "boot_kernel = k2" by (simp add: boot_kernel_def k1(1) k2(1))
  show "prio_at q boot_kernel = Some PNull" if "q < OS_TASK_STAT_PRIO" for q
  proof -
    have "prio_at q k2 = prio_at q k1" using k2(15) by (simp add: prio_at_def)
    then show ?thesis using k1(7) that by (simp add: b)
  qed
  show "kernel_ok boot_kernel" "task_lists boot_kernel [1] 0 [2..<OS_N_TCBS]" "highest_runs boot_kernel" "OSRunning boot_kernel"
    "OSQTbl boot_kernel = OSQTbl (OS_QInit bss_kernel)" "OSQFreeList boot_kernel = Some 0"
    "OSEventTbl boot_kernel = OSEventTbl (OS_InitEventList bss_kernel)"
    using k1 k2 by (simp_all add: b)
  then show "lists_ok boot_kernel" by (auto simp: lists_ok_def)
  show r: "ready boot_kernel = {OS_TASK_IDLE_PRIO, OS_TASK_STAT_PRIO}" and "live boot_kernel = {OS_TASK_IDLE_PRIO, OS_TASK_STAT_PRIO}"
    "new_tcb OS_TASK_IDLE_PRIO (OSTCBTbl boot_kernel 0)"
    using k1(2) k2 by (simp_all add: b fresh_kernel_def live_def)
  show w: "waiters e boot_kernel = {}" for e using k1(2) k2(9) by (simp add: b fresh_kernel_def waiters_def)
  show "task_level boot_kernel" using k1(2) k2 by (simp add: b task_level_def highest_runs_def fresh_kernel_def)
  show "events_ok boot_kernel [0..<OS_MAX_EVENTS]"
    by (rule events_ok_init [of _ bss_kernel]) (simp_all add: b k1 k2)
  show new: "new_tcb OS_TASK_STAT_PRIO (OSTCBTbl boot_kernel 1)" using k1(2) k2(8) by (simp add: b fresh_kernel_def)
  show tp: "tcb_prio OS_TASK_STAT_PRIO boot_kernel = Some 1" "tcb_prio OS_TASK_IDLE_PRIO boot_kernel = Some 0"
  proof -
    have "tcb_prio OS_TASK_IDLE_PRIO k2 = Some 0" "\<exists>p. p \<noteq> OS_TASK_IDLE_PRIO \<and> tcb_prio p k2 = Some 1"
      using k2(3) by (auto simp: task_lists_def)
    moreover have "p = OS_TASK_STAT_PRIO" if "tcb_prio p k2 = Some 1" "p \<noteq> OS_TASK_IDLE_PRIO" for p
    proof -
      have "p \<in> live k2" using that by (simp add: live_def)
      then show ?thesis using k1(2) k2(7) that(2) by (auto simp: fresh_kernel_def live_def)
    qed
    ultimately show "tcb_prio OS_TASK_STAT_PRIO boot_kernel = Some 1" "tcb_prio OS_TASK_IDLE_PRIO boot_kernel = Some 0"
      by (auto simp: b)
  qed
  show cur: "OSPrioCur boot_kernel = OS_TASK_STAT_PRIO"
    using k2(4) r by (simp add: b highest_runs_def)
  have "running boot_kernel OS_TASK_STAT_PRIO 1"
    using k2(4) cur tp by (auto simp: b highest_runs_def sched_ok_def running_def)
  then show "at_call boot_kernel OS_TASK_STAT_PRIO 1"
    using w new by (simp add: at_call_def waits_def new_tcb_def)
qed

end
