(* ===== verification/Os_Sem.thy ===== *)
theory Os_Sem
  imports Os_Boot
begin

text \<open>
  Semaphores, \<^verbatim>\<open>UCOSII/src/os_sem.c\<close>. The argument \<open>pevent\<close> is NULL or an event; \<open>perr\<close> tells
  whether the error pointer is not NULL. \<open>OSSemPend\<close> is in two parts: up to the call of
  \<open>OS_Sched\<close>, where the caller may lose the processor, and what it does when it runs again.
\<close>

section \<open>The operations\<close>

abbreviation OS_DEL_NO_PEND :: INT8U where "OS_DEL_NO_PEND \<equiv> 0"
abbreviation OS_DEL_ALWAYS :: INT8U where "OS_DEL_ALWAYS \<equiv> 1"
abbreviation OS_PEND_OPT_BROADCAST :: INT8U where "OS_PEND_OPT_BROADCAST \<equiv> 1"

definition OSSemAccept :: "nat option \<Rightarrow> kernel \<Rightarrow> (INT16U \<times> kernel) option" where
  "OSSemAccept pevent k = (case pevent of None \<Rightarrow> Some (0, k) | Some e \<Rightarrow> do {
     ev \<leftarrow> ecb_at e k;
     if OSEventType ev \<noteq> OS_EVENT_TYPE_SEM then Some (0, k)
     else let cnt = OSEventCnt ev
          in Some (cnt, if cnt > 0 then set_ecb e (ev\<lparr>OSEventCnt := OSEventCnt ev - 1\<rparr>) k else k) })"

definition OSSemCreate :: "INT16U \<Rightarrow> kernel \<Rightarrow> (nat option \<times> kernel) option" where
  "OSSemCreate cnt k =
     (if OSIntNesting k > 0 then Some (None, k)
      else do {
        (pevent, k) \<leftarrow> event_alloc k;
        case pevent of None \<Rightarrow> Some (None, k)
        | Some e \<Rightarrow> do {
            ev \<leftarrow> ecb_at e k;
            let ev = ev\<lparr>OSEventType := OS_EVENT_TYPE_SEM, OSEventCnt := cnt, OSEventPtr := VNull,
                        OSEventName := name_unset (OSEventName ev)\<rparr>;
            k \<leftarrow> OS_EventWaitListInit e (set_ecb e ev k);
            Some (pevent, k) } })"

definition OSSemDel :: "nat option \<Rightarrow> INT8U \<Rightarrow> bool \<Rightarrow> kernel \<Rightarrow> (nat option \<times> INT8U option \<times> kernel) option" where
  "OSSemDel pevent opt perr k =
     (if \<not> perr then Some (pevent, None, k)
      else case pevent of None \<Rightarrow> Some (pevent, Some OS_ERR_PEVENT_NULL, k)
      | Some e \<Rightarrow> do {
          ev \<leftarrow> ecb_at e k;
          if OSEventType ev \<noteq> OS_EVENT_TYPE_SEM then Some (pevent, Some OS_ERR_EVENT_TYPE, k)
          else if OSIntNesting k > 0 then Some (pevent, Some OS_ERR_DEL_ISR, k)
          else let tasks_waiting = (Grp (OSEventWait ev) \<noteq> 0)
          in if opt = OS_DEL_NO_PEND then
               if \<not> tasks_waiting then do { k \<leftarrow> event_free e k; Some (None, Some OS_ERR_NONE, k) }
               else Some (pevent, Some OS_ERR_TASK_WAITING, k)
             else if opt = OS_DEL_ALWAYS then do {
               (_, k) \<leftarrow> rdy_all e VNull OS_STAT_SEM OS_STAT_PEND_OK 0 k;
               k \<leftarrow> event_free e k;
               k \<leftarrow> (if tasks_waiting then OS_Sched k else Some k);
               Some (None, Some OS_ERR_NONE, k) }
             else Some (pevent, Some OS_ERR_INVALID_OPT, k) })"

definition OSSemPend :: "nat option \<Rightarrow> INT16U \<Rightarrow> bool \<Rightarrow> kernel \<Rightarrow> (INT8U option outcome \<times> kernel) option" where
  "OSSemPend pevent timeout perr k =
     (if \<not> perr then Some (Returns None, k)
      else case pevent of None \<Rightarrow> Some (Returns (Some OS_ERR_PEVENT_NULL), k)
      | Some e \<Rightarrow> do {
          ev \<leftarrow> ecb_at e k;
          if OSEventType ev \<noteq> OS_EVENT_TYPE_SEM then Some (Returns (Some OS_ERR_EVENT_TYPE), k)
          else if OSIntNesting k > 0 then Some (Returns (Some OS_ERR_PEND_ISR), k)
          else if OSLockNesting k > 0 then Some (Returns (Some OS_ERR_PEND_LOCKED), k)
          else if OSEventCnt ev > 0
               then Some (Returns (Some OS_ERR_NONE), set_ecb e (ev\<lparr>OSEventCnt := OSEventCnt ev - 1\<rparr>) k)
          else do {
            k \<leftarrow> pend_block OS_STAT_SEM timeout e k;
            k \<leftarrow> OS_Sched k;
            Some (Blocked, k) } })"

definition OSSemPend_resume :: "nat \<Rightarrow> kernel \<Rightarrow> (INT8U \<times> kernel) option" where
  "OSSemPend_resume pevent k = do {
     (c, b) \<leftarrow> cur_tcb k;
     (err, k) \<leftarrow>
       (if OSTCBStatPend b = OS_STAT_PEND_OK then Some (OS_ERR_NONE, k)
        else if OSTCBStatPend b = OS_STAT_PEND_ABORT then Some (OS_ERR_PEND_ABORT, k)
        else do { k \<leftarrow> OS_EventTaskRemove c pevent k; Some (OS_ERR_TIMEOUT, k) });
     k \<leftarrow> pend_clear k;
     Some (err, k) }"

definition OSSemPendAbort :: "nat option \<Rightarrow> INT8U \<Rightarrow> bool \<Rightarrow> kernel \<Rightarrow> (INT8U \<times> INT8U option \<times> kernel) option" where
  "OSSemPendAbort pevent opt perr k =
     (if \<not> perr then Some (0, None, k)
      else case pevent of None \<Rightarrow> Some (0, Some OS_ERR_PEVENT_NULL, k)
      | Some e \<Rightarrow> do {
          ev \<leftarrow> ecb_at e k;
          if OSEventType ev \<noteq> OS_EVENT_TYPE_SEM then Some (0, Some OS_ERR_EVENT_TYPE, k)
          else if Grp (OSEventWait ev) \<noteq> 0 then do {
            (nbr_tasks, k) \<leftarrow>
              (if opt = OS_PEND_OPT_BROADCAST then rdy_all e VNull OS_STAT_SEM OS_STAT_PEND_ABORT 0 k
               else do { (_, k) \<leftarrow> OS_EventTaskRdy e VNull OS_STAT_SEM OS_STAT_PEND_ABORT k; Some (1, k) });
            k \<leftarrow> OS_Sched k;
            Some (nbr_tasks, Some OS_ERR_PEND_ABORT, k) }
          else Some (0, Some OS_ERR_NONE, k) })"

definition OSSemPost :: "nat option \<Rightarrow> kernel \<Rightarrow> (INT8U \<times> kernel) option" where
  "OSSemPost pevent k =
     (case pevent of None \<Rightarrow> Some (OS_ERR_PEVENT_NULL, k)
      | Some e \<Rightarrow> do {
          ev \<leftarrow> ecb_at e k;
          if OSEventType ev \<noteq> OS_EVENT_TYPE_SEM then Some (OS_ERR_EVENT_TYPE, k)
          else if Grp (OSEventWait ev) \<noteq> 0 then do {
            (_, k) \<leftarrow> OS_EventTaskRdy e VNull OS_STAT_SEM OS_STAT_PEND_OK k;
            k \<leftarrow> OS_Sched k;
            Some (OS_ERR_NONE, k) }
          else if OSEventCnt ev < 65535
               then Some (OS_ERR_NONE, set_ecb e (ev\<lparr>OSEventCnt := OSEventCnt ev + 1\<rparr>) k)
          else Some (OS_ERR_SEM_OVF, k) })"

record os_sem_data =
  OSCnt :: INT16U
  SemWait :: prio_tab

definition OSSemQuery :: "nat option \<Rightarrow> bool \<Rightarrow> kernel \<Rightarrow> (INT8U \<times> os_sem_data option) option" where
  "OSSemQuery pevent p_sem_data k =
     (case pevent of None \<Rightarrow> Some (OS_ERR_PEVENT_NULL, None)
      | Some e \<Rightarrow>
         if \<not> p_sem_data then Some (OS_ERR_PDATA_NULL, None)
         else do {
           ev \<leftarrow> ecb_at e k;
           if OSEventType ev \<noteq> OS_EVENT_TYPE_SEM then Some (OS_ERR_EVENT_TYPE, None)
           else Some (OS_ERR_NONE, Some \<lparr>OSCnt = OSEventCnt ev, SemWait = OSEventWait ev\<rparr>) })"

definition OSSemSet :: "nat option \<Rightarrow> INT16U \<Rightarrow> bool \<Rightarrow> kernel \<Rightarrow> (INT8U option \<times> kernel) option" where
  "OSSemSet pevent cnt perr k =
     (if \<not> perr then Some (None, k)
      else case pevent of None \<Rightarrow> Some (Some OS_ERR_PEVENT_NULL, k)
      | Some e \<Rightarrow> do {
          ev \<leftarrow> ecb_at e k;
          if OSEventType ev \<noteq> OS_EVENT_TYPE_SEM then Some (Some OS_ERR_EVENT_TYPE, k)
          else if OSEventCnt ev > 0 then Some (Some OS_ERR_NONE, set_ecb e (ev\<lparr>OSEventCnt := cnt\<rparr>) k)
          else if Grp (OSEventWait ev) = 0 then Some (Some OS_ERR_NONE, set_ecb e (ev\<lparr>OSEventCnt := cnt\<rparr>) k)
          else Some (Some OS_ERR_TASK_WAITING, k) })"

section \<open>What a semaphore keeps\<close>

text \<open>
  The count and the waiting tasks: nobody waits while the count is positive. This is the
  semaphore as its clients see it: a number of tokens and a set of waiting priorities.
\<close>

definition sem_at :: "nat \<Rightarrow> kernel \<Rightarrow> bool" where
  "sem_at e k \<longleftrightarrow> e < OS_MAX_EVENTS \<and> OSEventType (OSEventTbl k e) = OS_EVENT_TYPE_SEM \<and>
     (OSEventCnt (OSEventTbl k e) > 0 \<longrightarrow> waiters e k = {})"

definition sem_count :: "nat \<Rightarrow> kernel \<Rightarrow> nat" where
  "sem_count e k = unat (OSEventCnt (OSEventTbl k e))"

lemma sem_atD:
  assumes "sem_at e k"
  shows "e < OS_MAX_EVENTS" "ecb_at e k = Some (OSEventTbl k e)" "OSEventType (OSEventTbl k e) = OS_EVENT_TYPE_SEM"
    "waiters e k \<noteq> {} \<Longrightarrow> OSEventCnt (OSEventTbl k e) = 0"
  using assms by (auto simp: sem_at_def word_gt_0)

lemma sem_same_kernel:
  assumes "same_kernel k k'"
  shows "sem_count e k' = sem_count e k" "sem_at e k \<Longrightarrow> waiters e k' \<subseteq> waiters e k \<Longrightarrow> sem_at e k'"
  using assms by (auto simp: sem_count_def sem_at_def same_kernel_kernel)

lemma sem_switched:
  assumes "switched k k'"
  shows "sem_count e k' = sem_count e k" "sem_at e k' = sem_at e k"
  using assms by (simp_all add: sem_count_def sem_at_def switched_view)

section \<open>Post\<close>

lemma OSSemPost_wakes_step:
  assumes ok: "kernel_ok k" and lev: "task_level k" and sem: "sem_at e k" and w: "waiters e k \<noteq> {}"
  defines "p \<equiv> Min (waiters e k)"
  shows "\<exists>k'. OSSemPost (Some e) k = Some (OS_ERR_NONE, k') \<and> kernel_ok k' \<and> sem_at e k' \<and> sem_count e k' = 0 \<and>
    waiters e k' = waiters e k - {p} \<and>
    ready k' = (if suspended (tcb_of p k) then ready k else insert p (ready k)) \<and>
    OSTCBStatPend (tcb_of p k') = OS_STAT_PEND_OK \<and> highest_runs k' \<and> (\<forall>q. tcb_prio q k' = tcb_prio q k) \<and>
    (OSTCBEventMultiPtr (tcb_of p k) = None \<longrightarrow>
       OSTCBEventMultiPtr (tcb_of p k') = None \<and> OSTCBEventPtr (tcb_of p k') = OSTCBEventPtr (tcb_of p k))"
proof -
  note S = sem_atD [OF sem]
  obtain t k1 where k1: "tcb_prio p k = Some t" "OS_EventTaskRdy e VNull OS_STAT_SEM OS_STAT_PEND_OK k = Some (p, k1)"
    "touches p t k k1" "OSTCBTbl k1 t = woken e VNull OS_STAT_SEM OS_STAT_PEND_OK (OSTCBTbl k t)"
    "ready k1 = (if suspended (OSTCBTbl k t) then ready k else insert p (ready k))" "kernel_ok k1"
    using OS_EventTaskRdy_spec [OF ok S(1) w, of OS_STAT_SEM p VNull OS_STAT_PEND_OK] by (auto simp: p_def)
  have k1': "waiters e k1 = waiters e k - {p}" "same_kernel k k1"
    using OS_EventTaskRdy_waiters [OF ok S(1) w, of OS_STAT_SEM VNull OS_STAT_PEND_OK] k1(2) by (auto simp: p_def)
  obtain k2 where k2: "OS_Sched k1 = Some k2" "switched k1 k2" "kernel_ok k2" "highest_runs k2"
    using OS_Sched_task_level [OF k1(6)] lev k1'(2) by auto
  have "OSSemPost (Some e) k = Some (OS_ERR_NONE, k2)"
    using S w k1(2) k2(1) grp_zero_iff [OF ok S(1)] by (simp add: OSSemPost_def)
  moreover have "sem_at e k2" "sem_count e k2 = 0"
    using sem_same_kernel [OF k1'(2)] sem sem_switched [OF k2(2)] k1'(1) S(4) [OF w] by (auto simp: sem_count_def)
  moreover have "OSTCBStatPend (tcb_of p k2) = OS_STAT_PEND_OK"
    using switched_tcb [OF k2(2), of t] k1 by (auto simp: tcb_of_def switched_view [OF k2(2)] touches_tcb_prio woken_def Let_def)
  moreover have "OSTCBEventMultiPtr (tcb_of p k) = None \<Longrightarrow>
      OSTCBEventMultiPtr (tcb_of p k2) = None \<and> OSTCBEventPtr (tcb_of p k2) = OSTCBEventPtr (tcb_of p k)"
    using switched_tcb [OF k2(2), of t] k1 by (auto simp: tcb_of_def switched_view [OF k2(2)] touches_tcb_prio woken_def Let_def)
  moreover have "\<forall>q. tcb_prio q k2 = tcb_prio q k" using touches_tcb_prio [OF k1(3)] by (simp add: switched_view [OF k2(2)])
  ultimately show ?thesis
    using k1 k1' k2 by (intro exI [of _ k2]) (simp add: switched_view [OF k2(2)] tcb_of_def)
qed

lemma waiters_touches:
  assumes "touches p t k k'" "e < OS_MAX_EVENTS"
  shows "waiters e k' = (if e \<in> waits p k' then insert p (waiters e k) else waiters e k - {p})"
proof -
  have "q \<in> waiters e k' \<longleftrightarrow> q \<in> (if e \<in> waits p k' then insert p (waiters e k) else waiters e k - {p})" for q
    using touches_other(4) [OF assms, of q] assms(2) by (cases "q = p") (auto simp: waits_def)
  then show ?thesis by blast
qed

lemma OSSemPost_counts_step:
  assumes ok: "kernel_ok k" and sem: "sem_at e k" and w: "waiters e k = {}"
  shows "\<exists>k' err. OSSemPost (Some e) k = Some (err, k') \<and> kernel_ok k' \<and> sem_at e k' \<and>
    sem_count e k' = min 65535 (sem_count e k + 1) \<and> (err = OS_ERR_SEM_OVF \<longleftrightarrow> sem_count e k = 65535) \<and>
    ready k' = ready k \<and> waiters e k' = {} \<and> OSTCBTbl k' = OSTCBTbl k"
proof -
  note S = sem_atD [OF sem]
  let ?ev = "OSEventTbl k e"
  let ?k = "set_ecb e (?ev\<lparr>OSEventCnt := OSEventCnt ?ev + 1\<rparr>) k"
  have lt: "OSEventCnt ?ev < 65535 \<longleftrightarrow> sem_count e k < 65535" by (simp add: sem_count_def word_less_nat_alt)
  have le: "sem_count e k \<le> 65535" using unsigned_less [of "OSEventCnt ?ev", where ?'a = nat] by (simp add: sem_count_def)
  show ?thesis
  proof (cases "sem_count e k < 65535")
    case True
    have "unat (OSEventCnt ?ev + 1) = unat (OSEventCnt ?ev) + 1"
      using True by (simp add: sem_count_def unat_word_ariths)
    then have "sem_count e ?k = sem_count e k + 1" by (simp add: sem_count_def set_ecb_def)
    moreover have "kernel_ok ?k" "ready ?k = ready k" "waiters e ?k = {}"
      using ok w by (simp_all add: kernel_ok_set_ecb view_set_ecb)
    moreover have "sem_at e ?k" using S calculation(4) by (simp add: sem_at_def) (simp add: set_ecb_def)
    moreover have "OSSemPost (Some e) k = Some (OS_ERR_NONE, ?k)"
      using S w True lt grp_zero_iff [OF ok S(1)] by (simp add: OSSemPost_def)
    ultimately show ?thesis using True by (intro exI [of _ ?k]) (auto simp: set_ecb_def)
  next
    case False
    then have "OSSemPost (Some e) k = Some (OS_ERR_SEM_OVF, k)"
      using S w lt grp_zero_iff [OF ok S(1)] by (simp add: OSSemPost_def)
    then show ?thesis using ok sem w False le by auto
  qed
qed

section \<open>Pend\<close>

lemma OSSemPend_take:
  assumes ok: "kernel_ok k" and lev: "task_level k" and sem: "sem_at e k" and c: "sem_count e k > 0"
  shows "\<exists>k'. OSSemPend (Some e) timeout True k = Some (Returns (Some OS_ERR_NONE), k') \<and> kernel_ok k' \<and> sem_at e k' \<and>
    sem_count e k' = sem_count e k - 1 \<and> ready k' = ready k \<and> waiters e k' = waiters e k \<and> OSTCBTbl k' = OSTCBTbl k"
proof -
  note S = sem_atD [OF sem]
  let ?ev = "OSEventTbl k e"
  let ?k = "set_ecb e (?ev\<lparr>OSEventCnt := OSEventCnt ?ev - 1\<rparr>) k"
  have pos: "OSEventCnt ?ev > 0" using c by (simp add: sem_count_def word_gt_0 unat_gt_0)
  then have w: "waiters e k = {}" using sem by (simp add: sem_at_def)
  have "unat (OSEventCnt ?ev - 1) = unat (OSEventCnt ?ev) - 1"
    using pos by (simp add: unat_minus_one word_gt_0)
  then have "sem_count e ?k = sem_count e k - 1" by (simp add: sem_count_def set_ecb_def)
  moreover have "kernel_ok ?k" "ready ?k = ready k" "waiters e ?k = {}"
    using ok w by (simp_all add: kernel_ok_set_ecb view_set_ecb)
  moreover have "sem_at e ?k" using S calculation(4) by (simp add: sem_at_def) (simp add: set_ecb_def)
  moreover have "OSSemPend (Some e) timeout True k = Some (Returns (Some OS_ERR_NONE), ?k)"
    using S pos lev by (simp add: OSSemPend_def task_level_def)
  ultimately show ?thesis using w by (simp add: set_ecb_def)
qed

lemma OSSemPend_blocks_step:
  assumes ok: "kernel_ok k" and lev: "task_level k" and sem: "sem_at e k" and c: "sem_count e k = 0"
    and call: "at_call k p t" and p: "p \<noteq> OS_TASK_IDLE_PRIO"
  shows "\<exists>k'. OSSemPend (Some e) timeout True k = Some (Blocked, k') \<and> kernel_ok k' \<and> sem_at e k' \<and>
    sem_count e k' = 0 \<and> ready k' = ready k - {p} \<and> waiters e k' = insert p (waiters e k) \<and>
    OSTCBDly (tcb_of p k') = timeout \<and> OSTCBEventPtr (tcb_of p k') = Some e \<and> OSTCBEventMultiPtr (tcb_of p k') = None \<and>
    highest_runs k' \<and> OSPrioCur k' \<noteq> p \<and> task_level k' \<and> tcb_prio p k' = Some t \<and>
    (p \<in> ready k \<longrightarrow> \<not> suspended (tcb_of p k'))"
proof -
  note S = sem_atD [OF sem]
  have "OS_STAT_SEM AND OS_STAT_PEND_ANY \<noteq> 0" by simp
  then obtain k1 where k1: "pend_block OS_STAT_SEM timeout e k = Some k1" "touches p t k k1" "kernel_ok k1"
    "OSTCBDly (OSTCBTbl k1 t) = timeout" "OSTCBEventPtr (OSTCBTbl k1 t) = Some e"
    "OSTCBEventMultiPtr (OSTCBTbl k1 t) = OSTCBEventMultiPtr (OSTCBTbl k t)" "ready k1 = ready k - {p}" "waits p k1 = {e}"
    "OSTCBStat (OSTCBTbl k1 t) = OSTCBStat (OSTCBTbl k t) OR OS_STAT_SEM"
    using pend_block_spec [OF ok call p S(1), of OS_STAT_SEM timeout] by auto
  obtain k2 where k2: "OS_Sched k1 = Some k2" "switched k1 k2" "kernel_ok k2" "highest_runs k2" "task_level k2"
    using OS_Sched_task_level [OF k1(3)] lev k1(2) by auto
  have w: "waiters e k1 = insert p (waiters e k)" using waiters_touches [OF k1(2) S(1)] k1(8) by simp
  have cnt: "OSEventCnt (OSEventTbl k e) = 0" using c by (simp add: sem_count_def unat_eq_0)
  have sk: "same_kernel k k1" using k1(2) by (rule touches_same_kernel)
  have "sem_at e k1" "sem_count e k1 = 0"
    using S(1,3) cnt by (simp_all add: sem_at_def sem_count_def same_kernel_kernel [OF sk])
  moreover have "OSSemPend (Some e) timeout True k = Some (Blocked, k2)"
    using S cnt lev k1(1) k2(1) by (simp add: OSSemPend_def task_level_def)
  moreover have "OSTCBDly (tcb_of p k2) = timeout \<and> OSTCBEventPtr (tcb_of p k2) = Some e \<and>
      OSTCBEventMultiPtr (tcb_of p k2) = None \<and> tcb_prio p k2 = Some t"
    using switched_tcb [OF k2(2), of t] k1(4-6) call
    by (auto simp: tcb_of_def switched_view [OF k2(2)] touches_tcb_prio [OF k1(2)] at_call_def running_def)
  moreover have "\<not> suspended (tcb_of p k2)" if "p \<in> ready k"
  proof -
    have tp: "tcb_prio p k = Some t" using call by (simp add: at_call_def running_def)
    have "OSTCBStat (OSTCBTbl k t) AND OS_STAT_SUSPEND = 0"
      using kernel_okD(7) [OF ok tp] that by (simp add: task_ok_def suspended_def)
    moreover have "OSTCBStat (tcb_of p k2) = OSTCBStat (OSTCBTbl k t) OR OS_STAT_SEM"
      using switched_tcb [OF k2(2), of t] k1(9) tp
      by (auto simp: tcb_of_def switched_view [OF k2(2)] touches_tcb_prio [OF k1(2)])
    ultimately show ?thesis by (simp add: suspended_def bit.conj_disj_distrib2)
  qed
  moreover have "OSPrioCur k2 \<noteq> p"
    using k2(4) min_ready(1) [OF k2(3)] k1(7) by (auto simp: highest_runs_def switched_view [OF k2(2)])
  ultimately show ?thesis
    using k1 k2 w by (intro exI [of _ k2]) (simp add: switched_view [OF k2(2)] sem_switched [OF k2(2)])
qed

lemma OSSemPend_resume_step:
  assumes ok: "kernel_ok k" and run: "running k p t" and r: "p \<in> ready k" and e: "e < OS_MAX_EVENTS"
    and link: "OSTCBEventPtr (OSTCBTbl k t) = Some e" "OSTCBEventMultiPtr (OSTCBTbl k t) = None"
  shows "\<exists>k'. OSSemPend_resume e k =
      Some (if OSTCBStatPend (OSTCBTbl k t) = OS_STAT_PEND_OK then OS_ERR_NONE
            else if OSTCBStatPend (OSTCBTbl k t) = OS_STAT_PEND_ABORT then OS_ERR_PEND_ABORT else OS_ERR_TIMEOUT, k') \<and>
    kernel_ok k' \<and> at_call k' p t \<and> ready k' = ready k \<and> OSTCBStat (OSTCBTbl k' t) = OS_STAT_RDY \<and>
    touches p t k k'"
proof -
  note C = cur_tcb_running [OF ok run]
  have tp: "tcb_prio p k = Some t" using run by (simp add: running_def)
  have sub: "waits p k \<subseteq> {e}" using C(3) link by (simp add: task_ok_def linked_events_def)
  let ?st = "OSTCBStatPend (OSTCBTbl k t)"
  obtain err k1 where k1: "(if ?st = OS_STAT_PEND_OK then Some (OS_ERR_NONE, k)
        else if ?st = OS_STAT_PEND_ABORT then Some (OS_ERR_PEND_ABORT, k)
        else do { k \<leftarrow> OS_EventTaskRemove t e k; Some (OS_ERR_TIMEOUT, k) }) = Some (err, k1)"
    "err = (if ?st = OS_STAT_PEND_OK then OS_ERR_NONE
            else if ?st = OS_STAT_PEND_ABORT then OS_ERR_PEND_ABORT else OS_ERR_TIMEOUT)"
    "kernel_ok k1" "running k1 p t" "ready k1 = ready k" "waits p k1 = {}" "touches p t k k1"
  proof (cases "?st = OS_STAT_PEND_OK \<or> ?st = OS_STAT_PEND_ABORT")
    case True
    then have "waits p k = {}" using C(3) r by (auto simp: task_ok_def)
    with True ok run show ?thesis by (auto intro: that)
  next
    case False
    obtain k1 where "OS_EventTaskRemove t e k = Some k1" "touches p t k k1" "kernel_ok k1" "ready k1 = ready k"
      "waits p k1 = waits p k - {e}" using OS_EventTaskRemove_spec [OF ok tp e] by blast
    with False run sub show ?thesis by (intro that [of OS_ERR_TIMEOUT k1]) auto
  qed
  obtain k2 where "pend_clear k1 = Some k2" "kernel_ok k2" "at_call k2 p t" "ready k2 = ready k1"
    "OSTCBStat (OSTCBTbl k2 t) = OS_STAT_RDY" "touches p t k1 k2"
    using pend_clear_spec [OF k1(3,4) _ k1(6)] k1(5) r by auto
  with k1 C(1) touches_trans [OF k1(7)] show ?thesis by (simp add: OSSemPend_resume_def)
qed

lemma OSSemPend_returns_step:
  assumes ok: "kernel_ok k" and run: "running k p t" and r: "p \<in> ready k" and e: "e < OS_MAX_EVENTS"
    and link: "OSTCBEventPtr (OSTCBTbl k t) = Some e" "OSTCBEventMultiPtr (OSTCBTbl k t) = None"
  shows "\<exists>k'. OSSemPend_resume e k =
      Some (if OSTCBStatPend (OSTCBTbl k t) = OS_STAT_PEND_OK then OS_ERR_NONE
            else if OSTCBStatPend (OSTCBTbl k t) = OS_STAT_PEND_ABORT then OS_ERR_PEND_ABORT else OS_ERR_TIMEOUT, k') \<and>
    kernel_ok k' \<and> at_call k' p t \<and> ready k' = ready k \<and> OSTCBStat (OSTCBTbl k' t) = OS_STAT_RDY"
  using OSSemPend_resume_step [OF assms] by (elim exE conjE) (intro exI conjI)

section \<open>Creation and deletion\<close>

lemma OSSemCreate_step:
  assumes ok: "kernel_ok k" and free: "events_ok k (e # es)" and int: "OSIntNesting k = 0"
  shows "\<exists>k'. OSSemCreate cnt k = Some (Some e, k') \<and> kernel_ok k' \<and> tasks_same k k' \<and> events_ok k' es \<and>
    sem_at e k' \<and> sem_count e k' = unat cnt \<and> waiters e k' = {} \<and>
    (\<forall>x. x \<noteq> e \<longrightarrow> OSEventTbl k' x = OSEventTbl k x)"
proof -
  let ?mk = "\<lambda>ev::os_event. ev\<lparr>OSEventType := OS_EVENT_TYPE_SEM, OSEventCnt := cnt, OSEventPtr := VNull,
     OSEventName := name_unset (OSEventName ev)\<rparr>"
  obtain k1 k' where k: "event_alloc k = Some (Some e, k1)" "ecb_at e k1 = Some (OSEventTbl k e)"
    "OS_EventWaitListInit e (set_ecb e (?mk (OSEventTbl k e)) k1) = Some k'" "kernel_ok k'" "tasks_same k k'"
    "events_ok k' es" "OSEventTbl k' = (OSEventTbl k)(e := (?mk (OSEventTbl k e))\<lparr>OSEventWait := pt_empty\<rparr>)"
    "e < OS_MAX_EVENTS" "waiters e k' = {}"
    using event_create_spec [OF ok free, of ?mk] by auto
  have "OSSemCreate cnt k = Some (Some e, k')" using int k(1-3) by (simp add: OSSemCreate_def Let_def)
  moreover have "sem_at e k'" "sem_count e k' = unat cnt" using k(7-9) by (simp_all add: sem_at_def sem_count_def)
  ultimately show ?thesis using k by simp
qed

lemma events_ok_same_kernel:
  assumes sk: "same_kernel k k'" and sub: "\<forall>x < OS_MAX_EVENTS. waiters x k' \<subseteq> waiters x k" and ok: "events_ok k es"
  shows "events_ok k' es"
proof -
  have "chain (ev_next k') (OSEventFreeList k') es \<longleftrightarrow> chain (ev_next k) (OSEventFreeList k) es"
    unfolding same_kernel_kernel(6) [OF sk] by (intro chain_cong) (simp add: ev_next_def same_kernel_kernel [OF sk])
  moreover have "event_free_ok k' x" if "event_free_ok k x" for x
    using that sub by (auto simp: event_free_ok_def same_kernel_kernel [OF sk])
  ultimately show ?thesis using ok by (auto simp: events_ok_def)
qed

lemma OSSemDel_step:
  assumes ok: "kernel_ok k" and lev: "task_level k" and sem: "sem_at e k" and free: "events_ok k es"
  shows "\<exists>k'. OSSemDel (Some e) OS_DEL_ALWAYS True k = Some (None, Some OS_ERR_NONE, k') \<and> kernel_ok k' \<and>
    events_ok k' (e # es) \<and> waiters e k' = {} \<and> ready k' = ready k \<union> {p \<in> waiters e k. \<not> suspended (tcb_of p k)} \<and>
    (waiters e k \<noteq> {} \<longrightarrow> highest_runs k')"
proof -
  note S = sem_atD [OF sem]
  have e: "e \<notin> set es" using free S(3) by (auto simp: events_ok_def event_free_ok_def)
  obtain k1 where k1: "rdy_all e VNull OS_STAT_SEM OS_STAT_PEND_OK 0 k = Some (0 + of_nat (card (waiters e k)), k1)"
    "same_kernel k k1" "waiters e k1 = {}" "\<forall>x < OS_MAX_EVENTS. waiters x k1 \<subseteq> waiters x k"
    "ready k1 = ready k \<union> {p \<in> waiters e k. \<not> suspended (tcb_of p k)}" "kernel_ok k1"
    using rdy_all_spec [OF ok S(1), of OS_STAT_SEM VNull OS_STAT_PEND_OK 0] by auto
  have "events_ok k1 es" by (rule events_ok_same_kernel [OF k1(2,4) free])
  from event_free_spec [OF this e S(1) k1(3)] obtain k2 where k2: "event_free e k1 = Some k2" "events_ok k2 (e # es)"
    "kernel_ok k2" "ready k2 = ready k1" "\<forall>x. waiters x k2 = waiters x k1" "\<forall>p. tcb_prio p k2 = tcb_prio p k1"
    "OSTCBCur k2 = OSTCBCur k1" "OSPrioCur k2 = OSPrioCur k1" "OSIntNesting k2 = OSIntNesting k1"
    "OSLockNesting k2 = OSLockNesting k1"
    using k1(6) by auto
  have "task_level k2"
    using lev k2(6-10) by (simp add: task_level_def sched_ok_def running_def same_kernel_kernel [OF k1(2)])
  then obtain k3 where k3: "OS_Sched k2 = Some k3" "switched k2 k3" "kernel_ok k3" "highest_runs k3"
    using OS_Sched_task_level [OF k2(3)] by blast
  have ev3: "events_ok k3 (e # es)"
  proof -
    have "events_ok k3 (e # es) \<longleftrightarrow> events_ok k2 (e # es)"
      by (rule events_ok_cong) (simp_all add: switched_view [OF k3(2)])
    then show ?thesis using k2(2) by simp
  qed
  have int: "OSIntNesting k = 0" using lev by (simp add: task_level_def)
  show ?thesis
  proof (cases "waiters e k = {}")
    case True
    then have "OSSemDel (Some e) OS_DEL_ALWAYS True k = Some (None, Some OS_ERR_NONE, k2)"
      using S int k1(1) k2(1) grp_zero_iff [OF ok S(1)] by (simp add: OSSemDel_def Let_def)
    with True show ?thesis using k1 k2 by (intro exI [of _ k2]) auto
  next
    case False
    then have "OSSemDel (Some e) OS_DEL_ALWAYS True k = Some (None, Some OS_ERR_NONE, k3)"
      using S int k1(1) k2(1) k3(1) grp_zero_iff [OF ok S(1)] by (simp add: OSSemDel_def Let_def)
    then show ?thesis using k1 k2 k3 ev3 by (intro exI [of _ k3]) (simp add: switched_view [OF k3(2)])
  qed
qed

section \<open>A run\<close>

text \<open>
  The booted kernel makes a semaphore with no token, the statistics task pends on it for at most
  100 ticks, and the idle task runs.
\<close>

definition demo_sem :: kernel where
  "demo_sem = snd (the (OSSemCreate 0 boot_kernel))"

definition demo_wait :: kernel where
  "demo_wait = snd (the (OSSemPend (Some 0) 100 True demo_sem))"

lemma events_cons: "[0..<OS_MAX_EVENTS] = 0 # [1..<OS_MAX_EVENTS]"
  by (simp add: upt_conv_Cons)

lemma task_levelD: "task_level k \<Longrightarrow> OSIntNesting k = 0" "task_level k \<Longrightarrow> OSLockNesting k = 0"
  by (simp_all add: task_level_def)

lemma demo_sem_facts:
  "OSSemCreate 0 boot_kernel = Some (Some 0, demo_sem)" "kernel_ok demo_sem" "task_level demo_sem" "sem_at 0 demo_sem"
  "sem_count 0 demo_sem = 0" "waiters 0 demo_sem = {}" "at_call demo_sem OS_TASK_STAT_PRIO 1"
  "events_ok demo_sem [1..<OS_MAX_EVENTS]" "ready demo_sem = {OS_TASK_IDLE_PRIO, OS_TASK_STAT_PRIO}"
proof -
  obtain k' where k': "OSSemCreate 0 boot_kernel = Some (Some 0, k')" "kernel_ok k'" "tasks_same boot_kernel k'"
    "events_ok k' [1..<OS_MAX_EVENTS]" "sem_at 0 k'" "sem_count 0 k' = 0" "waiters 0 k' = {}"
    using OSSemCreate_step [OF boot_facts(1) boot_facts(9) [unfolded events_cons] task_levelD(1) [OF boot_facts(7)], of 0]
    by auto
  have d: "demo_sem = k'" by (simp add: demo_sem_def k'(1))
  show "OSSemCreate 0 boot_kernel = Some (Some 0, demo_sem)" "kernel_ok demo_sem" "task_level demo_sem" "sem_at 0 demo_sem"
    "sem_count 0 demo_sem = 0" "waiters 0 demo_sem = {}" "at_call demo_sem OS_TASK_STAT_PRIO 1"
    "events_ok demo_sem [1..<OS_MAX_EVENTS]" "ready demo_sem = {OS_TASK_IDLE_PRIO, OS_TASK_STAT_PRIO}"
    using k' boot_facts(4,7,16) by (simp_all add: d tasks_same_view [OF k'(3)])
qed

lemma demo_wait_facts:
  "kernel_ok demo_wait" "task_level demo_wait" "sem_at 0 demo_wait" "sem_count 0 demo_wait = 0"
  "waiters 0 demo_wait = {OS_TASK_STAT_PRIO}" "ready demo_wait = {OS_TASK_IDLE_PRIO}"
  "tcb_prio OS_TASK_STAT_PRIO demo_wait = Some 1" "OSTCBEventPtr (tcb_of OS_TASK_STAT_PRIO demo_wait) = Some 0"
  "OSTCBEventMultiPtr (tcb_of OS_TASK_STAT_PRIO demo_wait) = None" "\<not> suspended (tcb_of OS_TASK_STAT_PRIO demo_wait)"
proof -
  obtain k' where k': "OSSemPend (Some 0) 100 True demo_sem = Some (Blocked, k')" "kernel_ok k'" "sem_at 0 k'"
    "sem_count 0 k' = 0" "ready k' = ready demo_sem - {OS_TASK_STAT_PRIO}"
    "waiters 0 k' = insert OS_TASK_STAT_PRIO (waiters 0 demo_sem)" "task_level k'"
    "tcb_prio OS_TASK_STAT_PRIO k' = Some 1" "OSTCBEventPtr (tcb_of OS_TASK_STAT_PRIO k') = Some 0"
    "OSTCBEventMultiPtr (tcb_of OS_TASK_STAT_PRIO k') = None" "\<not> suspended (tcb_of OS_TASK_STAT_PRIO k')"
    using demo_sem_facts(9) OSSemPend_blocks_step [OF demo_sem_facts(2-5,7), of 100] by auto
  have d: "demo_wait = k'" by (simp add: demo_wait_def k'(1))
  show "kernel_ok demo_wait" "task_level demo_wait" "sem_at 0 demo_wait" "sem_count 0 demo_wait = 0"
    "waiters 0 demo_wait = {OS_TASK_STAT_PRIO}" "ready demo_wait = {OS_TASK_IDLE_PRIO}"
    "tcb_prio OS_TASK_STAT_PRIO demo_wait = Some 1" "OSTCBEventPtr (tcb_of OS_TASK_STAT_PRIO demo_wait) = Some 0"
    "OSTCBEventMultiPtr (tcb_of OS_TASK_STAT_PRIO demo_wait) = None" "\<not> suspended (tcb_of OS_TASK_STAT_PRIO demo_wait)"
    using k' demo_sem_facts(6,9) by (auto simp: d)
qed

text \<open>The idle task posts: the statistics task runs again, in the middle of \<open>OSSemPend\<close>.\<close>

definition demo_post :: kernel where
  "demo_post = snd (the (OSSemPost (Some 0) demo_wait))"

lemma demo_post_facts:
  "kernel_ok demo_post" "running demo_post OS_TASK_STAT_PRIO 1" "OS_TASK_STAT_PRIO \<in> ready demo_post"
  "OSTCBEventPtr (OSTCBTbl demo_post 1) = Some 0" "OSTCBEventMultiPtr (OSTCBTbl demo_post 1) = None"
  "OSTCBStatPend (OSTCBTbl demo_post 1) = OS_STAT_PEND_OK"
proof -
  have w: "waiters 0 demo_wait \<noteq> {}" "Min (waiters 0 demo_wait) = OS_TASK_STAT_PRIO"
    unfolding demo_wait_facts(5) by simp_all
  from OSSemPost_wakes_step [OF demo_wait_facts(1-3) w(1), unfolded w(2)]
  obtain k' where k': "OSSemPost (Some 0) demo_wait = Some (OS_ERR_NONE, k')" "kernel_ok k'" "highest_runs k'"
    "ready k' = (if suspended (tcb_of OS_TASK_STAT_PRIO demo_wait) then ready demo_wait
                 else insert OS_TASK_STAT_PRIO (ready demo_wait))"
    "OSTCBStatPend (tcb_of OS_TASK_STAT_PRIO k') = OS_STAT_PEND_OK" "\<forall>q. tcb_prio q k' = tcb_prio q demo_wait"
    "OSTCBEventMultiPtr (tcb_of OS_TASK_STAT_PRIO demo_wait) = None \<longrightarrow>
     OSTCBEventMultiPtr (tcb_of OS_TASK_STAT_PRIO k') = None \<and>
     OSTCBEventPtr (tcb_of OS_TASK_STAT_PRIO k') = OSTCBEventPtr (tcb_of OS_TASK_STAT_PRIO demo_wait)"
    by (elim exE conjE)
  have d: "demo_post = k'" by (simp add: demo_post_def k'(1))
  have t: "tcb_of OS_TASK_STAT_PRIO k' = OSTCBTbl k' 1" by (simp add: tcb_of_def k'(6) demo_wait_facts(7))
  have ns: "\<not> suspended (tcb_of OS_TASK_STAT_PRIO demo_wait)" by (rule demo_wait_facts(10))
  show "kernel_ok demo_post" "OSTCBEventPtr (OSTCBTbl demo_post 1) = Some 0" "OSTCBEventMultiPtr (OSTCBTbl demo_post 1) = None"
    "OSTCBStatPend (OSTCBTbl demo_post 1) = OS_STAT_PEND_OK" and r: "OS_TASK_STAT_PRIO \<in> ready demo_post"
    using k'(2,5,7) ns demo_wait_facts(8,9) unfolding d t [symmetric] by (simp_all add: k'(4))
  have "Min (ready k') = OS_TASK_STAT_PRIO" using ns by (simp add: k'(4) demo_wait_facts(6) min_def)
  then show "running demo_post OS_TASK_STAT_PRIO 1"
    using k'(3) unfolding d by (auto simp: highest_runs_def sched_ok_def running_def k'(6) demo_wait_facts(7))
qed

section \<open>Properties\<close>

text \<open>The abstract semaphore: a number of tokens and the priorities that wait.\<close>

record abs_sem =
  tokens :: nat
  waiting :: "INT8U set"

definition abs_post :: "abs_sem \<Rightarrow> abs_sem" where
  "abs_post s = (if waiting s = {} then s\<lparr>tokens := min 65535 (tokens s + 1)\<rparr>
                 else s\<lparr>waiting := waiting s - {Min (waiting s)}\<rparr>)"

definition abs_pend :: "INT8U \<Rightarrow> abs_sem \<Rightarrow> abs_sem" where
  "abs_pend p s = (if tokens s > 0 then s\<lparr>tokens := tokens s - 1\<rparr> else s\<lparr>waiting := insert p (waiting s)\<rparr>)"

definition sem_abs :: "nat \<Rightarrow> kernel \<Rightarrow> abs_sem" where
  "sem_abs e k = \<lparr>tokens = sem_count e k, waiting = waiters e k\<rparr>"

text \<open>C1: the semaphore refines the abstract one: a post is an abstract post, and a pend is an abstract
  pend by the calling task, which blocks exactly when there is no token.\<close>

theorem sem_refines:
  assumes "kernel_ok k" "task_level k" "sem_at e k" "at_call k p t" "p \<noteq> OS_TASK_IDLE_PRIO"
  shows "(\<exists>err k'. OSSemPost (Some e) k = Some (err, k') \<and> kernel_ok k' \<and> sem_at e k' \<and>
            sem_abs e k' = abs_post (sem_abs e k)) \<and>
         (\<exists>r k'. OSSemPend (Some e) timeout True k = Some (r, k') \<and> kernel_ok k' \<and> sem_at e k' \<and>
            sem_abs e k' = abs_pend p (sem_abs e k) \<and> (r = Blocked \<longleftrightarrow> tokens (sem_abs e k) = 0))"
proof
  show "\<exists>err k'. OSSemPost (Some e) k = Some (err, k') \<and> kernel_ok k' \<and> sem_at e k' \<and> sem_abs e k' = abs_post (sem_abs e k)"
  proof (cases "waiters e k = {}")
    case True
    then show ?thesis using OSSemPost_counts_step [OF assms(1,3) True] by (auto simp: sem_abs_def abs_post_def)
  next
    case False
    then have "sem_count e k = 0" using sem_atD(4) [OF assms(3)] by (simp add: sem_count_def)
    then show ?thesis using False OSSemPost_wakes_step [OF assms(1-3) False] by (auto simp: sem_abs_def abs_post_def)
  qed
  show "\<exists>r k'. OSSemPend (Some e) timeout True k = Some (r, k') \<and> kernel_ok k' \<and> sem_at e k' \<and>
            sem_abs e k' = abs_pend p (sem_abs e k) \<and> (r = Blocked \<longleftrightarrow> tokens (sem_abs e k) = 0)"
  proof (cases "sem_count e k = 0")
    case True
    then show ?thesis
      using OSSemPend_blocks_step [OF assms(1-3) True assms(4,5), of timeout] by (auto simp: sem_abs_def abs_pend_def)
  next
    case False
    then show ?thesis
      using OSSemPend_take [OF assms(1-3), of timeout] by (auto simp: sem_abs_def abs_pend_def)
  qed
qed

theorem sem_refines_witness:
  "\<exists>r k'. OSSemPend (Some 0) 100 True demo_sem = Some (r, k') \<and> waiting (sem_abs 0 k') = {OS_TASK_STAT_PRIO} \<and> r = Blocked"
  using sem_refines [OF demo_sem_facts(2-4,7), of 100] demo_sem_facts(5,6) by (auto simp: sem_abs_def abs_pend_def)

text \<open>C7: posting a semaphore on which tasks wait gives the token to the waiting task of highest
  priority: it leaves the wait list and is made ready unless it is suspended, the count stays 0,
  the invariant holds, and afterwards the ready task of highest priority runs.\<close>

theorem OSSemPost_wakes:
  assumes "kernel_ok k" "task_level k" "sem_at e k" "waiters e k \<noteq> {}" "p = Min (waiters e k)"
  shows "\<exists>k'. OSSemPost (Some e) k = Some (OS_ERR_NONE, k') \<and> kernel_ok k' \<and> sem_at e k' \<and> sem_count e k' = 0 \<and>
    waiters e k' = waiters e k - {p} \<and>
    ready k' = (if suspended (tcb_of p k) then ready k else insert p (ready k)) \<and>
    OSTCBStatPend (tcb_of p k') = OS_STAT_PEND_OK \<and> highest_runs k'"
  using OSSemPost_wakes_step [OF assms(1-4)] assms(5) by blast

theorem OSSemPost_wakes_witness:
  "\<exists>k'. OSSemPost (Some 0) demo_wait = Some (OS_ERR_NONE, k') \<and> waiters 0 k' = {} \<and> highest_runs k'"
proof -
  have "waiters 0 demo_wait \<noteq> {}" "OS_TASK_STAT_PRIO = Min (waiters 0 demo_wait)"
    unfolding demo_wait_facts(5) by simp_all
  from OSSemPost_wakes [OF demo_wait_facts(1-3) this]
  obtain k' where "OSSemPost (Some 0) demo_wait = Some (OS_ERR_NONE, k')" "highest_runs k'"
    "waiters 0 k' = waiters 0 demo_wait - {OS_TASK_STAT_PRIO}" by (elim exE conjE)
  then show ?thesis unfolding demo_wait_facts(5) by (intro exI [of _ k']) simp
qed

text \<open>C15: posting a semaphore nobody waits on counts one up, and reports an overflow and changes nothing
  at 65535.\<close>

theorem OSSemPost_counts:
  assumes "kernel_ok k" "sem_at e k" "waiters e k = {}"
  shows "\<exists>k' err. OSSemPost (Some e) k = Some (err, k') \<and> kernel_ok k' \<and> sem_at e k' \<and>
    sem_count e k' = min 65535 (sem_count e k + 1) \<and> (err = OS_ERR_SEM_OVF \<longleftrightarrow> sem_count e k = 65535) \<and>
    ready k' = ready k \<and> waiters e k' = {} \<and> OSTCBTbl k' = OSTCBTbl k"
  using OSSemPost_counts_step [OF assms] .

theorem OSSemPost_counts_witness: "\<exists>k' err. OSSemPost (Some 0) demo_sem = Some (err, k') \<and> sem_count 0 k' = 1"
  using OSSemPost_counts [OF demo_sem_facts(2,4,6)] demo_sem_facts(5) by auto

text \<open>C8: a task that pends on a semaphore with no token leaves the ready list, waits for the event with
  the given timeout, and the ready task of highest priority, another one, runs; the idle task is
  there to run if no other is.\<close>

theorem OSSemPend_blocks:
  assumes "kernel_ok k" "task_level k" "sem_at e k" "sem_count e k = 0" "at_call k p t" "p \<noteq> OS_TASK_IDLE_PRIO"
  shows "\<exists>k'. OSSemPend (Some e) timeout True k = Some (Blocked, k') \<and> kernel_ok k' \<and> sem_at e k' \<and>
    ready k' = ready k - {p} \<and> waiters e k' = insert p (waiters e k) \<and>
    OSTCBDly (tcb_of p k') = timeout \<and> highest_runs k' \<and> OSPrioCur k' \<noteq> p"
  using OSSemPend_blocks_step [OF assms, of timeout] by blast

theorem OSSemPend_blocks_witness:
  "\<exists>k'. OSSemPend (Some 0) 100 True demo_sem = Some (Blocked, k') \<and> ready k' = {OS_TASK_IDLE_PRIO}"
  using OSSemPend_blocks [OF demo_sem_facts(2-5,7), of 100] demo_sem_facts(9) by auto

text \<open>C14: when the waiting task runs again \<open>OSSemPend\<close> returns: no error after a post, the error of an abort,
  or a timeout; the task then waits for nothing and its control block says so.\<close>

theorem OSSemPend_returns:
  assumes "kernel_ok k" "running k p t" "p \<in> ready k" "e < OS_MAX_EVENTS"
    "OSTCBEventPtr (OSTCBTbl k t) = Some e" "OSTCBEventMultiPtr (OSTCBTbl k t) = None"
  shows "\<exists>k'. OSSemPend_resume e k =
      Some (if OSTCBStatPend (OSTCBTbl k t) = OS_STAT_PEND_OK then OS_ERR_NONE
            else if OSTCBStatPend (OSTCBTbl k t) = OS_STAT_PEND_ABORT then OS_ERR_PEND_ABORT else OS_ERR_TIMEOUT, k') \<and>
    kernel_ok k' \<and> at_call k' p t \<and> ready k' = ready k \<and> OSTCBStat (OSTCBTbl k' t) = OS_STAT_RDY"
  using OSSemPend_returns_step [OF assms] .

theorem OSSemPend_returns_witness:
  "\<exists>k'. OSSemPend_resume 0 demo_post = Some (OS_ERR_NONE, k') \<and> at_call k' OS_TASK_STAT_PRIO 1"
proof -
  have "0 < OS_MAX_EVENTS" by simp
  from OSSemPend_returns [OF demo_post_facts(1-3) this demo_post_facts(4,5)] obtain k' where
    "OSSemPend_resume 0 demo_post = Some (if OSTCBStatPend (OSTCBTbl demo_post 1) = OS_STAT_PEND_OK then OS_ERR_NONE
       else if OSTCBStatPend (OSTCBTbl demo_post 1) = OS_STAT_PEND_ABORT then OS_ERR_PEND_ABORT else OS_ERR_TIMEOUT, k')"
    "at_call k' OS_TASK_STAT_PRIO 1" by (elim exE conjE)
  then show ?thesis unfolding demo_post_facts(6) by (intro exI [of _ k']) simp
qed

text \<open>C16: deleting a semaphore with \<open>OS_DEL_ALWAYS\<close> wakes every waiting task that is not suspended, leaves
  nobody in its wait list, puts the event at the head of the free list, and lets the ready task
  of highest priority run when somebody waited.\<close>

theorem OSSemDel_always:
  assumes "kernel_ok k" "task_level k" "sem_at e k" "events_ok k es"
  shows "\<exists>k'. OSSemDel (Some e) OS_DEL_ALWAYS True k = Some (None, Some OS_ERR_NONE, k') \<and> kernel_ok k' \<and>
    events_ok k' (e # es) \<and> waiters e k' = {} \<and> ready k' = ready k \<union> {p \<in> waiters e k. \<not> suspended (tcb_of p k)} \<and>
    (waiters e k \<noteq> {} \<longrightarrow> highest_runs k')"
  using OSSemDel_step [OF assms] .

theorem OSSemDel_always_witness:
  "\<exists>k'. OSSemDel (Some 0) OS_DEL_ALWAYS True demo_sem = Some (None, Some OS_ERR_NONE, k') \<and> events_ok k' (0 # [1..<OS_MAX_EVENTS])"
  using OSSemDel_always [OF demo_sem_facts(2-4,8)] by blast

text \<open>Creating a semaphore takes the first free event: it becomes a semaphore with the given count on
  which nobody waits; the rest of the free list, the other events and the tasks are unchanged.\<close>

theorem OSSemCreate_fresh:
  assumes "kernel_ok k" "events_ok k (e # es)" "OSIntNesting k = 0"
  shows "\<exists>k'. OSSemCreate cnt k = Some (Some e, k') \<and> kernel_ok k' \<and> tasks_same k k' \<and> events_ok k' es \<and>
    sem_at e k' \<and> sem_count e k' = unat cnt \<and> waiters e k' = {} \<and>
    (\<forall>x. x \<noteq> e \<longrightarrow> OSEventTbl k' x = OSEventTbl k x)"
  using OSSemCreate_step [OF assms] .

theorem OSSemCreate_fresh_witness:
  "\<exists>k'. OSSemCreate 5 boot_kernel = Some (Some 0, k') \<and> sem_at 0 k' \<and> sem_count 0 k' = 5"
proof -
  obtain k' where "OSSemCreate 5 boot_kernel = Some (Some 0, k')" "sem_at 0 k'" "sem_count 0 k' = unat (5 :: INT16U)"
    using OSSemCreate_fresh [OF boot_facts(1) boot_facts(9) [unfolded events_cons] task_levelD(1) [OF boot_facts(7)], of 5]
    by blast
  then show ?thesis by simp
qed

end
