(* ===== verification/Os_Time.thy ===== *)
theory Os_Time
  imports Os_Sem
begin

text \<open>
  Time services, \<^verbatim>\<open>UCOSII/src/os_time.c\<close>. A delayed task runs again when the tick or
  \<open>OSTimeDlyResume\<close> has made it ready; \<open>OSTimeDlyHMSM\<close> is a sequence of delays, of which the
  model runs the first and returns the others.
\<close>

section \<open>The operations\<close>

definition OSTimeDly :: "INT16U \<Rightarrow> kernel \<Rightarrow> kernel option" where
  "OSTimeDly ticks k =
     (if OSIntNesting k > 0 then Some k
      else if ticks > 0 then do {
        k \<leftarrow> cur_unready k;
        (c, b) \<leftarrow> cur_tcb k;
        OS_Sched (set_tcb c (b\<lparr>OSTCBDly := ticks\<rparr>) k) }
      else Some k)"

text \<open>
  \<open>OS_TICKS_PER_SEC\<close> is the double 1000.0, so the number of ticks is computed in floating point
  and truncated. Every intermediate value is a multiple of one half below \<open>2 ^ 53\<close>, which a double
  holds exactly: the arithmetic is that of the reals.
\<close>

abbreviation OS_TICKS_PER_SEC :: real where "OS_TICKS_PER_SEC \<equiv> 1000"

definition hmsm_ticks :: "INT8U \<Rightarrow> INT8U \<Rightarrow> INT8U \<Rightarrow> INT16U \<Rightarrow> INT32U" where
  "hmsm_ticks hours minutes seconds ms =
     (let secs = (ucast hours * 3600 + ucast minutes * 60 + ucast seconds :: INT32U)
      in of_int \<lfloor>real (unat secs) * OS_TICKS_PER_SEC +
           OS_TICKS_PER_SEC * (real (unat (ucast ms :: INT32U)) + 500 / OS_TICKS_PER_SEC) / 1000\<rfloor>)"

text \<open>The arguments of the successive calls of \<open>OSTimeDly\<close>.\<close>

definition hmsm_delays :: "INT32U \<Rightarrow> INT16U list" where
  "hmsm_delays ticks =
     (let loops = (ucast (drop_bit 16 ticks) :: INT16U)
      in ucast (ticks AND 0xFFFF) # concat (replicate (unat loops) [32768, 32768]))"

definition OSTimeDlyHMSM ::
  "INT8U \<Rightarrow> INT8U \<Rightarrow> INT8U \<Rightarrow> INT16U \<Rightarrow> kernel \<Rightarrow> (INT8U \<times> INT16U list \<times> kernel) option" where
  "OSTimeDlyHMSM hours minutes seconds ms k =
     (if OSIntNesting k > 0 then Some (OS_ERR_TIME_DLY_ISR, [], k)
      else if hours = 0 \<and> minutes = 0 \<and> seconds = 0 \<and> ms = 0 then Some (OS_ERR_TIME_ZERO_DLY, [], k)
      else if minutes > 59 then Some (OS_ERR_TIME_INVALID_MINUTES, [], k)
      else if seconds > 59 then Some (OS_ERR_TIME_INVALID_SECONDS, [], k)
      else if ms > 999 then Some (OS_ERR_TIME_INVALID_MS, [], k)
      else let ds = hmsm_delays (hmsm_ticks hours minutes seconds ms)
           in do { k \<leftarrow> OSTimeDly (hd ds) k; Some (OS_ERR_NONE, tl ds, k) })"

definition OSTimeDlyResume :: "INT8U \<Rightarrow> kernel \<Rightarrow> (INT8U \<times> kernel) option" where
  "OSTimeDlyResume prio k =
     (if prio \<ge> of_nat OS_LOWEST_PRIO then Some (OS_ERR_PRIO_INVALID, k)
      else do {
        e \<leftarrow> prio_at prio k;
        case e of
          PTcb t \<Rightarrow> do {
            b \<leftarrow> tcb_at t k;
            if OSTCBDly b = 0 then Some (OS_ERR_TIME_NOT_DLY, k)
            else do {
              let b = b\<lparr>OSTCBDly := 0\<rparr>;
              let b = (if OSTCBStat b AND OS_STAT_PEND_ANY \<noteq> OS_STAT_RDY
                       then b\<lparr>OSTCBStat := OSTCBStat b AND NOT OS_STAT_PEND_ANY, OSTCBStatPend := OS_STAT_PEND_TO\<rparr>
                       else b\<lparr>OSTCBStatPend := OS_STAT_PEND_OK\<rparr>);
              let k = set_tcb t b k;
              k \<leftarrow> (if OSTCBStat b AND OS_STAT_SUSPEND = OS_STAT_RDY
                    then do { k \<leftarrow> make_ready (OSTCBY b) b k; OS_Sched k }
                    else Some k);
              Some (OS_ERR_NONE, k) } }
        | _ \<Rightarrow> Some (OS_ERR_TASK_NOT_EXIST, k) })"

definition OSTimeGet :: "kernel \<Rightarrow> INT32U" where
  "OSTimeGet k = OSTime k"

definition OSTimeSet :: "INT32U \<Rightarrow> kernel \<Rightarrow> kernel" where
  "OSTimeSet ticks k = k\<lparr>OSTime := ticks\<rparr>"

section \<open>Statistics\<close>

text \<open>
  \<open>OSStatInit\<close> and the statistics task of \<^verbatim>\<open>os_core.c\<close> in the pieces between their delays:
  \<open>OSStatInit\<close> delays, clears the idle counter, delays again, and takes the count; the task waits
  until then, divides the maximum, and repeats one round for ever.
\<close>

definition OSStatInit_start :: "kernel \<Rightarrow> kernel option" where
  "OSStatInit_start k = OSTimeDly 2 k"

definition OSStatInit_clear :: "kernel \<Rightarrow> kernel option" where
  "OSStatInit_clear k = OSTimeDly 100 (k\<lparr>OSIdleCtr := 0\<rparr>)"

definition OSStatInit_end :: "kernel \<Rightarrow> kernel" where
  "OSStatInit_end k = k\<lparr>OSIdleCtrMax := OSIdleCtr k, OSStatRdy := True\<rparr>"

text \<open>The local variable of the caller of \<open>OSTaskStkChk\<close> starts with arbitrary contents \<open>d\<close>.\<close>

definition stat_stk_chk :: "os_stk_data \<Rightarrow> INT8U \<Rightarrow> kernel \<Rightarrow> kernel option" where
  "stat_stk_chk d prio k = do {
     (err, d') \<leftarrow> OSTaskStkChk prio (Some d) k;
     if err = OS_ERR_NONE then do {
       e \<leftarrow> prio_at prio k;
       case e of
         PTcb t \<Rightarrow> do {
           b \<leftarrow> tcb_at t k;
           d \<leftarrow> d';
           Some (set_tcb t (b\<lparr>OSTCBStkBase := OSTCBStkBottom b + 4 * OSTCBStkSize b, OSTCBStkUsed := OSUsed d\<rparr>) k) }
       | _ \<Rightarrow> Some k }
     else Some k }"

fun stat_stk_chks :: "os_stk_data \<Rightarrow> INT8U list \<Rightarrow> kernel \<Rightarrow> kernel option" where
  "stat_stk_chks d [] k = Some k"
| "stat_stk_chks d (p # ps) k = do { k \<leftarrow> stat_stk_chk d p k; stat_stk_chks d ps k }"

definition OS_TaskStatStkChk :: "os_stk_data \<Rightarrow> kernel \<Rightarrow> kernel option" where
  "OS_TaskStatStkChk d k = stat_stk_chks d (map of_nat [0..<Suc (unat OS_TASK_IDLE_PRIO)]) k"

definition OS_TaskStat_wait :: "kernel \<Rightarrow> kernel option" where
  "OS_TaskStat_wait k = OSTimeDly 200 k"

definition OS_TaskStat_start :: "kernel \<Rightarrow> kernel option" where
  "OS_TaskStat_start k =
     (let k = k\<lparr>OSIdleCtrMax := OSIdleCtrMax k div 100\<rparr>
      in if OSIdleCtrMax k = 0
         then do { (_, k) \<leftarrow> OSTaskSuspend OS_PRIO_SELF (k\<lparr>OSCPUUsage := 0\<rparr>); Some k }
         else Some k)"

definition OS_TaskStat_round :: "os_stk_data \<Rightarrow> kernel \<Rightarrow> kernel option" where
  "OS_TaskStat_round d k =
     (let k = k\<lparr>OSIdleCtrRun := OSIdleCtr k, OSIdleCtr := 0\<rparr>
      in if OSIdleCtrMax k = 0 then None
         else do {
           let k = k\<lparr>OSCPUUsage := ucast (100 - OSIdleCtrRun k div OSIdleCtrMax k)\<rparr>;
           k \<leftarrow> OS_TaskStatStkChk d k;
           OSTimeDly 100 k })"

end
