(* ===== verification/Os_Mem.thy ===== *)
theory Os_Mem
  imports Os_Boot "HOL-Library.Multiset"
begin

text \<open>
  Memory partitions, \<^verbatim>\<open>UCOSII/src/os_mem.c\<close>. A partition keeps its free blocks in a list that
  is linked through the first word of each block; the words are those of \<open>OSRam\<close>, and NULL is
  the address 0.
\<close>

section \<open>The operations\<close>

abbreviation OS_ERR_MEM_INVALID_PART :: INT8U where "OS_ERR_MEM_INVALID_PART \<equiv> 90"
abbreviation OS_ERR_MEM_INVALID_BLKS :: INT8U where "OS_ERR_MEM_INVALID_BLKS \<equiv> 91"
abbreviation OS_ERR_MEM_INVALID_SIZE :: INT8U where "OS_ERR_MEM_INVALID_SIZE \<equiv> 92"
abbreviation OS_ERR_MEM_NO_FREE_BLKS :: INT8U where "OS_ERR_MEM_NO_FREE_BLKS \<equiv> 93"
abbreviation OS_ERR_MEM_FULL :: INT8U where "OS_ERR_MEM_FULL \<equiv> 94"
abbreviation OS_ERR_MEM_INVALID_PBLK :: INT8U where "OS_ERR_MEM_INVALID_PBLK \<equiv> 95"
abbreviation OS_ERR_MEM_INVALID_PMEM :: INT8U where "OS_ERR_MEM_INVALID_PMEM \<equiv> 96"
abbreviation OS_ERR_MEM_INVALID_PDATA :: INT8U where "OS_ERR_MEM_INVALID_PDATA \<equiv> 97"
abbreviation OS_ERR_MEM_INVALID_ADDR :: INT8U where "OS_ERR_MEM_INVALID_ADDR \<equiv> 98"
abbreviation OS_ERR_MEM_NAME_TOO_LONG :: INT8U where "OS_ERR_MEM_NAME_TOO_LONG \<equiv> 99"

definition mem_at :: "nat \<Rightarrow> kernel \<Rightarrow> os_mem option" where
  "mem_at p k = (if p < OS_MAX_MEM_PART then Some (OSMemTbl k p) else None)"

definition set_mem :: "nat \<Rightarrow> os_mem \<Rightarrow> kernel \<Rightarrow> kernel" where
  "set_mem p m k = k\<lparr>OSMemTbl := (OSMemTbl k)(p := m)\<rparr>"

text \<open>The two readings of the field \<open>OSMemFreeList\<close>: the next partition, or the first free block.\<close>

fun mem_link :: "vptr \<Rightarrow> nat option option" where
  "mem_link VNull = Some None"
| "mem_link (VMem p) = Some (Some p)"
| "mem_link _ = None"

fun blk_addr :: "vptr \<Rightarrow> INT32U option" where
  "blk_addr VNull = Some 0"
| "blk_addr (VAddr a) = Some a"
| "blk_addr _ = None"

definition blk_ptr :: "INT32U \<Rightarrow> vptr" where
  "blk_ptr a = (if a = 0 then VNull else VAddr a)"

text \<open>The loop of \<open>OSMemCreate\<close>: \<open>n\<close> blocks are linked to the one after them, the last to NULL.\<close>

fun link_blks :: "INT32U \<Rightarrow> nat \<Rightarrow> INT32U \<Rightarrow> (INT32U \<Rightarrow> INT32U) \<Rightarrow> (INT32U \<Rightarrow> INT32U)" where
  "link_blks blksize 0 plink m = m(plink := 0)"
| "link_blks blksize (Suc n) plink m =
     (let pblk = plink + blksize in link_blks blksize n pblk (m(plink := pblk)))"

definition OSMemCreate ::
  "INT32U \<Rightarrow> INT32U \<Rightarrow> INT32U \<Rightarrow> bool \<Rightarrow> kernel \<Rightarrow> (nat option \<times> INT8U option \<times> kernel) option" where
  "OSMemCreate addr nblks blksize perr k =
     (if \<not> perr then Some (None, None, k)
      else if addr = 0 then Some (None, Some OS_ERR_MEM_INVALID_ADDR, k)
      else if addr AND 3 \<noteq> 0 then Some (None, Some OS_ERR_MEM_INVALID_ADDR, k)
      else if nblks < 2 then Some (None, Some OS_ERR_MEM_INVALID_BLKS, k)
      else if blksize < 4 then Some (None, Some OS_ERR_MEM_INVALID_SIZE, k)
      else case OSMemFreeList k of
        None \<Rightarrow> Some (None, Some OS_ERR_MEM_INVALID_PART, k)
      | Some p \<Rightarrow> do {
          m \<leftarrow> mem_at p k;
          next \<leftarrow> mem_link (OSMemFreeBlk m);
          let k = k\<lparr>OSMemFreeList := next, OSRam := link_blks blksize (unat (nblks - 1)) addr (OSRam k)\<rparr>;
          Some (Some p, Some OS_ERR_NONE,
            set_mem p (m\<lparr>OSMemAddr := addr, OSMemFreeBlk := VAddr addr, OSMemNFree := nblks, OSMemNBlks := nblks,
                        OSMemBlkSize := blksize\<rparr>) k) })"

definition OSMemGet :: "nat option \<Rightarrow> bool \<Rightarrow> kernel \<Rightarrow> (INT32U \<times> INT8U option \<times> kernel) option" where
  "OSMemGet pmem perr k =
     (if \<not> perr then Some (0, None, k)
      else case pmem of None \<Rightarrow> Some (0, Some OS_ERR_MEM_INVALID_PMEM, k)
      | Some p \<Rightarrow> do {
          m \<leftarrow> mem_at p k;
          if OSMemNFree m > 0 then do {
            pblk \<leftarrow> blk_addr (OSMemFreeBlk m);
            if pblk = 0 then None
            else Some (pblk, Some OS_ERR_NONE,
              set_mem p (m\<lparr>OSMemFreeBlk := blk_ptr (OSRam k pblk), OSMemNFree := OSMemNFree m - 1\<rparr>) k) }
          else Some (0, Some OS_ERR_MEM_NO_FREE_BLKS, k) })"

definition OSMemNameGet ::
  "nat option \<Rightarrow> INT8U list option \<Rightarrow> bool \<Rightarrow> kernel \<Rightarrow> (INT8U \<times> INT8U option \<times> INT8U list option) option" where
  "OSMemNameGet pmem pname perr k =
     (if \<not> perr then Some (0, None, pname)
      else case pmem of None \<Rightarrow> Some (0, Some OS_ERR_MEM_INVALID_PMEM, pname)
      | Some p \<Rightarrow> (case pname of None \<Rightarrow> Some (0, Some OS_ERR_PNAME_NULL, pname)
      | Some buf \<Rightarrow>
         if OSIntNesting k > 0 then Some (0, Some OS_ERR_NAME_GET_ISR, pname)
         else do {
           m \<leftarrow> mem_at p k;
           (len, buf') \<leftarrow> OS_StrCopy buf (OSMemName m);
           Some (len, Some OS_ERR_NONE, Some buf') }))"

definition OSMemNameSet ::
  "nat option \<Rightarrow> INT8U list option \<Rightarrow> bool \<Rightarrow> kernel \<Rightarrow> (INT8U option \<times> kernel) option" where
  "OSMemNameSet pmem pname perr k =
     (if \<not> perr then Some (None, k)
      else case pmem of None \<Rightarrow> Some (Some OS_ERR_MEM_INVALID_PMEM, k)
      | Some p \<Rightarrow> (case pname of None \<Rightarrow> Some (Some OS_ERR_PNAME_NULL, k)
      | Some name \<Rightarrow>
         if OSIntNesting k > 0 then Some (Some OS_ERR_NAME_SET_ISR, k)
         else do {
           m \<leftarrow> mem_at p k;
           len \<leftarrow> OS_StrLen name;
           if len > of_nat (OS_MEM_NAME_SIZE - 1) then Some (Some OS_ERR_MEM_NAME_TOO_LONG, k)
           else do {
             (_, buf) \<leftarrow> OS_StrCopy (OSMemName m) name;
             Some (Some OS_ERR_NONE, set_mem p (m\<lparr>OSMemName := buf\<rparr>) k) } }))"

definition OSMemPut :: "nat option \<Rightarrow> INT32U \<Rightarrow> kernel \<Rightarrow> (INT8U \<times> kernel) option" where
  "OSMemPut pmem pblk k =
     (case pmem of None \<Rightarrow> Some (OS_ERR_MEM_INVALID_PMEM, k)
      | Some p \<Rightarrow>
         if pblk = 0 then Some (OS_ERR_MEM_INVALID_PBLK, k)
         else do {
           m \<leftarrow> mem_at p k;
           if OSMemNFree m \<ge> OSMemNBlks m then Some (OS_ERR_MEM_FULL, k)
           else do {
             free \<leftarrow> blk_addr (OSMemFreeBlk m);
             Some (OS_ERR_NONE,
               set_mem p (m\<lparr>OSMemFreeBlk := VAddr pblk, OSMemNFree := OSMemNFree m + 1\<rparr>)
                 (k\<lparr>OSRam := (OSRam k)(pblk := free)\<rparr>)) } })"

record os_mem_data =
  OSAddr :: INT32U
  OSFreeList :: vptr
  OSBlkSize :: INT32U
  OSNBlks :: INT32U
  OSNFree :: INT32U
  OSNUsed :: INT32U

definition OSMemQuery :: "nat option \<Rightarrow> bool \<Rightarrow> kernel \<Rightarrow> (INT8U \<times> os_mem_data option) option" where
  "OSMemQuery pmem p_mem_data k =
     (case pmem of None \<Rightarrow> Some (OS_ERR_MEM_INVALID_PMEM, None)
      | Some p \<Rightarrow>
         if \<not> p_mem_data then Some (OS_ERR_MEM_INVALID_PDATA, None)
         else do {
           m \<leftarrow> mem_at p k;
           Some (OS_ERR_NONE, Some \<lparr>OSAddr = OSMemAddr m, OSFreeList = OSMemFreeBlk m, OSBlkSize = OSMemBlkSize m,
             OSNBlks = OSMemNBlks m, OSNFree = OSMemNFree m, OSNUsed = OSMemNBlks m - OSMemNFree m\<rparr>) })"

section \<open>Free lists\<close>

text \<open>
  \<open>blks m a bs\<close>: from the block \<open>a\<close> on, the words of memory link the blocks \<open>bs\<close>.
\<close>

fun blks :: "(INT32U \<Rightarrow> INT32U) \<Rightarrow> INT32U \<Rightarrow> INT32U list \<Rightarrow> bool" where
  "blks m a [] \<longleftrightarrow> a = 0"
| "blks m a (b # bs) \<longleftrightarrow> a = b \<and> b \<noteq> 0 \<and> blks m (m b) bs"

lemma blks_upd: "a \<notin> set bs \<Longrightarrow> blks (m(a := x)) b bs = blks m b bs"
  by (induction bs arbitrary: b) auto

definition part_blks :: "INT32U \<Rightarrow> INT32U \<Rightarrow> nat \<Rightarrow> INT32U list" where
  "part_blks addr blksize n = map (\<lambda>i. addr + of_nat i * blksize) [0..<n]"

definition mem_ok :: "nat \<Rightarrow> kernel \<Rightarrow> INT32U list \<Rightarrow> bool" where
  "mem_ok p k bs \<longleftrightarrow> p < OS_MAX_MEM_PART \<and> distinct bs \<and>
     (\<exists>a. blk_addr (OSMemFreeBlk (OSMemTbl k p)) = Some a \<and> blks (OSRam k) a bs) \<and>
     unat (OSMemNFree (OSMemTbl k p)) = length bs \<and> OSMemNFree (OSMemTbl k p) \<le> OSMemNBlks (OSMemTbl k p)"

lemma link_blks_other: "a \<notin> set (part_blks plink blksize (Suc n)) \<Longrightarrow> link_blks blksize n plink m a = m a"
proof (induction n arbitrary: plink m)
  case 0
  then show ?case by (simp add: part_blks_def)
next
  case (Suc n)
  have "set (part_blks plink blksize (Suc (Suc n))) = insert plink (set (part_blks (plink + blksize) blksize (Suc n)))"
    unfolding part_blks_def by (subst upt_conv_Cons) (auto simp: map_Suc_upt [symmetric] algebra_simps simp del: upt_Suc)
  with Suc show ?case by (simp add: Let_def)
qed

section \<open>The blocks of a new partition\<close>

lemma part_blk_unat:
  fixes addr blksize :: INT32U
  assumes "unat addr + n * unat blksize \<le> 2 ^ 32" "i < n" "0 < unat blksize"
  shows "unat (addr + of_nat i * blksize) = unat addr + i * unat blksize"
proof -
  have "i * unat blksize < n * unat blksize" using assms by simp
  then have "unat addr + i * unat blksize < 2 ^ 32" using assms(1) by linarith
  then have "unat (of_nat (unat addr + i * unat blksize) :: INT32U) = unat addr + i * unat blksize"
    by (intro unat_of_nat_small) simp
  moreover have "of_nat (unat addr + i * unat blksize) = addr + of_nat i * blksize" by simp
  ultimately show ?thesis by simp
qed

lemma part_blks_distinct:
  fixes addr blksize :: INT32U
  assumes "unat addr + n * unat blksize \<le> 2 ^ 32" "addr \<noteq> 0" "0 < unat blksize"
  shows "distinct (part_blks addr blksize n)" "0 \<notin> set (part_blks addr blksize n)"
proof -
  note u = part_blk_unat [OF assms(1) _ assms(3)]
  have "inj_on (\<lambda>i. addr + of_nat i * blksize) {0..<n}"
  proof (rule inj_onI)
    fix i j assume a: "i \<in> {0..<n}" "j \<in> {0..<n}" "addr + of_nat i * blksize = addr + of_nat j * blksize"
    then have "unat addr + i * unat blksize = unat addr + j * unat blksize"
      using u [of i] u [of j] by (metis atLeastLessThan_iff)
    then have "i * unat blksize = j * unat blksize" by simp
    then show "i = j" using assms(3) by simp
  qed
  then show "distinct (part_blks addr blksize n)" by (simp add: part_blks_def distinct_map)
  have "addr + of_nat i * blksize \<noteq> 0" if "i < n" for i
    using u [OF that] assms(2) by (metis add_is_0 unat_0 unat_eq_zero)
  then show "0 \<notin> set (part_blks addr blksize n)" by (auto simp: part_blks_def)
qed

lemma part_blks_Suc: "part_blks addr blksize (Suc n) = addr # part_blks (addr + blksize) blksize n"
  unfolding part_blks_def by (subst upt_conv_Cons) (auto simp: map_Suc_upt [symmetric] algebra_simps simp del: upt_Suc)

lemma link_blks_chain:
  assumes "distinct (part_blks plink blksize (Suc n))" "0 \<notin> set (part_blks plink blksize (Suc n))"
  shows "blks (link_blks blksize n plink m) plink (part_blks plink blksize (Suc n))"
  using assms
proof (induction n arbitrary: plink m)
  case 0
  then show ?case by (simp add: part_blks_def)
next
  case (Suc n)
  note d = Suc.prems [unfolded part_blks_Suc [of plink]]
  have "link_blks blksize n (plink + blksize) (m(plink := plink + blksize)) plink = plink + blksize"
    using d(1) by (simp add: link_blks_other)
  then show ?case
    using Suc.IH [of "plink + blksize"] d by (subst part_blks_Suc) (simp add: Let_def)
qed

text \<open>The partition control block \<open>p\<close> is the next one to be handed out.\<close>

definition mem_free_ok :: "nat \<Rightarrow> kernel \<Rightarrow> bool" where
  "mem_free_ok p k \<longleftrightarrow> OSMemFreeList k = Some p \<and> p < OS_MAX_MEM_PART \<and> mem_link (OSMemFreeBlk (OSMemTbl k p)) \<noteq> None"

lemma OSMemCreate_step:
  assumes "mem_free_ok p k" "addr \<noteq> 0" "addr AND 3 = 0" "2 \<le> nblks" "4 \<le> blksize"
    "unat addr + unat nblks * unat blksize \<le> 2 ^ 32"
  shows "\<exists>k'. OSMemCreate addr nblks blksize True k = Some (Some p, Some OS_ERR_NONE, k') \<and>
    mem_ok p k' (part_blks addr blksize (unat nblks)) \<and> OSMemNBlks (OSMemTbl k' p) = nblks \<and> OSMemBlkSize (OSMemTbl k' p) = blksize"
proof -
  have u: "0 < unat blksize" "2 \<le> unat nblks" using assms(4,5) by (simp_all add: word_le_nat_alt)
  then have n: "unat nblks = Suc (unat (nblks - 1))" by (subst unat_minus_one) auto
  note d = part_blks_distinct [OF assms(6,2) u(1)]
  from assms(1) obtain l where l: "mem_link (OSMemFreeBlk (OSMemTbl k p)) = Some l" by (auto simp: mem_free_ok_def)
  have b: "blks (link_blks blksize (unat (nblks - 1)) addr (OSRam k)) addr (part_blks addr blksize (unat nblks))"
    using link_blks_chain d unfolding n by blast
  show ?thesis
    using assms(1-5) l b d
    by (simp add: OSMemCreate_def mem_free_ok_def mem_at_def set_mem_def mem_ok_def Let_def not_less part_blks_def)
qed

section \<open>The partition as a pool of blocks\<close>

definition mem_take :: "nat \<Rightarrow> kernel \<Rightarrow> (INT32U option \<times> kernel) option" where
  "mem_take p k = do {
     (pblk, err, k) \<leftarrow> OSMemGet (Some p) True k;
     Some (if err = Some OS_ERR_NONE then Some pblk else None, k) }"

definition mem_give :: "nat \<Rightarrow> INT32U \<Rightarrow> kernel \<Rightarrow> kernel option" where
  "mem_give p pblk k = do { (err, k) \<leftarrow> OSMemPut (Some p) pblk k; if err = OS_ERR_NONE then Some k else None }"

lemma blk_addr_ptr [simp]: "blk_addr (blk_ptr a) = Some a"
  by (simp add: blk_ptr_def)

lemma OSMemGet_step:
  assumes "mem_ok p k (b # bs)"
  shows "\<exists>k'. OSMemGet (Some p) True k = Some (b, Some OS_ERR_NONE, k') \<and> mem_ok p k' bs \<and> b \<noteq> 0 \<and> OSRam k' = OSRam k \<and>
    OSMemNBlks (OSMemTbl k' p) = OSMemNBlks (OSMemTbl k p) \<and> OSMemBlkSize (OSMemTbl k' p) = OSMemBlkSize (OSMemTbl k p)"
proof -
  let ?m = "OSMemTbl k p"
  have m: "p < OS_MAX_MEM_PART" "b \<notin> set bs" "distinct bs" "blk_addr (OSMemFreeBlk ?m) = Some b" "b \<noteq> 0" "blks (OSRam k) (OSRam k b) bs"
    "unat (OSMemNFree ?m) = Suc (length bs)" "OSMemNFree ?m \<le> OSMemNBlks ?m"
    using assms by (auto simp: mem_ok_def)
  have g: "0 < OSMemNFree ?m" using m(7) by (simp add: word_less_nat_alt)
  then have "unat (OSMemNFree ?m - 1) = length bs" using m(7) by (subst unat_minus_one) auto
  moreover have "OSMemNFree ?m - 1 \<le> OSMemNBlks ?m" using m(8) g by (simp add: word_le_nat_alt calculation m(7))
  ultimately show ?thesis using m g by (simp add: OSMemGet_def mem_at_def set_mem_def mem_ok_def)
qed

lemma OSMemGet_empty:
  assumes "mem_ok p k []"
  shows "OSMemGet (Some p) True k = Some (0, Some OS_ERR_MEM_NO_FREE_BLKS, k)"
proof -
  have "unat (OSMemNFree (OSMemTbl k p)) = 0" using assms by (simp add: mem_ok_def)
  then have "OSMemNFree (OSMemTbl k p) = 0" by (simp add: unat_eq_zero)
  then show ?thesis using assms by (simp add: OSMemGet_def mem_at_def mem_ok_def)
qed

lemma OSMemPut_step:
  assumes "mem_ok p k bs" "b \<noteq> 0" "b \<notin> set bs" "length bs < unat (OSMemNBlks (OSMemTbl k p))"
  shows "\<exists>k'. OSMemPut (Some p) b k = Some (OS_ERR_NONE, k') \<and> mem_ok p k' (b # bs) \<and>
    OSMemNBlks (OSMemTbl k' p) = OSMemNBlks (OSMemTbl k p) \<and> OSMemBlkSize (OSMemTbl k' p) = OSMemBlkSize (OSMemTbl k p)"
proof -
  let ?m = "OSMemTbl k p"
  obtain a where m: "p < OS_MAX_MEM_PART" "distinct bs" "blk_addr (OSMemFreeBlk ?m) = Some a" "blks (OSRam k) a bs"
    "unat (OSMemNFree ?m) = length bs"
    using assms(1) by (auto simp: mem_ok_def)
  have lt: "OSMemNFree ?m < OSMemNBlks ?m" using assms(4) m(5) by (simp add: word_less_nat_alt)
  have "unat (OSMemNFree ?m + 1) = Suc (length bs)"
    using unsigned_less [of "OSMemNBlks ?m", where 'a = nat] assms(4) m(5) by (subst unat_word_ariths) simp
  moreover have "OSMemNFree ?m + 1 \<le> OSMemNBlks ?m" using calculation assms(4) by (simp add: word_le_nat_alt)
  ultimately show ?thesis
    using m assms(2,3) lt by (simp add: OSMemPut_def mem_at_def set_mem_def mem_ok_def blks_upd not_le)
qed

lemma OSMemPut_full:
  assumes "mem_ok p k bs" "b \<noteq> 0" "length bs = unat (OSMemNBlks (OSMemTbl k p))"
  shows "OSMemPut (Some p) b k = Some (OS_ERR_MEM_FULL, k)"
proof -
  have "OSMemNFree (OSMemTbl k p) = OSMemNBlks (OSMemTbl k p)"
    using assms(1,3) by (simp add: mem_ok_def flip: word_unat_eq_iff)
  then show ?thesis using assms(1,2) by (simp add: OSMemPut_def mem_at_def mem_ok_def)
qed

interpretation mem: pool "mem_ok p" "mem_take p" "mem_give p"
  "\<lambda>b k. b \<noteq> 0 \<and> OSMemNFree (OSMemTbl k p) < OSMemNBlks (OSMemTbl k p)" for p
proof unfold_locales
  show "distinct bs" if "mem_ok p k bs" for k bs using that by (simp add: mem_ok_def)
  show "mem_take p k = Some (None, k)" if "mem_ok p k []" for k
    using OSMemGet_empty [OF that] by (simp add: mem_take_def)
  show "\<exists>k'. mem_take p k = Some (Some b, k') \<and> mem_ok p k' bs" if "mem_ok p k (b # bs)" for k b bs
    using OSMemGet_step [OF that] by (auto simp: mem_take_def)
  show "\<exists>k'. mem_give p b k = Some k' \<and> mem_ok p k' (b # bs)"
    if "mem_ok p k bs" "b \<notin> set bs" "b \<noteq> 0 \<and> OSMemNFree (OSMemTbl k p) < OSMemNBlks (OSMemTbl k p)" for k bs b
    using OSMemPut_step [OF that(1) _ that(2)] that(1,3) by (auto simp: mem_give_def mem_ok_def word_less_nat_alt)
qed


section \<open>Partitions and their clients\<close>

text \<open>
  What the tasks that share a partition do: they get blocks, give back blocks they hold, and write
  words inside of the blocks they hold. The list is that of the blocks that are held.
\<close>

inductive mem_step :: "nat \<Rightarrow> INT32U list \<times> kernel \<Rightarrow> INT32U list \<times> kernel \<Rightarrow> bool" for p where
  get: "OSMemGet (Some p) True k = Some (b, err, k') \<Longrightarrow>
    mem_step p (held, k) (if err = Some OS_ERR_NONE then b # held else held, k')"
| put: "b \<in> set held \<Longrightarrow> OSMemPut (Some p) b k = Some (err, k') \<Longrightarrow> mem_step p (held, k) (remove1 b held, k')"
| use: "b \<in> set held \<Longrightarrow> unat b \<le> unat a \<Longrightarrow> unat a + 4 \<le> unat b + unat (OSMemBlkSize (OSMemTbl k p)) \<Longrightarrow>
    mem_step p (held, k) (held, k\<lparr>OSRam := (OSRam k)(a := v)\<rparr>)"

inductive_cases mem_step_cases: "mem_step p (held, k) c"

definition apart :: "nat \<Rightarrow> INT32U \<Rightarrow> INT32U \<Rightarrow> bool" where
  "apart n b c \<longleftrightarrow> unat b + n \<le> unat c \<or> unat c + n \<le> unat b"

lemma part_blks_apart:
  fixes addr blksize :: INT32U
  assumes "unat addr + n * unat blksize \<le> 2 ^ 32" "0 < unat blksize"
    "b \<in> set (part_blks addr blksize n)" "c \<in> set (part_blks addr blksize n)" "b \<noteq> c"
  shows "apart (unat blksize) b c"
proof -
  note u = part_blk_unat [OF assms(1) _ assms(2)]
  obtain i j where ij: "b = addr + of_nat i * blksize" "i < n" "c = addr + of_nat j * blksize" "j < n"
    using assms(3,4) by (auto simp: part_blks_def)
  have "i < j \<or> j < i" using assms(5) ij by (metis linorder_neqE_nat)
  then have "Suc i * unat blksize \<le> j * unat blksize \<or> Suc j * unat blksize \<le> i * unat blksize"
    by (metis Suc_leI mult_le_mono1)
  then show ?thesis using u [OF ij(2)] u [OF ij(4)] ij(1,3) by (auto simp: apart_def)
qed

definition mem_shared :: "nat \<Rightarrow> INT32U \<Rightarrow> INT32U \<Rightarrow> INT32U \<Rightarrow> INT32U list \<Rightarrow> kernel \<Rightarrow> INT32U list \<Rightarrow> bool" where
  "mem_shared p addr nblks blksize held k bs \<longleftrightarrow> mem_ok p k bs \<and> mset (held @ bs) = mset (part_blks addr blksize (unat nblks)) \<and>
     OSMemNBlks (OSMemTbl k p) = nblks \<and> OSMemBlkSize (OSMemTbl k p) = blksize"

lemma mem_sharedD:
  assumes "mem_shared p addr nblks blksize held k bs" "unat addr + unat nblks * unat blksize \<le> 2 ^ 32" "addr \<noteq> 0" "4 \<le> blksize"
  shows "distinct (held @ bs)" "set (held @ bs) = set (part_blks addr blksize (unat nblks))" "0 \<notin> set (held @ bs)"
    "length held + length bs = unat nblks" "\<And>b c. b \<in> set (held @ bs) \<Longrightarrow> c \<in> set (held @ bs) \<Longrightarrow> b \<noteq> c \<Longrightarrow> apart (unat blksize) b c"
proof -
  have m: "mset (held @ bs) = mset (part_blks addr blksize (unat nblks))" using assms(1) by (simp only: mem_shared_def)
  have u: "0 < unat blksize" using assms(4) by (simp add: word_le_nat_alt)
  note d = part_blks_distinct [OF assms(2,3) u]
  show s: "set (held @ bs) = set (part_blks addr blksize (unat nblks))" using mset_eq_setD [OF m] .
  show "distinct (held @ bs)" using d(1) mset_eq_imp_distinct_iff [OF m] by blast
  show "0 \<notin> set (held @ bs)" using d(2) s by blast
  show "length held + length bs = unat nblks" using mset_eq_length [OF m] by (simp add: part_blks_def)
  show "apart (unat blksize) b c" if "b \<in> set (held @ bs)" "c \<in> set (held @ bs)" "b \<noteq> c" for b c
    using part_blks_apart [OF assms(2) u] that unfolding s by blast
qed

lemma mem_held:
  assumes "mem_shared p addr nblks blksize held k bs" "unat addr + unat nblks * unat blksize \<le> 2 ^ 32" "addr \<noteq> 0" "4 \<le> blksize"
    "b \<in> set held"
  shows "b \<noteq> 0" "b \<notin> set bs" "length bs < unat nblks"
proof -
  note D = mem_sharedD [OF assms(1-4)]
  show "b \<noteq> 0" "b \<notin> set bs" using D(1,3) assms(5) by auto
  have "0 < length held" using assms(5) by (cases held) auto
  then show "length bs < unat nblks" using D(4) by linarith
qed

lemma mem_ok_write: "a \<notin> set bs \<Longrightarrow> mem_ok p (k\<lparr>OSRam := (OSRam k)(a := v)\<rparr>) bs = mem_ok p k bs"
  by (simp add: mem_ok_def blks_upd)

lemma mem_shared_step:
  assumes I: "mem_shared p addr nblks blksize held k bs" and range: "unat addr + unat nblks * unat blksize \<le> 2 ^ 32" "addr \<noteq> 0" "4 \<le> blksize"
    and step: "mem_step p (held, k) c"
  shows "\<exists>bs'. mem_shared p addr nblks blksize (fst c) (snd c) bs'"
proof -
  note D = mem_sharedD [OF I range]
  have ok: "mem_ok p k bs" "OSMemNBlks (OSMemTbl k p) = nblks" "OSMemBlkSize (OSMemTbl k p) = blksize"
    "mset (held @ bs) = mset (part_blks addr blksize (unat nblks))"
    using I by (simp_all add: mem_shared_def)
  from step show ?thesis
  proof (cases rule: mem_step_cases [consumes 1, case_names get put use])
    case (get b err k')
    show ?thesis
    proof (cases bs)
      case Nil
      then show ?thesis using OSMemGet_empty [of p k] ok(1) get I by auto
    next
      case (Cons b' bs')
      then show ?thesis using OSMemGet_step [of p k b' bs'] ok get by (auto simp: mem_shared_def)
    qed
  next
    case (put b err k')
    note b = mem_held [OF I range put(2)]
    have "mset (remove1 b held @ b # bs) = mset (held @ bs)" using put(2) by simp
    with ok(4) have m: "mset (remove1 b held @ b # bs) = mset (part_blks addr blksize (unat nblks))" by simp
    show ?thesis using OSMemPut_step [OF ok(1) b(1,2)] b(3) ok(2,3) put(1,3) m
      by (intro exI [of _ "b # bs"]) (auto simp: mem_shared_def simp del: mset_append)
  next
    case (use b a v)
    have "a \<noteq> x" if "x \<in> set bs" for x
    proof -
      have "apart (unat blksize) b x" using D(1) D(5) [of b x] use(2) that by auto
      then show ?thesis using use(3,4) ok(3) by (auto simp: apart_def)
    qed
    then have "a \<notin> set bs" by blast
    then show ?thesis using use(1) I by (intro exI [of _ bs]) (simp add: mem_shared_def mem_ok_write)
  qed
qed

lemma mem_shared_run:
  assumes "(mem_step p)\<^sup>*\<^sup>* c c'" "mem_shared p addr nblks blksize (fst c) (snd c) bs"
    "unat addr + unat nblks * unat blksize \<le> 2 ^ 32" "addr \<noteq> 0" "4 \<le> blksize"
  shows "\<exists>bs'. mem_shared p addr nblks blksize (fst c') (snd c') bs'"
  using assms(1)
proof (induction rule: rtranclp_induct)
  case base
  then show ?case using assms(2) by blast
next
  case (step y z)
  then show ?case using mem_shared_step [OF _ assms(3-5)] by (metis prod.collapse)
qed

text \<open>C6: The tasks that share a partition never hold the same block, nor blocks that overlap, and
  never lose one: the blocks held and the free ones together are those of the partition. A get
  succeeds while a block is free, and every held block can be given back.\<close>

theorem mem_blocks_exclusive:
  assumes "OSMemCreate addr nblks blksize True k = Some (Some p, Some OS_ERR_NONE, k0)" "mem_free_ok p k"
    "unat addr + unat nblks * unat blksize \<le> 2 ^ 32" "(mem_step p)\<^sup>*\<^sup>* ([], k0) (held, k')"
  shows "\<exists>bs. mset (held @ bs) = mset (part_blks addr blksize (unat nblks)) \<and> distinct (held @ bs) \<and>
    (\<forall>b \<in> set held. \<forall>c \<in> set (held @ bs). b \<noteq> c \<longrightarrow> apart (unat blksize) b c) \<and>
    unat (OSMemNFree (OSMemTbl k' p)) = length bs \<and>
    (if bs = [] then OSMemGet (Some p) True k' = Some (0, Some OS_ERR_MEM_NO_FREE_BLKS, k')
     else \<exists>k''. OSMemGet (Some p) True k' = Some (hd bs, Some OS_ERR_NONE, k'')) \<and>
    (\<forall>b \<in> set held. \<exists>k''. OSMemPut (Some p) b k' = Some (OS_ERR_NONE, k''))"
proof -
  have c: "addr \<noteq> 0" "addr AND 3 = 0" "2 \<le> nblks" "4 \<le> blksize"
    using assms(1,2) by (auto simp: OSMemCreate_def mem_free_ok_def not_less split: if_splits)
  have "mem_shared p addr nblks blksize [] k0 (part_blks addr blksize (unat nblks))"
    using OSMemCreate_step [OF assms(2) c assms(3)] assms(1) by (simp add: mem_shared_def)
  then obtain bs where bs: "mem_shared p addr nblks blksize held k' bs"
    using mem_shared_run [OF assms(4) _ assms(3) c(1,4)] by (metis fst_conv snd_conv)
  note D = mem_sharedD [OF bs assms(3) c(1,4)]
  have ok: "mem_ok p k' bs" "OSMemNBlks (OSMemTbl k' p) = nblks" "mset (held @ bs) = mset (part_blks addr blksize (unat nblks))"
    using bs by (simp_all add: mem_shared_def)
  have "\<exists>k''. OSMemPut (Some p) b k' = Some (OS_ERR_NONE, k'')" if "b \<in> set held" for b
    using OSMemPut_step [OF ok(1) mem_held(1,2) [OF bs assms(3) c(1,4) that]] mem_held(3) [OF bs assms(3) c(1,4) that] ok(2) by auto
  moreover have "if bs = [] then OSMemGet (Some p) True k' = Some (0, Some OS_ERR_MEM_NO_FREE_BLKS, k')
     else \<exists>k''. OSMemGet (Some p) True k' = Some (hd bs, Some OS_ERR_NONE, k'')"
    using OSMemGet_empty [of p k'] OSMemGet_step [of p k'] ok(1) by (cases bs) auto
  moreover have "unat (OSMemNFree (OSMemTbl k' p)) = length bs" using ok(1) by (simp add: mem_ok_def)
  ultimately show ?thesis using D(1,5) ok(3) by (intro exI [of _ bs]) auto
qed


text \<open>Two blocks are taken from a partition of three, the first is written to and given back.\<close>

definition demo_part :: kernel where
  "demo_part = (case OSMemCreate 0x1000 3 8 True (OS_MemInit bss_kernel) of Some (_, _, k) \<Rightarrow> k | None \<Rightarrow> bss_kernel)"

lemma demo_part_range:
  "(0x1000 :: INT32U) \<noteq> 0" "(0x1000 :: INT32U) AND 3 = 0" "(2 :: INT32U) \<le> 3" "(4 :: INT32U) \<le> 8"
  "unat (0x1000 :: INT32U) + unat (3 :: INT32U) * unat (8 :: INT32U) \<le> 2 ^ 32"
  by simp_all

lemma demo_part_facts:
  "mem_free_ok 0 (OS_MemInit bss_kernel)"
  "OSMemCreate 0x1000 3 8 True (OS_MemInit bss_kernel) = Some (Some 0, Some OS_ERR_NONE, demo_part)"
proof -
  show f: "mem_free_ok 0 (OS_MemInit bss_kernel)" by (simp add: mem_free_ok_def OS_MemInit_eq)
  show "OSMemCreate 0x1000 3 8 True (OS_MemInit bss_kernel) = Some (Some 0, Some OS_ERR_NONE, demo_part)"
    using OSMemCreate_step [OF f demo_part_range] by (auto simp: demo_part_def)
qed

theorem mem_blocks_exclusive_witness:
  "\<exists>k1 k2 k3 bs. OSMemGet (Some 0) True demo_part = Some (0x1000, Some OS_ERR_NONE, k1) \<and>
    OSMemGet (Some 0) True k1 = Some (0x1008, Some OS_ERR_NONE, k2) \<and>
    OSMemPut (Some 0) 0x1000 (k2\<lparr>OSRam := (OSRam k2)(0x1004 := 0xFFFFFFFF)\<rparr>) = Some (OS_ERR_NONE, k3) \<and>
    mset ([0x1008] @ bs) = mset (part_blks 0x1000 8 3) \<and> OSMemGet (Some 0) True k3 \<noteq> Some (0, Some OS_ERR_MEM_NO_FREE_BLKS, k3)"
proof -
  have parts: "part_blks 0x1000 8 3 = [0x1000, 0x1008, 0x1010]" by (simp add: part_blks_def upt_rec)
  have k0: "mem_ok 0 demo_part [0x1000, 0x1008, 0x1010]" "OSMemNBlks (OSMemTbl demo_part 0) = 3" "OSMemBlkSize (OSMemTbl demo_part 0) = 8"
    using OSMemCreate_step [OF demo_part_facts(1) demo_part_range] by (simp_all add: demo_part_facts(2) parts)
  obtain k1 where k1: "OSMemGet (Some 0) True demo_part = Some (0x1000, Some OS_ERR_NONE, k1)" "mem_ok 0 k1 [0x1008, 0x1010]"
      "OSMemNBlks (OSMemTbl k1 0) = 3" "OSMemBlkSize (OSMemTbl k1 0) = 8"
    using OSMemGet_step [OF k0(1)] k0(2,3) by auto
  obtain k2 where k2: "OSMemGet (Some 0) True k1 = Some (0x1008, Some OS_ERR_NONE, k2)" "mem_ok 0 k2 [0x1010]"
      "OSMemNBlks (OSMemTbl k2 0) = 3" "OSMemBlkSize (OSMemTbl k2 0) = 8"
    using OSMemGet_step [OF k1(2)] k1(3,4) by auto
  let ?w = "k2\<lparr>OSRam := (OSRam k2)(0x1004 := 0xFFFFFFFF)\<rparr>"
  have "mem_ok 0 ?w [0x1010]" using k2(2) by (simp add: mem_ok_write)
  then obtain k3 where k3: "OSMemPut (Some 0) 0x1000 ?w = Some (OS_ERR_NONE, k3)" "mem_ok 0 k3 [0x1000, 0x1010]"
    using OSMemPut_step [of 0 ?w "[0x1010]" "0x1000"] k2(3) by auto
  have "mem_step 0 ([], demo_part) ([0x1000], k1)" using mem_step.get [OF k1(1), where held = "[]"] by simp
  moreover have "mem_step 0 ([0x1000], k1) ([0x1008, 0x1000], k2)" using mem_step.get [OF k2(1), where held = "[0x1000]"] by simp
  moreover have "mem_step 0 ([0x1008, 0x1000], k2) ([0x1008, 0x1000], ?w)" using k2(4) by (intro mem_step.use [of "0x1000"]) simp_all
  moreover have "mem_step 0 ([0x1008, 0x1000], ?w) ([0x1008], k3)"
    using mem_step.put [OF _ k3(1), where held = "[0x1008, 0x1000]"] by simp
  ultimately have run: "(mem_step 0)\<^sup>*\<^sup>* ([], demo_part) ([0x1008], k3)" by (meson converse_rtranclp_into_rtranclp rtranclp.rtrancl_refl)
  obtain bs where "mset ([0x1008] @ bs) = mset (part_blks 0x1000 8 3)"
    using mem_blocks_exclusive [OF demo_part_facts(2,1) demo_part_range(5) run] by auto
  moreover have "OSMemGet (Some 0) True k3 \<noteq> Some (0, Some OS_ERR_MEM_NO_FREE_BLKS, k3)" using OSMemGet_step [OF k3(2)] by auto
  ultimately show ?thesis using k1(1) k2(1) k3(1) by (intro exI [of _ k1] exI [of _ k2] exI [of _ k3] exI [of _ bs]) simp
qed

end
