(* ===== verification/Os_Mbox.thy ===== *)
theory Os_Mbox
  imports Os_Sem
begin

text \<open>
  Mailboxes, \<^verbatim>\<open>UCOSII/src/os_mbox.c\<close>: an event that holds one message, in \<open>OSEventPtr\<close>.
  \<open>pend_msg\<close> is the end of every service that waits for a message (queues use it too).
\<close>

section \<open>The operations\<close>

abbreviation OS_POST_OPT_BROADCAST :: INT8U where "OS_POST_OPT_BROADCAST \<equiv> 0x01"
abbreviation OS_POST_OPT_FRONT :: INT8U where "OS_POST_OPT_FRONT \<equiv> 0x02"
abbreviation OS_POST_OPT_NO_SCHED :: INT8U where "OS_POST_OPT_NO_SCHED \<equiv> 0x04"

definition pend_msg :: "nat \<Rightarrow> kernel \<Rightarrow> (vptr \<times> INT8U \<times> kernel) option" where
  "pend_msg pevent k = do {
     (c, b) \<leftarrow> cur_tcb k;
     (pmsg, err, k) \<leftarrow>
       (if OSTCBStatPend b = OS_STAT_PEND_OK then Some (OSTCBMsg b, OS_ERR_NONE, k)
        else if OSTCBStatPend b = OS_STAT_PEND_ABORT then Some (VNull, OS_ERR_PEND_ABORT, k)
        else do { k \<leftarrow> OS_EventTaskRemove c pevent k; Some (VNull, OS_ERR_TIMEOUT, k) });
     k \<leftarrow> pend_clear k;
     (c, b) \<leftarrow> cur_tcb k;
     Some (pmsg, err, set_tcb c (b\<lparr>OSTCBMsg := VNull\<rparr>) k) }"

definition OSMboxAccept :: "nat option \<Rightarrow> kernel \<Rightarrow> (vptr \<times> kernel) option" where
  "OSMboxAccept pevent k = (case pevent of None \<Rightarrow> Some (VNull, k) | Some e \<Rightarrow> do {
     ev \<leftarrow> ecb_at e k;
     if OSEventType ev \<noteq> OS_EVENT_TYPE_MBOX then Some (VNull, k)
     else Some (OSEventPtr ev, set_ecb e (ev\<lparr>OSEventPtr := VNull\<rparr>) k) })"

definition OSMboxCreate :: "vptr \<Rightarrow> kernel \<Rightarrow> (nat option \<times> kernel) option" where
  "OSMboxCreate pmsg k =
     (if OSIntNesting k > 0 then Some (None, k)
      else do {
        (pevent, k) \<leftarrow> event_alloc k;
        case pevent of None \<Rightarrow> Some (None, k)
        | Some e \<Rightarrow> do {
            ev \<leftarrow> ecb_at e k;
            let ev = ev\<lparr>OSEventType := OS_EVENT_TYPE_MBOX, OSEventCnt := 0, OSEventPtr := pmsg,
                        OSEventName := name_unset (OSEventName ev)\<rparr>;
            k \<leftarrow> OS_EventWaitListInit e (set_ecb e ev k);
            Some (pevent, k) } })"

definition OSMboxDel :: "nat option \<Rightarrow> INT8U \<Rightarrow> bool \<Rightarrow> kernel \<Rightarrow> (nat option \<times> INT8U option \<times> kernel) option" where
  "OSMboxDel pevent opt perr k =
     (if \<not> perr then Some (pevent, None, k)
      else case pevent of None \<Rightarrow> Some (pevent, Some OS_ERR_PEVENT_NULL, k)
      | Some e \<Rightarrow> do {
          ev \<leftarrow> ecb_at e k;
          if OSEventType ev \<noteq> OS_EVENT_TYPE_MBOX then Some (pevent, Some OS_ERR_EVENT_TYPE, k)
          else if OSIntNesting k > 0 then Some (pevent, Some OS_ERR_DEL_ISR, k)
          else let tasks_waiting = (Grp (OSEventWait ev) \<noteq> 0)
          in if opt = OS_DEL_NO_PEND then
               if \<not> tasks_waiting then do { k \<leftarrow> event_free e k; Some (None, Some OS_ERR_NONE, k) }
               else Some (pevent, Some OS_ERR_TASK_WAITING, k)
             else if opt = OS_DEL_ALWAYS then do {
               (_, k) \<leftarrow> rdy_all e VNull OS_STAT_MBOX OS_STAT_PEND_OK 0 k;
               k \<leftarrow> event_free e k;
               k \<leftarrow> (if tasks_waiting then OS_Sched k else Some k);
               Some (None, Some OS_ERR_NONE, k) }
             else Some (pevent, Some OS_ERR_INVALID_OPT, k) })"

definition OSMboxPend ::
  "nat option \<Rightarrow> INT16U \<Rightarrow> bool \<Rightarrow> kernel \<Rightarrow> ((vptr \<times> INT8U option) outcome \<times> kernel) option" where
  "OSMboxPend pevent timeout perr k =
     (if \<not> perr then Some (Returns (VNull, None), k)
      else case pevent of None \<Rightarrow> Some (Returns (VNull, Some OS_ERR_PEVENT_NULL), k)
      | Some e \<Rightarrow> do {
          ev \<leftarrow> ecb_at e k;
          if OSEventType ev \<noteq> OS_EVENT_TYPE_MBOX then Some (Returns (VNull, Some OS_ERR_EVENT_TYPE), k)
          else if OSIntNesting k > 0 then Some (Returns (VNull, Some OS_ERR_PEND_ISR), k)
          else if OSLockNesting k > 0 then Some (Returns (VNull, Some OS_ERR_PEND_LOCKED), k)
          else if OSEventPtr ev \<noteq> VNull
               then Some (Returns (OSEventPtr ev, Some OS_ERR_NONE), set_ecb e (ev\<lparr>OSEventPtr := VNull\<rparr>) k)
          else do {
            k \<leftarrow> pend_block OS_STAT_MBOX timeout e k;
            k \<leftarrow> OS_Sched k;
            Some (Blocked, k) } })"

definition OSMboxPend_resume :: "nat \<Rightarrow> kernel \<Rightarrow> (vptr \<times> INT8U \<times> kernel) option" where
  "OSMboxPend_resume pevent k = pend_msg pevent k"

definition OSMboxPendAbort :: "nat option \<Rightarrow> INT8U \<Rightarrow> bool \<Rightarrow> kernel \<Rightarrow> (INT8U \<times> INT8U option \<times> kernel) option" where
  "OSMboxPendAbort pevent opt perr k =
     (if \<not> perr then Some (0, None, k)
      else case pevent of None \<Rightarrow> Some (0, Some OS_ERR_PEVENT_NULL, k)
      | Some e \<Rightarrow> do {
          ev \<leftarrow> ecb_at e k;
          if OSEventType ev \<noteq> OS_EVENT_TYPE_MBOX then Some (0, Some OS_ERR_EVENT_TYPE, k)
          else if Grp (OSEventWait ev) \<noteq> 0 then do {
            (nbr_tasks, k) \<leftarrow>
              (if opt = OS_PEND_OPT_BROADCAST then rdy_all e VNull OS_STAT_MBOX OS_STAT_PEND_ABORT 0 k
               else do { (_, k) \<leftarrow> OS_EventTaskRdy e VNull OS_STAT_MBOX OS_STAT_PEND_ABORT k; Some (1, k) });
            k \<leftarrow> OS_Sched k;
            Some (nbr_tasks, Some OS_ERR_PEND_ABORT, k) }
          else Some (0, Some OS_ERR_NONE, k) })"

definition OSMboxPost :: "nat option \<Rightarrow> vptr \<Rightarrow> kernel \<Rightarrow> (INT8U \<times> kernel) option" where
  "OSMboxPost pevent pmsg k =
     (case pevent of None \<Rightarrow> Some (OS_ERR_PEVENT_NULL, k)
      | Some e \<Rightarrow>
          if pmsg = VNull then Some (OS_ERR_POST_NULL_PTR, k)
          else do {
            ev \<leftarrow> ecb_at e k;
            if OSEventType ev \<noteq> OS_EVENT_TYPE_MBOX then Some (OS_ERR_EVENT_TYPE, k)
            else if Grp (OSEventWait ev) \<noteq> 0 then do {
              (_, k) \<leftarrow> OS_EventTaskRdy e pmsg OS_STAT_MBOX OS_STAT_PEND_OK k;
              k \<leftarrow> OS_Sched k;
              Some (OS_ERR_NONE, k) }
            else if OSEventPtr ev \<noteq> VNull then Some (OS_ERR_MBOX_FULL, k)
            else Some (OS_ERR_NONE, set_ecb e (ev\<lparr>OSEventPtr := pmsg\<rparr>) k) })"

definition OSMboxPostOpt :: "nat option \<Rightarrow> vptr \<Rightarrow> INT8U \<Rightarrow> kernel \<Rightarrow> (INT8U \<times> kernel) option" where
  "OSMboxPostOpt pevent pmsg opt k =
     (case pevent of None \<Rightarrow> Some (OS_ERR_PEVENT_NULL, k)
      | Some e \<Rightarrow>
          if pmsg = VNull then Some (OS_ERR_POST_NULL_PTR, k)
          else do {
            ev \<leftarrow> ecb_at e k;
            if OSEventType ev \<noteq> OS_EVENT_TYPE_MBOX then Some (OS_ERR_EVENT_TYPE, k)
            else if Grp (OSEventWait ev) \<noteq> 0 then do {
              k \<leftarrow> (if opt AND OS_POST_OPT_BROADCAST \<noteq> 0
                    then map_option snd (rdy_all e pmsg OS_STAT_MBOX OS_STAT_PEND_OK 0 k)
                    else map_option snd (OS_EventTaskRdy e pmsg OS_STAT_MBOX OS_STAT_PEND_OK k));
              k \<leftarrow> (if opt AND OS_POST_OPT_NO_SCHED = 0 then OS_Sched k else Some k);
              Some (OS_ERR_NONE, k) }
            else if OSEventPtr ev \<noteq> VNull then Some (OS_ERR_MBOX_FULL, k)
            else Some (OS_ERR_NONE, set_ecb e (ev\<lparr>OSEventPtr := pmsg\<rparr>) k) })"

record os_mbox_data =
  MboxMsg :: vptr
  MboxWait :: prio_tab

definition OSMboxQuery :: "nat option \<Rightarrow> bool \<Rightarrow> kernel \<Rightarrow> (INT8U \<times> os_mbox_data option) option" where
  "OSMboxQuery pevent p_mbox_data k =
     (case pevent of None \<Rightarrow> Some (OS_ERR_PEVENT_NULL, None)
      | Some e \<Rightarrow>
         if \<not> p_mbox_data then Some (OS_ERR_PDATA_NULL, None)
         else do {
           ev \<leftarrow> ecb_at e k;
           if OSEventType ev \<noteq> OS_EVENT_TYPE_MBOX then Some (OS_ERR_EVENT_TYPE, None)
           else Some (OS_ERR_NONE, Some \<lparr>MboxMsg = OSEventPtr ev, MboxWait = OSEventWait ev\<rparr>) })"

end
