(* ===== verification/Os_Calls.thy ===== *)
theory Os_Calls
  imports Os_Sem
begin

text \<open>
  What the services of events, queues and mailboxes have in common: a post that hands something to
  the waiting task of highest priority, and a pend that blocks, each followed by the scheduler.
  \<open>evolves\<close> is what such a service may change: wait lists, the ready list, the state of tasks
  (not their identity), and which task runs.
\<close>

definition evolves :: "kernel \<Rightarrow> kernel \<Rightarrow> bool" where
  "evolves k k' \<longleftrightarrow> (\<exists>k1. same_kernel k k1 \<and> switched k1 k')"

lemma same_kernel_more:
  assumes "same_kernel k k'"
  shows "OSTime k' = OSTime k" "OSTickStepState k' = OSTickStepState k" "OSFlagTbl k' = OSFlagTbl k"
    "OSMemTbl k' = OSMemTbl k" "OSRam k' = OSRam k"
proof -
  have "k' = k\<lparr>OSRdy := OSRdy k', OSTCBTbl := OSTCBTbl k', OSEventTbl := OSEventTbl k'\<rparr>"
    using assms by (simp add: same_kernel_def)
  then obtain r T E where "k' = k\<lparr>OSRdy := r, OSTCBTbl := T, OSEventTbl := E\<rparr>" by blast
  then show "OSTime k' = OSTime k" "OSTickStepState k' = OSTickStepState k" "OSFlagTbl k' = OSFlagTbl k"
    "OSMemTbl k' = OSMemTbl k" "OSRam k' = OSRam k" by simp_all
qed

lemma switched_more:
  assumes "switched k k'"
  shows "OSTickStepState k' = OSTickStepState k" "OSFlagTbl k' = OSFlagTbl k" "OSMemTbl k' = OSMemTbl k" "OSRam k' = OSRam k"
    "OSTCBFreeList k' = OSTCBFreeList k" "tcb_next k' = tcb_next k" "live k' = live k"
proof -
  have "k' = k\<lparr>OSPrioCur := OSPrioCur k', OSPrioHighRdy := OSPrioHighRdy k', OSTCBCur := OSTCBCur k',
            OSTCBHighRdy := OSTCBHighRdy k', OSCtxSwCtr := OSCtxSwCtr k', OSTCBTbl := OSTCBTbl k'\<rparr>"
    using assms by (simp add: switched_def)
  then obtain pc ph c h n T where "k' = k\<lparr>OSPrioCur := pc, OSPrioHighRdy := ph, OSTCBCur := c,
    OSTCBHighRdy := h, OSCtxSwCtr := n, OSTCBTbl := T\<rparr>" by blast
  then show "OSTickStepState k' = OSTickStepState k" "OSFlagTbl k' = OSFlagTbl k" "OSMemTbl k' = OSMemTbl k" "OSRam k' = OSRam k"
    "OSTCBFreeList k' = OSTCBFreeList k" by simp_all
  show "tcb_next k' = tcb_next k"
  proof
    fix u show "tcb_next k' u = tcb_next k u" using switched_tcb [OF assms, of u] by (auto simp: tcb_next_def)
  qed
  show "live k' = live k" by (simp add: live_def switched_view [OF assms])
qed

lemma evolves_refl [simp]: "evolves k k"
  by (auto simp: evolves_def intro: exI [of _ k])

lemma evolves_view:
  assumes "evolves k k'"
  shows "OSEventType (OSEventTbl k' e) = OSEventType (OSEventTbl k e)" "OSEventPtr (OSEventTbl k' e) = OSEventPtr (OSEventTbl k e)"
    "OSEventCnt (OSEventTbl k' e) = OSEventCnt (OSEventTbl k e)" "OSEventName (OSEventTbl k' e) = OSEventName (OSEventTbl k e)"
    "OSQTbl k' = OSQTbl k" "OSQFreeList k' = OSQFreeList k" "OSMem k' = OSMem k" "OSEventFreeList k' = OSEventFreeList k"
    "OSTime k' = OSTime k" "tcb_prio p k' = tcb_prio p k" "live k' = live k" "lists_ok k' = lists_ok k"
    "OSRunning k' = OSRunning k" "OSTickStepState k' = OSTickStepState k"
    "OSIntNesting k' = OSIntNesting k" "OSLockNesting k' = OSLockNesting k" "OSTCBPrioTbl k' = OSTCBPrioTbl k"
proof -
  obtain k1 where k1: "same_kernel k k1" "switched k1 k'" using assms by (auto simp: evolves_def)
  show "OSEventType (OSEventTbl k' e) = OSEventType (OSEventTbl k e)" "OSEventPtr (OSEventTbl k' e) = OSEventPtr (OSEventTbl k e)"
    "OSEventCnt (OSEventTbl k' e) = OSEventCnt (OSEventTbl k e)" "OSEventName (OSEventTbl k' e) = OSEventName (OSEventTbl k e)"
    "OSQTbl k' = OSQTbl k" "OSQFreeList k' = OSQFreeList k" "OSMem k' = OSMem k" "OSEventFreeList k' = OSEventFreeList k"
    "OSTime k' = OSTime k" "tcb_prio p k' = tcb_prio p k" "live k' = live k"
    "OSRunning k' = OSRunning k" "OSTickStepState k' = OSTickStepState k"
    "OSIntNesting k' = OSIntNesting k" "OSLockNesting k' = OSLockNesting k" "OSTCBPrioTbl k' = OSTCBPrioTbl k"
    by (simp_all add: switched_view [OF k1(2)] switched_more [OF k1(2)] same_kernel_kernel [OF k1(1)]
        same_kernel_more [OF k1(1)])
  have "task_lists k' us i fs = task_lists k1 us i fs" for us i fs
    by (rule task_lists_cong) (simp_all add: switched_view [OF k1(2)] switched_more [OF k1(2)])
  then have "lists_ok k' = lists_ok k1" by (simp add: lists_ok_def)
  then show "lists_ok k' = lists_ok k" using k1(1) by simp
qed

text \<open>A post to a task that waits.\<close>

lemma wake_sched:
  assumes ok: "kernel_ok k" and lev: "task_level k" and e: "e < OS_MAX_EVENTS" and w: "waiters e k \<noteq> {}"
    and msk: "msk AND OS_STAT_SUSPEND = 0"
  defines "p \<equiv> Min (waiters e k)"
  shows "\<exists>k1 k'. OS_EventTaskRdy e msg msk st k = Some (p, k1) \<and> OS_Sched k1 = Some k' \<and> evolves k k' \<and>
    kernel_ok k' \<and> task_level k' \<and> highest_runs k' \<and> waiters e k' = waiters e k - {p} \<and>
    (\<forall>x < OS_MAX_EVENTS. waiters x k' \<subseteq> waiters x k) \<and>
    ready k' = (if suspended (tcb_of p k) then ready k else insert p (ready k)) \<and>
    OSTCBMsg (tcb_of p k') = msg \<and> OSTCBStatPend (tcb_of p k') = st \<and> OSTCBDly (tcb_of p k') = 0"
proof -
  obtain t k1 where k1: "tcb_prio p k = Some t" "OS_EventTaskRdy e msg msk st k = Some (p, k1)"
    "touches p t k k1" "OSTCBTbl k1 t = woken e msg msk st (OSTCBTbl k t)"
    "ready k1 = (if suspended (OSTCBTbl k t) then ready k else insert p (ready k))" "kernel_ok k1"
    using OS_EventTaskRdy_spec [OF ok e w msk, of p msg st] by (auto simp: p_def)
  have k1': "waiters e k1 = waiters e k - {p}" "same_kernel k k1" "\<forall>x < OS_MAX_EVENTS. waiters x k1 \<subseteq> waiters x k"
    using OS_EventTaskRdy_waiters [OF ok e w msk, of msg st] k1(2) by (auto simp: p_def)
  obtain k2 where k2: "OS_Sched k1 = Some k2" "switched k1 k2" "kernel_ok k2" "highest_runs k2" "task_level k2"
    using OS_Sched_task_level [OF k1(6)] lev k1'(2) by auto
  have "evolves k k2" using k1'(2) k2(2) by (auto simp: evolves_def)
  moreover have "OSTCBMsg (tcb_of p k2) = msg" "OSTCBStatPend (tcb_of p k2) = st" "OSTCBDly (tcb_of p k2) = 0"
    using switched_tcb [OF k2(2), of t] k1 by (auto simp: tcb_of_def switched_view [OF k2(2)] touches_tcb_prio woken_def Let_def)
  ultimately show ?thesis
    using k1 k1' k2 by (intro exI [of _ k1] exI [of _ k2]) (simp add: switched_view [OF k2(2)] tcb_of_def)
qed

text \<open>A pend that blocks.\<close>

lemma block_sched:
  assumes ok: "kernel_ok k" and lev: "task_level k" and call: "at_call k p t" and p: "p \<noteq> OS_TASK_IDLE_PRIO"
    and e: "e < OS_MAX_EVENTS" and stat: "stat AND OS_STAT_PEND_ANY \<noteq> 0"
  shows "\<exists>k1 k'. pend_block stat timeout e k = Some k1 \<and> OS_Sched k1 = Some k' \<and> evolves k k' \<and>
    kernel_ok k' \<and> task_level k' \<and> highest_runs k' \<and> OSPrioCur k' \<noteq> p \<and>
    waiters e k' = insert p (waiters e k) \<and> (\<forall>x < OS_MAX_EVENTS. x \<noteq> e \<longrightarrow> waiters x k' = waiters x k) \<and>
    ready k' = ready k - {p} \<and> OSTCBDly (tcb_of p k') = timeout \<and> OSTCBEventPtr (tcb_of p k') = Some e \<and>
    kernel_ok k1 \<and> ready k1 = ready k - {p}"
proof -
  obtain k1 where k1: "pend_block stat timeout e k = Some k1" "touches p t k k1" "kernel_ok k1"
    "OSTCBDly (OSTCBTbl k1 t) = timeout" "OSTCBEventPtr (OSTCBTbl k1 t) = Some e" "ready k1 = ready k - {p}" "waits p k1 = {e}"
    using pend_block_spec [OF ok call p e stat, of timeout] by auto
  obtain k2 where k2: "OS_Sched k1 = Some k2" "switched k1 k2" "kernel_ok k2" "highest_runs k2" "task_level k2"
    using OS_Sched_task_level [OF k1(3)] lev k1(2) by auto
  have sk: "same_kernel k k1" using k1(2) by (rule touches_same_kernel)
  have w: "waiters e k1 = insert p (waiters e k)" using waiters_touches [OF k1(2) e] k1(7) by simp
  have w': "waiters x k1 = waiters x k" if "x < OS_MAX_EVENTS" "x \<noteq> e" for x
  proof -
    have "waits p k = {}" using call by (simp add: at_call_def)
    then have "p \<notin> waiters x k" using that(1) by (auto simp: waits_def)
    then show ?thesis using waiters_touches [OF k1(2) that(1)] k1(7) that(2) by simp
  qed
  have "OSTCBDly (tcb_of p k2) = timeout" "OSTCBEventPtr (tcb_of p k2) = Some e"
    using switched_tcb [OF k2(2), of t] k1(4-6) call
    by (auto simp: tcb_of_def switched_view [OF k2(2)] touches_tcb_prio [OF k1(2)] at_call_def running_def)
  moreover have "OSPrioCur k2 \<noteq> p"
    using k2(4) min_ready(1) [OF k2(3)] k1(6) by (auto simp: highest_runs_def switched_view [OF k2(2)])
  moreover have "evolves k k2" using sk k2(2) by (auto simp: evolves_def)
  ultimately show ?thesis
    using k1 k2 w w' by (intro exI [of _ k1] exI [of _ k2]) (simp add: switched_view [OF k2(2)])
qed

end
