(* ===== verification/Os_Queue.thy ===== *)
theory Os_Queue
  imports Os_Mbox Os_Calls
begin

text \<open>
  Message queues, \<^verbatim>\<open>UCOSII/src/os_q.c\<close>: an event whose \<open>OSEventPtr\<close> is a queue control block,
  which describes a ring of cells of the memory \<open>OSMem\<close>, from \<open>OSQStart\<close> up to \<open>OSQEnd\<close>.
\<close>

section \<open>The ring\<close>

definition q_at :: "vptr \<Rightarrow> kernel \<Rightarrow> (nat \<times> os_q) option" where
  "q_at p k = (case p of VQ q \<Rightarrow> if q < OS_MAX_QS then Some (q, OSQTbl k q) else None | _ \<Rightarrow> None)"

definition set_q :: "nat \<Rightarrow> os_q \<Rightarrow> kernel \<Rightarrow> kernel" where
  "set_q q b k = k\<lparr>OSQTbl := (OSQTbl k)(q := b)\<rparr>"

text \<open>Taking the oldest message, putting one last, and putting one first.\<close>

definition q_take :: "os_q \<Rightarrow> (nat \<Rightarrow> vptr) \<Rightarrow> vptr \<times> os_q" where
  "q_take pq m =
     (let pmsg = m (OSQOut pq);
          pq = pq\<lparr>OSQOut := OSQOut pq + 1, OSQEntries := OSQEntries pq - 1\<rparr>
      in (pmsg, if OSQOut pq = OSQEnd pq then pq\<lparr>OSQOut := OSQStart pq\<rparr> else pq))"

definition q_put :: "vptr \<Rightarrow> os_q \<Rightarrow> (nat \<Rightarrow> vptr) \<Rightarrow> os_q \<times> (nat \<Rightarrow> vptr)" where
  "q_put pmsg pq m =
     (let m = m(OSQIn pq := pmsg);
          pq = pq\<lparr>OSQIn := OSQIn pq + 1, OSQEntries := OSQEntries pq + 1\<rparr>
      in (if OSQIn pq = OSQEnd pq then pq\<lparr>OSQIn := OSQStart pq\<rparr> else pq, m))"

definition q_put_front :: "vptr \<Rightarrow> os_q \<Rightarrow> (nat \<Rightarrow> vptr) \<Rightarrow> os_q \<times> (nat \<Rightarrow> vptr)" where
  "q_put_front pmsg pq m =
     (let pq = (if OSQOut pq = OSQStart pq then pq\<lparr>OSQOut := OSQEnd pq\<rparr> else pq);
          pq = pq\<lparr>OSQOut := OSQOut pq - 1\<rparr>
      in (pq\<lparr>OSQEntries := OSQEntries pq + 1\<rparr>, m(OSQOut pq := pmsg)))"

section \<open>The operations\<close>

definition OSQAccept :: "nat option \<Rightarrow> bool \<Rightarrow> kernel \<Rightarrow> (vptr \<times> INT8U option \<times> kernel) option" where
  "OSQAccept pevent perr k =
     (if \<not> perr then Some (VNull, None, k)
      else case pevent of None \<Rightarrow> Some (VNull, Some OS_ERR_PEVENT_NULL, k)
      | Some e \<Rightarrow> do {
          ev \<leftarrow> ecb_at e k;
          if OSEventType ev \<noteq> OS_EVENT_TYPE_Q then Some (VNull, Some OS_ERR_EVENT_TYPE, k)
          else do {
            (q, pq) \<leftarrow> q_at (OSEventPtr ev) k;
            if OSQEntries pq > 0
            then let (pmsg, pq) = q_take pq (OSMem k) in Some (pmsg, Some OS_ERR_NONE, set_q q pq k)
            else Some (VNull, Some OS_ERR_Q_EMPTY, k) } })"

definition OSQCreate :: "nat \<Rightarrow> INT16U \<Rightarrow> kernel \<Rightarrow> (nat option \<times> kernel) option" where
  "OSQCreate start qsize k =
     (if OSIntNesting k > 0 then Some (None, k)
      else do {
        (pevent, k) \<leftarrow> event_alloc k;
        case pevent of None \<Rightarrow> Some (None, k)
        | Some e \<Rightarrow> (case OSQFreeList k of
            Some q \<Rightarrow> do {
              (q, pq) \<leftarrow> q_at (VQ q) k;
              let k = k\<lparr>OSQFreeList := OSQPtr pq\<rparr>;
              let k = set_q q (pq\<lparr>OSQStart := start, OSQEnd := start + unat qsize, OSQIn := start, OSQOut := start,
                                  OSQSize := qsize, OSQEntries := 0\<rparr>) k;
              ev \<leftarrow> ecb_at e k;
              let ev = ev\<lparr>OSEventType := OS_EVENT_TYPE_Q, OSEventCnt := 0, OSEventPtr := VQ q,
                          OSEventName := name_unset (OSEventName ev)\<rparr>;
              k \<leftarrow> OS_EventWaitListInit e (set_ecb e ev k);
              Some (pevent, k) }
          | None \<Rightarrow> do {
              ev \<leftarrow> ecb_at e k;
              Some (None, set_ecb e (ev\<lparr>OSEventPtr := link_of (OSEventFreeList k)\<rparr>) k\<lparr>OSEventFreeList := Some e\<rparr>) }) })"

text \<open>Giving back the control block of a queue that is deleted.\<close>

definition q_free :: "nat \<Rightarrow> kernel \<Rightarrow> kernel option" where
  "q_free e k = do {
     ev \<leftarrow> ecb_at e k;
     (q, pq) \<leftarrow> q_at (OSEventPtr ev) k;
     Some (set_q q (pq\<lparr>OSQPtr := OSQFreeList k\<rparr>) k\<lparr>OSQFreeList := Some q\<rparr>) }"

definition OSQDel :: "nat option \<Rightarrow> INT8U \<Rightarrow> bool \<Rightarrow> kernel \<Rightarrow> (nat option \<times> INT8U option \<times> kernel) option" where
  "OSQDel pevent opt perr k =
     (if \<not> perr then Some (pevent, None, k)
      else case pevent of None \<Rightarrow> Some (pevent, Some OS_ERR_PEVENT_NULL, k)
      | Some e \<Rightarrow> do {
          ev \<leftarrow> ecb_at e k;
          if OSEventType ev \<noteq> OS_EVENT_TYPE_Q then Some (pevent, Some OS_ERR_EVENT_TYPE, k)
          else if OSIntNesting k > 0 then Some (pevent, Some OS_ERR_DEL_ISR, k)
          else let tasks_waiting = (Grp (OSEventWait ev) \<noteq> 0)
          in if opt = OS_DEL_NO_PEND then
               if \<not> tasks_waiting
               then do { k \<leftarrow> q_free e k; k \<leftarrow> event_free e k; Some (None, Some OS_ERR_NONE, k) }
               else Some (pevent, Some OS_ERR_TASK_WAITING, k)
             else if opt = OS_DEL_ALWAYS then do {
               (_, k) \<leftarrow> rdy_all e VNull OS_STAT_Q OS_STAT_PEND_OK 0 k;
               k \<leftarrow> q_free e k;
               k \<leftarrow> event_free e k;
               k \<leftarrow> (if tasks_waiting then OS_Sched k else Some k);
               Some (None, Some OS_ERR_NONE, k) }
             else Some (pevent, Some OS_ERR_INVALID_OPT, k) })"

definition OSQFlush :: "nat option \<Rightarrow> kernel \<Rightarrow> (INT8U \<times> kernel) option" where
  "OSQFlush pevent k =
     (case pevent of None \<Rightarrow> Some (OS_ERR_PEVENT_NULL, k)
      | Some e \<Rightarrow> do {
          ev \<leftarrow> ecb_at e k;
          if OSEventType ev \<noteq> OS_EVENT_TYPE_Q then Some (OS_ERR_EVENT_TYPE, k)
          else do {
            (q, pq) \<leftarrow> q_at (OSEventPtr ev) k;
            Some (OS_ERR_NONE,
              set_q q (pq\<lparr>OSQIn := OSQStart pq, OSQOut := OSQStart pq, OSQEntries := 0\<rparr>) k) } })"

definition OSQPend ::
  "nat option \<Rightarrow> INT16U \<Rightarrow> bool \<Rightarrow> kernel \<Rightarrow> ((vptr \<times> INT8U option) outcome \<times> kernel) option" where
  "OSQPend pevent timeout perr k =
     (if \<not> perr then Some (Returns (VNull, None), k)
      else case pevent of None \<Rightarrow> Some (Returns (VNull, Some OS_ERR_PEVENT_NULL), k)
      | Some e \<Rightarrow> do {
          ev \<leftarrow> ecb_at e k;
          if OSEventType ev \<noteq> OS_EVENT_TYPE_Q then Some (Returns (VNull, Some OS_ERR_EVENT_TYPE), k)
          else if OSIntNesting k > 0 then Some (Returns (VNull, Some OS_ERR_PEND_ISR), k)
          else if OSLockNesting k > 0 then Some (Returns (VNull, Some OS_ERR_PEND_LOCKED), k)
          else do {
            (q, pq) \<leftarrow> q_at (OSEventPtr ev) k;
            if OSQEntries pq > 0
            then let (pmsg, pq) = q_take pq (OSMem k) in Some (Returns (pmsg, Some OS_ERR_NONE), set_q q pq k)
            else do {
              k \<leftarrow> pend_block OS_STAT_Q timeout e k;
              k \<leftarrow> OS_Sched k;
              Some (Blocked, k) } } })"

definition OSQPend_resume :: "nat \<Rightarrow> kernel \<Rightarrow> (vptr \<times> INT8U \<times> kernel) option" where
  "OSQPend_resume pevent k = pend_msg pevent k"

definition OSQPendAbort :: "nat option \<Rightarrow> INT8U \<Rightarrow> bool \<Rightarrow> kernel \<Rightarrow> (INT8U \<times> INT8U option \<times> kernel) option" where
  "OSQPendAbort pevent opt perr k =
     (if \<not> perr then Some (0, None, k)
      else case pevent of None \<Rightarrow> Some (0, Some OS_ERR_PEVENT_NULL, k)
      | Some e \<Rightarrow> do {
          ev \<leftarrow> ecb_at e k;
          if OSEventType ev \<noteq> OS_EVENT_TYPE_Q then Some (0, Some OS_ERR_EVENT_TYPE, k)
          else if Grp (OSEventWait ev) \<noteq> 0 then do {
            (nbr_tasks, k) \<leftarrow>
              (if opt = OS_PEND_OPT_BROADCAST then rdy_all e VNull OS_STAT_Q OS_STAT_PEND_ABORT 0 k
               else do { (_, k) \<leftarrow> OS_EventTaskRdy e VNull OS_STAT_Q OS_STAT_PEND_ABORT k; Some (1, k) });
            k \<leftarrow> OS_Sched k;
            Some (nbr_tasks, Some OS_ERR_PEND_ABORT, k) }
          else Some (0, Some OS_ERR_NONE, k) })"

text \<open>The end of the services that post, when no task waits: the queue is full, or the message goes in.\<close>

definition q_store :: "(os_q \<Rightarrow> (nat \<Rightarrow> vptr) \<Rightarrow> os_q \<times> (nat \<Rightarrow> vptr)) \<Rightarrow> os_event \<Rightarrow> kernel \<Rightarrow> (INT8U \<times> kernel) option" where
  "q_store put ev k = do {
     (q, pq) \<leftarrow> q_at (OSEventPtr ev) k;
     if OSQEntries pq \<ge> OSQSize pq then Some (OS_ERR_Q_FULL, k)
     else let (pq, m) = put pq (OSMem k) in Some (OS_ERR_NONE, set_q q pq (k\<lparr>OSMem := m\<rparr>)) }"

definition OSQPost :: "nat option \<Rightarrow> vptr \<Rightarrow> kernel \<Rightarrow> (INT8U \<times> kernel) option" where
  "OSQPost pevent pmsg k =
     (case pevent of None \<Rightarrow> Some (OS_ERR_PEVENT_NULL, k)
      | Some e \<Rightarrow> do {
          ev \<leftarrow> ecb_at e k;
          if OSEventType ev \<noteq> OS_EVENT_TYPE_Q then Some (OS_ERR_EVENT_TYPE, k)
          else if Grp (OSEventWait ev) \<noteq> 0 then do {
            (_, k) \<leftarrow> OS_EventTaskRdy e pmsg OS_STAT_Q OS_STAT_PEND_OK k;
            k \<leftarrow> OS_Sched k;
            Some (OS_ERR_NONE, k) }
          else q_store (q_put pmsg) ev k })"

definition OSQPostFront :: "nat option \<Rightarrow> vptr \<Rightarrow> kernel \<Rightarrow> (INT8U \<times> kernel) option" where
  "OSQPostFront pevent pmsg k =
     (case pevent of None \<Rightarrow> Some (OS_ERR_PEVENT_NULL, k)
      | Some e \<Rightarrow> do {
          ev \<leftarrow> ecb_at e k;
          if OSEventType ev \<noteq> OS_EVENT_TYPE_Q then Some (OS_ERR_EVENT_TYPE, k)
          else if Grp (OSEventWait ev) \<noteq> 0 then do {
            (_, k) \<leftarrow> OS_EventTaskRdy e pmsg OS_STAT_Q OS_STAT_PEND_OK k;
            k \<leftarrow> OS_Sched k;
            Some (OS_ERR_NONE, k) }
          else q_store (q_put_front pmsg) ev k })"

definition OSQPostOpt :: "nat option \<Rightarrow> vptr \<Rightarrow> INT8U \<Rightarrow> kernel \<Rightarrow> (INT8U \<times> kernel) option" where
  "OSQPostOpt pevent pmsg opt k =
     (case pevent of None \<Rightarrow> Some (OS_ERR_PEVENT_NULL, k)
      | Some e \<Rightarrow> do {
          ev \<leftarrow> ecb_at e k;
          if OSEventType ev \<noteq> OS_EVENT_TYPE_Q then Some (OS_ERR_EVENT_TYPE, k)
          else if Grp (OSEventWait ev) \<noteq> 0 then do {
            k \<leftarrow> (if opt AND OS_POST_OPT_BROADCAST \<noteq> 0
                  then map_option snd (rdy_all e pmsg OS_STAT_Q OS_STAT_PEND_OK 0 k)
                  else map_option snd (OS_EventTaskRdy e pmsg OS_STAT_Q OS_STAT_PEND_OK k));
            k \<leftarrow> (if opt AND OS_POST_OPT_NO_SCHED = 0 then OS_Sched k else Some k);
            Some (OS_ERR_NONE, k) }
          else q_store (if opt AND OS_POST_OPT_FRONT \<noteq> 0 then q_put_front pmsg else q_put pmsg) ev k })"

record os_q_data =
  QMsg :: vptr
  OSNMsgs :: INT16U
  QSize :: INT16U
  QWait :: prio_tab

definition OSQQuery :: "nat option \<Rightarrow> bool \<Rightarrow> kernel \<Rightarrow> (INT8U \<times> os_q_data option) option" where
  "OSQQuery pevent p_q_data k =
     (case pevent of None \<Rightarrow> Some (OS_ERR_PEVENT_NULL, None)
      | Some e \<Rightarrow>
         if \<not> p_q_data then Some (OS_ERR_PDATA_NULL, None)
         else do {
           ev \<leftarrow> ecb_at e k;
           if OSEventType ev \<noteq> OS_EVENT_TYPE_Q then Some (OS_ERR_EVENT_TYPE, None)
           else do {
             (q, pq) \<leftarrow> q_at (OSEventPtr ev) k;
             Some (OS_ERR_NONE, Some \<lparr>
               QMsg = (if OSQEntries pq > 0 then OSMem k (OSQOut pq) else VNull),
               OSNMsgs = OSQEntries pq, QSize = OSQSize pq, QWait = OSEventWait ev\<rparr>) } })"

section \<open>The ring is a sequence of messages\<close>

text \<open>The \<open>n\<close> messages of a ring of \<open>z\<close> cells from the cell \<open>s\<close> on, the oldest at offset \<open>i\<close>.\<close>

definition ring :: "nat \<Rightarrow> nat \<Rightarrow> nat \<Rightarrow> nat \<Rightarrow> (nat \<Rightarrow> 'a) \<Rightarrow> 'a list" where
  "ring s z i n m = map (\<lambda>j. m (s + (i + j) mod z)) [0..<n]"

lemma length_ring [simp]: "length (ring s z i n m) = n"
  by (simp add: ring_def)

lemma ring_distinct: "j < n \<Longrightarrow> n < z \<Longrightarrow> (i + j) mod z \<noteq> (i + n) mod (z::nat)"
proof
  assume a: "j < n" "n < z" "(i + j) mod z = (i + n) mod z"
  then have "z dvd (i + n) - (i + j)" by (metis mod_eq_dvd_iff_nat add_le_cancel_left less_imp_le)
  then show False using a(1,2) by (auto dest: dvd_imp_le)
qed

lemma ring_oldest: "0 < n \<Longrightarrow> i < z \<Longrightarrow> ring s z i n m = m (s + i) # ring s z (Suc i mod z) (n - 1) m"
proof -
  assume a: "0 < n" "i < z"
  then obtain k where n: "n = Suc k" by (cases n) auto
  have "[0..<Suc k] = 0 # map Suc [0..<k]" by (metis upt_conv_Cons map_Suc_upt zero_less_Suc)
  then show ?thesis using a by (simp add: ring_def n mod_simps comp_def)
qed

lemma ring_last: "n < z \<Longrightarrow> ring s z i (Suc n) (m(s + (i + n) mod z := x)) = ring s z i n m @ [x]"
  using ring_distinct by (auto simp: ring_def)

lemma ring_first:
  assumes "n < z" "i < z"
  shows "ring s z ((i + z - 1) mod z) (Suc n) (m(s + (i + z - 1) mod z := x)) = x # ring s z i n m"
proof -
  let ?i = "(i + z - 1) mod z"
  have s: "Suc ?i mod z = i" using assms by (simp add: mod_Suc_eq)
  have "ring s z ?i (Suc n) (m(s + ?i := x)) = x # ring s z i n (m(s + ?i := x))"
    using assms ring_oldest [of "Suc n" ?i z s "m(s + ?i := x)"] s by simp
  also have "ring s z i n (m(s + ?i := x)) = ring s z i n m"
  proof -
    have "?i \<noteq> (i + j) mod z" if "j < n" for j
    proof
      assume "?i = (i + j) mod z"
      then have "Suc ((i + j) mod z) mod z = i" using s by simp
      then have "(i + Suc j) mod z = (i + 0) mod z" using assms by (simp add: mod_simps)
      then show False using ring_distinct [of 0 "Suc j" z i] that assms by simp
    qed
    then show ?thesis unfolding ring_def by (intro map_cong) (auto dest: sym)
  qed
  finally show ?thesis .
qed

section \<open>Queue control blocks\<close>

definition q_ok :: "os_q \<Rightarrow> bool" where
  "q_ok pq \<longleftrightarrow> OSQEnd pq = OSQStart pq + unat (OSQSize pq) \<and> 0 < OSQSize pq \<and> OSQEntries pq \<le> OSQSize pq \<and>
     OSQStart pq \<le> OSQOut pq \<and> OSQOut pq < OSQEnd pq \<and>
     OSQIn pq = OSQStart pq + (OSQOut pq - OSQStart pq + unat (OSQEntries pq)) mod unat (OSQSize pq)"

definition q_items :: "os_q \<Rightarrow> (nat \<Rightarrow> vptr) \<Rightarrow> vptr list" where
  "q_items pq m = ring (OSQStart pq) (unat (OSQSize pq)) (OSQOut pq - OSQStart pq) (unat (OSQEntries pq)) m"

lemma q_items_length: "length (q_items pq m) = unat (OSQEntries pq)"
  by (simp add: q_items_def)

lemma q_take_ok:
  assumes ok: "q_ok pq" and n: "0 < OSQEntries pq"
  shows "q_ok (snd (q_take pq m)) \<and> q_items pq m = fst (q_take pq m) # q_items (snd (q_take pq m)) m \<and>
    OSQSize (snd (q_take pq m)) = OSQSize pq"
proof -
  obtain z i c where z: "unat (OSQSize pq) = z" and i: "OSQOut pq = OSQStart pq + i" "i < z" and c: "unat (OSQEntries pq) = Suc c" "Suc c \<le> z"
  proof (rule that [of "unat (OSQSize pq)" "OSQOut pq - OSQStart pq" "unat (OSQEntries pq) - 1"])
    have "0 < unat (OSQEntries pq)" using n by (simp add: word_gt_0 unat_gt_0)
    then show "unat (OSQEntries pq) = Suc (unat (OSQEntries pq) - 1)" by simp
    then show "Suc (unat (OSQEntries pq) - 1) \<le> unat (OSQSize pq)" using ok by (simp add: q_ok_def word_le_nat_alt)
  qed (use ok in \<open>auto simp: q_ok_def\<close>)
  have c': "unat (OSQEntries pq - 1) = c" using c(1) n by (simp add: unat_minus_one word_gt_0)
  have e: "OSQEnd pq = OSQStart pq + z" "OSQIn pq = OSQStart pq + (i + Suc c) mod z"
    using ok c(1) by (simp_all add: q_ok_def z i(1))
  have le: "OSQEntries pq - 1 \<le> OSQSize pq" using c c' z by (simp add: word_le_nat_alt)
  have sz: "0 < OSQSize pq" using ok by (simp add: q_ok_def)
  show ?thesis
  proof (cases "Suc i = z")
    case True
    then have "q_take pq m = (m (OSQStart pq + i), pq\<lparr>OSQOut := OSQStart pq, OSQEntries := OSQEntries pq - 1\<rparr>)"
      by (simp add: q_take_def Let_def i(1) e(1))
    moreover have "(i + Suc c) mod z = c mod z" using True by (metis add_Suc_right add_Suc_shift mod_add_self1 add.commute)
    ultimately show ?thesis
      using True ring_oldest [of "Suc c" i z] i e le sz z
      by (simp add: q_ok_def q_items_def c c')
  next
    case False
    then have "q_take pq m = (m (OSQStart pq + i), pq\<lparr>OSQOut := OSQStart pq + Suc i, OSQEntries := OSQEntries pq - 1\<rparr>)"
      using i(1) e(1) by (auto simp: q_take_def Let_def)
    then show ?thesis
      using False ring_oldest [of "Suc c" i z] i e le sz z
      by (simp add: q_ok_def q_items_def c c')
  qed
qed

lemma entries_suc:
  assumes "OSQEntries pq < OSQSize pq"
  shows "unat (OSQEntries pq + 1) = Suc (unat (OSQEntries pq))" "unat (OSQEntries pq) < unat (OSQSize pq)"
    "OSQEntries pq + 1 \<le> OSQSize pq"
proof -
  show l: "unat (OSQEntries pq) < unat (OSQSize pq)" using assms by (simp add: word_less_nat_alt)
  moreover have "unat (OSQSize pq) < 2 ^ 16" using unsigned_less [of "OSQSize pq", where ?'a = nat] by simp
  ultimately show u: "unat (OSQEntries pq + 1) = Suc (unat (OSQEntries pq))" by (simp add: unat_word_ariths)
  show "OSQEntries pq + 1 \<le> OSQSize pq" using u l by (simp add: word_le_nat_alt)
qed

lemma q_put_ok:
  assumes ok: "q_ok pq" and n: "OSQEntries pq < OSQSize pq"
  shows "q_ok (fst (q_put x pq m)) \<and> q_items (fst (q_put x pq m)) (snd (q_put x pq m)) = q_items pq m @ [x] \<and>
    OSQSize (fst (q_put x pq m)) = OSQSize pq"
proof -
  define z i c where zic: "z = unat (OSQSize pq)" "i = OSQOut pq - OSQStart pq" "c = unat (OSQEntries pq)"
  note E = entries_suc [OF n, folded zic]
  have rg: "OSQOut pq = OSQStart pq + i" "i < z" "OSQEnd pq = OSQStart pq + z" "OSQIn pq = OSQStart pq + (i + c) mod z" "0 < OSQSize pq"
    using ok by (auto simp: q_ok_def zic)
  have sz: "Suc (i + c) mod z = (if Suc ((i + c) mod z) = z then 0 else Suc ((i + c) mod z))" by (simp add: mod_Suc)
  have put: "q_put x pq m = (pq\<lparr>OSQIn := OSQStart pq + (i + Suc c) mod z, OSQEntries := OSQEntries pq + 1\<rparr>,
      m(OSQStart pq + (i + c) mod z := x))"
    by (auto simp: q_put_def Let_def rg sz)
  show ?thesis
    unfolding put using rg E ring_last [OF E(2), of "OSQStart pq" i m x]
    by (simp add: q_ok_def q_items_def zic [symmetric])
qed

lemma q_put_front_ok:
  assumes ok: "q_ok pq" and n: "OSQEntries pq < OSQSize pq"
  shows "q_ok (fst (q_put_front x pq m)) \<and> q_items (fst (q_put_front x pq m)) (snd (q_put_front x pq m)) = x # q_items pq m \<and>
    OSQSize (fst (q_put_front x pq m)) = OSQSize pq"
proof -
  define z i c where zic: "z = unat (OSQSize pq)" "i = OSQOut pq - OSQStart pq" "c = unat (OSQEntries pq)"
  note E = entries_suc [OF n, folded zic]
  have rg: "OSQOut pq = OSQStart pq + i" "i < z" "OSQEnd pq = OSQStart pq + z" "OSQIn pq = OSQStart pq + (i + c) mod z" "0 < OSQSize pq"
    using ok by (auto simp: q_ok_def zic)
  define i' where "i' = (i + z - 1) mod z"
  have i': "i' = (if i = 0 then z - 1 else i - 1)" "i' < z"
    using rg(2) by (auto simp: i'_def mod_if)
  have bk: "(i' + Suc c) mod z = (i + c) mod z"
  proof (cases "i = 0")
    case True
    then have "i' + Suc c = c + z" using i' rg(2) by simp
    then show ?thesis unfolding True by (simp only: mod_add_self2 add_0)
  qed (simp add: i')
  have d: "OSQStart pq + z - Suc 0 = OSQStart pq + (z - Suc 0)" using rg(2) by (cases z) simp_all
  have put: "q_put_front x pq m = (pq\<lparr>OSQOut := OSQStart pq + i', OSQEntries := OSQEntries pq + 1\<rparr>, m(OSQStart pq + i' := x))"
    using rg(2) d by (auto simp: q_put_front_def Let_def rg i')
  show ?thesis
    unfolding put using rg E i'(2) bk ring_first [OF E(2) rg(2), of "OSQStart pq" m x]
    by (simp add: q_ok_def q_items_def zic [symmetric] i'_def)
qed

section \<open>A first-in first-out buffer\<close>

fun take_all :: "('s \<Rightarrow> 'a \<times> 's) \<Rightarrow> nat \<Rightarrow> 's \<Rightarrow> 'a list \<times> 's" where
  "take_all f 0 s = ([], s)"
| "take_all f (Suc n) s = (let (x, s) = f s; (xs, s) = take_all f n s in (x # xs, s))"

lemma take_all_length: "length (fst (take_all f n s)) = n"
  by (induction n arbitrary: s) (simp_all add: split_beta Let_def)

text \<open>The contract of a bounded buffer, and what a client gets from it.\<close>

locale fifo =
  fixes inv :: "'s \<Rightarrow> bool" and items :: "'s \<Rightarrow> 'a list" and room :: "'s \<Rightarrow> nat"
    and put :: "'a \<Rightarrow> 's \<Rightarrow> 's" and take_one :: "'s \<Rightarrow> 'a \<times> 's"
  assumes put_law: "inv s \<Longrightarrow> 0 < room s \<Longrightarrow> inv (put x s) \<and> items (put x s) = items s @ [x] \<and> room (put x s) = room s - 1"
    and take_law: "inv s \<Longrightarrow> items s \<noteq> [] \<Longrightarrow>
      inv (snd (take_one s)) \<and> items s = fst (take_one s) # items (snd (take_one s)) \<and> room (snd (take_one s)) = room s + 1"
begin

lemma put_all: "inv s \<Longrightarrow> length xs \<le> room s \<Longrightarrow> inv (fold put xs s) \<and> items (fold put xs s) = items s @ xs"
proof (induction xs arbitrary: s)
  case (Cons x xs)
  then have "inv (put x s)" "items (put x s) = items s @ [x]" "room (put x s) = room s - 1" using put_law [of s x] by auto
  then show ?case using Cons.IH [of "put x s"] Cons.prems by simp
qed simp

lemma take_all_items: "inv s \<Longrightarrow> n \<le> length (items s) \<Longrightarrow>
   inv (snd (take_all take_one n s)) \<and> items s = fst (take_all take_one n s) @ items (snd (take_all take_one n s))"
proof (induction n arbitrary: s)
  case (Suc n)
  then have "items s \<noteq> []" by auto
  with Suc.prems(1) have t: "inv (snd (take_one s))" "items s = fst (take_one s) # items (snd (take_one s))"
    using take_law [of s] by auto
  then have "n \<le> length (items (snd (take_one s)))" using Suc.prems(2) by simp
  from Suc.IH [OF t(1) this] t(2) show ?case by (auto simp: split_beta Let_def)
qed simp

text \<open>What goes into an empty buffer comes out in the same order.\<close>

lemma in_order:
  assumes "inv s" "items s = []" "length xs \<le> room s"
  shows "fst (take_all take_one (length xs) (fold put xs s)) = xs"
proof -
  have p: "inv (fold put xs s)" "items (fold put xs s) = xs" using put_all [OF assms(1,3)] assms(2) by simp_all
  show ?thesis using take_all_items [OF p(1), of "length xs"] p(2) take_all_length [of take_one "length xs"]
    by (metis append_eq_append_conv append_Nil2 order_refl)
qed

end

type_synonym ring_state = "os_q \<times> (nat \<Rightarrow> vptr)"

definition ring_ok :: "ring_state \<Rightarrow> bool" where "ring_ok s = q_ok (fst s)"
definition ring_items :: "ring_state \<Rightarrow> vptr list" where "ring_items s = q_items (fst s) (snd s)"
definition ring_room :: "ring_state \<Rightarrow> nat" where "ring_room s = unat (OSQSize (fst s)) - length (ring_items s)"
definition ring_put :: "vptr \<Rightarrow> ring_state \<Rightarrow> ring_state" where "ring_put x s = q_put x (fst s) (snd s)"
definition ring_take :: "ring_state \<Rightarrow> vptr \<times> ring_state" where
  "ring_take s = (let (x, pq) = q_take (fst s) (snd s) in (x, pq, snd s))"

lemma ring_items_bound: "ring_ok s \<Longrightarrow> length (ring_items s) \<le> unat (OSQSize (fst s))"
  by (simp add: ring_ok_def ring_items_def q_items_length q_ok_def word_le_nat_alt)

interpretation q: fifo ring_ok ring_items ring_room ring_put ring_take
proof
  fix s :: ring_state and x
  assume a: "ring_ok s" "0 < ring_room s"
  then have n: "OSQEntries (fst s) < OSQSize (fst s)"
    by (simp add: ring_room_def ring_items_def q_items_length word_less_nat_alt)
  show "ring_ok (ring_put x s) \<and> ring_items (ring_put x s) = ring_items s @ [x] \<and> ring_room (ring_put x s) = ring_room s - 1"
    using q_put_ok [OF a(1) [unfolded ring_ok_def] n, of x "snd s"]
    by (simp add: ring_ok_def ring_items_def ring_put_def ring_room_def)
next
  fix s :: ring_state
  assume a: "ring_ok s" "ring_items s \<noteq> []"
  then have "0 < length (ring_items s)" by simp
  then have n: "0 < OSQEntries (fst s)" by (simp add: ring_items_def q_items_length word_gt_0 unat_gt_0)
  note p = q_take_ok [OF a(1) [unfolded ring_ok_def] n, of "snd s"]
  show "ring_ok (snd (ring_take s)) \<and> ring_items s = fst (ring_take s) # ring_items (snd (ring_take s)) \<and>
     ring_room (snd (ring_take s)) = ring_room s + 1"
    using p ring_items_bound [OF a(1)]
    by (auto simp: ring_ok_def ring_items_def ring_take_def ring_room_def split_beta)
qed

section \<open>Posting and taking\<close>

text \<open>
  A queue as its clients see it: the messages in it and the tasks that wait; nobody waits while
  there is a message.
\<close>

definition queue_at :: "nat \<Rightarrow> nat \<Rightarrow> kernel \<Rightarrow> bool" where
  "queue_at e q k \<longleftrightarrow> e < OS_MAX_EVENTS \<and> q < OS_MAX_QS \<and> OSEventType (OSEventTbl k e) = OS_EVENT_TYPE_Q \<and>
     OSEventPtr (OSEventTbl k e) = VQ q \<and> q_ok (OSQTbl k q)"

definition messages :: "nat \<Rightarrow> kernel \<Rightarrow> vptr list" where
  "messages q k = q_items (OSQTbl k q) (OSMem k)"

definition q_size :: "nat \<Rightarrow> kernel \<Rightarrow> nat" where
  "q_size q k = unat (OSQSize (OSQTbl k q))"

lemma q_sized: "length (messages q k) = unat (OSQEntries (OSQTbl k q))"
  by (simp add: messages_def q_items_length)

lemma OSQPost_step:
  assumes ok: "kernel_ok k" and lev: "task_level k" and qu: "queue_at e q k"
  shows "\<exists>k' err. OSQPost (Some e) x k = Some (err, k') \<and> kernel_ok k' \<and> queue_at e q k' \<and>
    (if waiters e k \<noteq> {}
     then err = OS_ERR_NONE \<and> messages q k' = messages q k \<and> waiters e k' = waiters e k - {Min (waiters e k)} \<and>
       OSTCBMsg (tcb_of (Min (waiters e k)) k') = x \<and> highest_runs k' \<and>
       ready k' = ready k \<union> (if suspended (tcb_of (Min (waiters e k)) k) then {} else {Min (waiters e k)})
     else if length (messages q k) < q_size q k
     then err = OS_ERR_NONE \<and> messages q k' = messages q k @ [x] \<and> waiters e k' = {} \<and> ready k' = ready k
     else err = OS_ERR_Q_FULL \<and> k' = k)"
proof (cases "waiters e k = {}")
  case False
  have e: "e < OS_MAX_EVENTS" using qu by (simp add: queue_at_def)
  have m: "OS_STAT_Q AND OS_STAT_SUSPEND = 0" by simp
  obtain k1 k' where k': "OS_EventTaskRdy e x OS_STAT_Q OS_STAT_PEND_OK k = Some (Min (waiters e k), k1)" "OS_Sched k1 = Some k'"
    "evolves k k'" "kernel_ok k'" "highest_runs k'" "waiters e k' = waiters e k - {Min (waiters e k)}"
    "ready k' = (if suspended (tcb_of (Min (waiters e k)) k) then ready k else insert (Min (waiters e k)) (ready k))"
    "OSTCBMsg (tcb_of (Min (waiters e k)) k') = x"
    using wake_sched [OF ok lev e False m, of x OS_STAT_PEND_OK] by (elim exE conjE)
  have "OSQPost (Some e) x k = Some (OS_ERR_NONE, k')"
    using qu False k'(1,2) grp_zero_iff [OF ok e] by (simp add: OSQPost_def queue_at_def)
  moreover have "queue_at e q k'" "messages q k' = messages q k"
    using qu by (simp_all add: queue_at_def messages_def evolves_view [OF k'(3)])
  ultimately show ?thesis using k' False by auto
next
  case True
  have e: "e < OS_MAX_EVENTS" "Grp (OSEventWait (OSEventTbl k e)) = 0" "q < OS_MAX_QS" "q_ok (OSQTbl k q)"
    using qu True grp_zero_iff [OF ok, of e] by (simp_all add: queue_at_def)
  have p: "OSQPost (Some e) x k = q_store (q_put x) (OSEventTbl k e) k"
    using qu e by (simp add: OSQPost_def queue_at_def)
  have at: "q_at (OSEventPtr (OSEventTbl k e)) k = Some (q, OSQTbl k q)" using qu by (simp add: queue_at_def q_at_def)
  show ?thesis
  proof (cases "OSQEntries (OSQTbl k q) < OSQSize (OSQTbl k q)")
    case lt: True
    obtain pq m where pm: "q_put x (OSQTbl k q) (OSMem k) = (pq, m)" by fastforce
    let ?k = "set_q q pq (k\<lparr>OSMem := m\<rparr>)"
    note P = q_put_ok [OF e(4) lt, of x "OSMem k", unfolded pm]
    have same: "tasks_same k ?k" by (simp add: tasks_same_def set_q_def waiters_def)
    have "kernel_ok ?k" using ok by (intro kernel_ok_tasks_same [OF same ok]) (simp add: set_q_def kernel_okD(3) [OF ok])
    moreover have "queue_at e q ?k" using qu P by (simp add: queue_at_def set_q_def)
    moreover have "messages q ?k = messages q k @ [x]" using P by (simp add: messages_def set_q_def)
    moreover have "OSQPost (Some e) x k = Some (OS_ERR_NONE, ?k)" using p at lt by (simp add: q_store_def pm)
    moreover have "length (messages q k) < q_size q k" using lt by (simp add: q_sized q_size_def word_less_nat_alt)
    ultimately show ?thesis using True tasks_same_view(1,2) [OF same] by auto
  next
    case ge: False
    then have "OSQPost (Some e) x k = Some (OS_ERR_Q_FULL, k)" using p at by (simp add: q_store_def not_less)
    moreover have "\<not> length (messages q k) < q_size q k" using ge by (simp add: q_sized q_size_def word_less_nat_alt)
    ultimately show ?thesis using True ok qu by auto
  qed
qed

lemma OSQAccept_step:
  assumes ok: "kernel_ok k" and qu: "queue_at e q k"
  shows "\<exists>k'. OSQAccept (Some e) True k =
      Some (if messages q k = [] then (VNull, Some OS_ERR_Q_EMPTY, k) else (hd (messages q k), Some OS_ERR_NONE, k')) \<and>
    (messages q k \<noteq> [] \<longrightarrow> kernel_ok k' \<and> tasks_same k k' \<and> queue_at e q k' \<and> messages q k' = tl (messages q k) \<and>
       q_size q k' = q_size q k)"
proof -
  have e: "e < OS_MAX_EVENTS" "q < OS_MAX_QS" "q_ok (OSQTbl k q)" "OSEventType (OSEventTbl k e) = OS_EVENT_TYPE_Q"
    using qu by (simp_all add: queue_at_def)
  have at: "q_at (OSEventPtr (OSEventTbl k e)) k = Some (q, OSQTbl k q)" using qu by (simp add: queue_at_def q_at_def)
  have em: "messages q k = [] \<longleftrightarrow> \<not> 0 < OSQEntries (OSQTbl k q)"
    using q_sized [of q k] by (metis length_0_conv unat_eq_0 word_gt_0)
  show ?thesis
  proof (cases "0 < OSQEntries (OSQTbl k q)")
    case True
    obtain x pq where pm: "q_take (OSQTbl k q) (OSMem k) = (x, pq)" by fastforce
    let ?k = "set_q q pq k"
    note P = q_take_ok [OF e(3) True, of "OSMem k", unfolded pm]
    have same: "tasks_same k ?k" by (simp add: tasks_same_def set_q_def waiters_def)
    have "kernel_ok ?k" using ok by (intro kernel_ok_tasks_same [OF same ok]) (simp add: set_q_def kernel_okD(3) [OF ok])
    moreover have "queue_at e q ?k" "q_size q ?k = q_size q k" using qu P by (simp_all add: queue_at_def set_q_def q_size_def)
    moreover have "messages q k = x # messages q ?k" using P by (simp add: messages_def set_q_def)
    moreover have "OSQAccept (Some e) True k = Some (x, Some OS_ERR_NONE, ?k)"
      using e at True by (simp add: OSQAccept_def pm)
    ultimately show ?thesis using same by (intro exI [of _ ?k]) simp
  next
    case False
    then have "OSQAccept (Some e) True k = Some (VNull, Some OS_ERR_Q_EMPTY, k)" using e at by (simp add: OSQAccept_def)
    with False em show ?thesis by simp
  qed
qed

lemma OSQPend_step:
  assumes ok: "kernel_ok k" and lev: "task_level k" and qu: "queue_at e q k" and call: "at_call k p t" "p \<noteq> OS_TASK_IDLE_PRIO"
  shows "\<exists>r k'. OSQPend (Some e) timeout True k = Some (r, k') \<and> kernel_ok k' \<and> queue_at e q k' \<and>
    (if messages q k \<noteq> []
     then r = Returns (hd (messages q k), Some OS_ERR_NONE) \<and> messages q k' = tl (messages q k) \<and> ready k' = ready k \<and>
       waiters e k' = waiters e k
     else r = Blocked \<and> messages q k' = [] \<and> ready k' = ready k - {p} \<and> waiters e k' = insert p (waiters e k) \<and>
       highest_runs k' \<and> OSTCBDly (tcb_of p k') = timeout)"
proof -
  have e: "e < OS_MAX_EVENTS" "q < OS_MAX_QS" "q_ok (OSQTbl k q)" "OSEventType (OSEventTbl k e) = OS_EVENT_TYPE_Q"
    using qu by (simp_all add: queue_at_def)
  have at: "q_at (OSEventPtr (OSEventTbl k e)) k = Some (q, OSQTbl k q)" using qu by (simp add: queue_at_def q_at_def)
  have em: "messages q k = [] \<longleftrightarrow> \<not> 0 < OSQEntries (OSQTbl k q)"
    using q_sized [of q k] by (metis length_0_conv unat_eq_0 word_gt_0)
  note L = task_levelD [OF lev]
  show ?thesis
  proof (cases "messages q k = []")
    case False
    then obtain k' where a: "OSQAccept (Some e) True k = Some (hd (messages q k), Some OS_ERR_NONE, k')" "kernel_ok k'"
      "tasks_same k k'" "queue_at e q k'" "messages q k' = tl (messages q k)" using OSQAccept_step [OF ok qu] by auto
    have "OSQPend (Some e) timeout True k = Some (Returns (hd (messages q k), Some OS_ERR_NONE), k')"
      using a(1) e at L False em by (auto simp: OSQPend_def OSQAccept_def split: prod.splits)
    then show ?thesis using a False tasks_same_view(1,2) [OF a(3)]
      by (intro exI [of _ "Returns (hd (messages q k), Some OS_ERR_NONE)"] exI [of _ k']) simp
  next
    case True
    have m: "OS_STAT_Q AND OS_STAT_PEND_ANY \<noteq> 0" by simp
    obtain k1 k' where k': "pend_block OS_STAT_Q timeout e k = Some k1" "OS_Sched k1 = Some k'" "evolves k k'" "kernel_ok k'"
      "highest_runs k'" "waiters e k' = insert p (waiters e k)" "ready k' = ready k - {p}" "OSTCBDly (tcb_of p k') = timeout"
      using block_sched [OF ok lev call e(1) m, of timeout] by (elim exE conjE)
    have "OSQPend (Some e) timeout True k = Some (Blocked, k')"
      using e at L True em k'(1,2) by (simp add: OSQPend_def)
    moreover have "queue_at e q k'" "messages q k' = []"
      using qu True by (simp_all add: queue_at_def messages_def evolves_view [OF k'(3)])
    ultimately show ?thesis using k' True by auto
  qed
qed

section \<open>Creation\<close>

lemma OSQCreate_step:
  assumes ok: "kernel_ok k" and free: "events_ok k (e # es)" "OSQFreeList k = Some q" "q < OS_MAX_QS"
    and int: "OSIntNesting k = 0" and sz: "0 < qsize"
  shows "\<exists>k'. OSQCreate start qsize k = Some (Some e, k') \<and> kernel_ok k' \<and> tasks_same k k' \<and> events_ok k' es \<and>
    queue_at e q k' \<and> messages q k' = [] \<and> q_size q k' = unat qsize \<and> waiters e k' = {} \<and> OSQFreeList k' = OSQPtr (OSQTbl k q)"
proof -
  let ?pq = "(OSQTbl k q)\<lparr>OSQStart := start, OSQEnd := start + unat qsize, OSQIn := start, OSQOut := start,
      OSQSize := qsize, OSQEntries := 0\<rparr>"
  let ?k = "set_q q ?pq (k\<lparr>OSQFreeList := OSQPtr (OSQTbl k q)\<rparr>)"
  let ?mk = "\<lambda>ev::os_event. ev\<lparr>OSEventType := OS_EVENT_TYPE_Q, OSEventCnt := 0, OSEventPtr := VQ q,
     OSEventName := name_unset (OSEventName ev)\<rparr>"
  have s0: "tasks_same k ?k" by (simp add: tasks_same_def set_q_def waiters_def)
  have ok0: "kernel_ok ?k" using ok by (intro kernel_ok_tasks_same [OF s0 ok]) (simp add: set_q_def kernel_okD(3) [OF ok])
  have f0: "events_ok ?k (e # es)"
    using free(1) by (subst events_ok_cong [of ?k k]) (simp_all add: set_q_def)
  obtain k1 k' where k: "event_alloc ?k = Some (Some e, k1)" "ecb_at e k1 = Some (OSEventTbl ?k e)"
    "OS_EventWaitListInit e (set_ecb e (?mk (OSEventTbl ?k e)) k1) = Some k'" "kernel_ok k'" "tasks_same ?k k'"
    "events_ok k' es" "OSEventTbl k' = (OSEventTbl ?k)(e := (?mk (OSEventTbl ?k e))\<lparr>OSEventWait := pt_empty\<rparr>)"
    "e < OS_MAX_EVENTS" "waiters e k' = {}" "OSQTbl k' = OSQTbl ?k" "OSQFreeList k' = OSQFreeList ?k" "OSMem k' = OSMem ?k"
    using event_create_spec [OF ok0 f0, of ?mk] by auto
  have fl: "OSEventFreeList k = Some e" "e < OS_MAX_EVENTS" using free(1) by (simp_all add: events_ok_def event_free_ok_def)
  obtain n where n: "event_link (OSEventPtr (OSEventTbl k e)) = Some n"
    using event_alloc_spec [OF free(1)] fl by (auto simp: event_alloc_def split: bind_splits)
  have al: "event_alloc k = Some (Some e, k\<lparr>OSEventFreeList := n\<rparr>)" using fl n by (simp add: event_alloc_def)
  have k1: "k1 = set_q q ?pq (k\<lparr>OSEventFreeList := n, OSQFreeList := OSQPtr (OSQTbl k q)\<rparr>)"
    using k(1) fl n by (intro kernel.equality) (auto simp: event_alloc_def set_q_def)
  have "OSQCreate start qsize k = Some (Some e, k')"
    using int al k(2,3) free(2,3) by (simp add: OSQCreate_def q_at_def k1 set_q_def Let_def)
  moreover have "queue_at e q k'" "messages q k' = []" "q_size q k' = unat qsize"
    using k(7,8,10,12) free(3) sz by (simp_all add: queue_at_def q_ok_def set_q_def word_gt_0 unat_gt_0 messages_def q_items_def ring_def q_size_def)
  ultimately show ?thesis using k tasks_same_trans [OF s0 k(5)] by (simp add: set_q_def)
qed

section \<open>The queue of the kernel is such a buffer\<close>

text \<open>The state in which no task waits, and the two services as functions of the state.\<close>

definition queue_idle :: "nat \<Rightarrow> nat \<Rightarrow> kernel \<Rightarrow> bool" where
  "queue_idle e q k \<longleftrightarrow> kernel_ok k \<and> task_level k \<and> queue_at e q k \<and> waiters e k = {}"

definition post_queue :: "nat \<Rightarrow> vptr \<Rightarrow> kernel \<Rightarrow> kernel" where
  "post_queue e x k = (case OSQPost (Some e) x k of Some (_, k') \<Rightarrow> k' | None \<Rightarrow> k)"

definition accept_queue :: "nat \<Rightarrow> kernel \<Rightarrow> vptr \<times> kernel" where
  "accept_queue e k = (case OSQAccept (Some e) True k of Some (x, _, k') \<Rightarrow> (x, k') | None \<Rightarrow> (VNull, k))"

definition queue_room :: "nat \<Rightarrow> kernel \<Rightarrow> nat" where
  "queue_room q k = q_size q k - length (messages q k)"

lemma messages_bound: "queue_at e q k \<Longrightarrow> length (messages q k) \<le> q_size q k"
  by (simp add: q_sized q_size_def queue_at_def q_ok_def word_le_nat_alt)

lemma post_idle:
  assumes "queue_idle e q k" "0 < queue_room q k"
  shows "\<exists>k'. OSQPost (Some e) x k = Some (OS_ERR_NONE, k') \<and> queue_idle e q k' \<and> messages q k' = messages q k @ [x] \<and>
    q_size q k' = q_size q k"
proof -
  have i: "kernel_ok k" "task_level k" "queue_at e q k" "waiters e k = {}" using assms(1) by (simp_all add: queue_idle_def)
  have lt: "OSQEntries (OSQTbl k q) < OSQSize (OSQTbl k q)"
    using assms(2) by (simp add: queue_room_def q_sized q_size_def word_less_nat_alt)
  obtain pq m where pm: "q_put x (OSQTbl k q) (OSMem k) = (pq, m)" by fastforce
  have "q_ok (OSQTbl k q)" using i(3) by (simp add: queue_at_def)
  note P = q_put_ok [OF this lt, of x "OSMem k", unfolded pm]
  let ?k = "set_q q pq (k\<lparr>OSMem := m\<rparr>)"
  have p: "OSQPost (Some e) x k = Some (OS_ERR_NONE, ?k)"
    using i lt grp_zero_iff [OF i(1), of e] by (simp add: OSQPost_def queue_at_def q_store_def q_at_def pm)
  have "tasks_same k ?k" by (simp add: tasks_same_def set_q_def waiters_def)
  moreover obtain k' err where k': "OSQPost (Some e) x k = Some (err, k')" "kernel_ok k'" "queue_at e q k'"
    "messages q k' = messages q k @ [x]" "waiters e k' = {}"
    using OSQPost_step [OF i(1-3), of x] i(4) assms(2) by (auto simp: queue_room_def)
  ultimately show ?thesis
    using p P i(2) by (auto simp: queue_idle_def tasks_same_view q_size_def set_q_def)
qed

interpretation kq: fifo "queue_idle e q" "messages q" "queue_room q" "post_queue e" "accept_queue e" for e q
proof
  fix k x assume a: "queue_idle e q k" "0 < queue_room q k"
  obtain k' where k': "OSQPost (Some e) x k = Some (OS_ERR_NONE, k')" "queue_idle e q k'" "messages q k' = messages q k @ [x]"
    "q_size q k' = q_size q k"
    using post_idle [OF a] by blast
  then show "queue_idle e q (post_queue e x k) \<and> messages q (post_queue e x k) = messages q k @ [x] \<and>
      queue_room q (post_queue e x k) = queue_room q k - 1"
    by (simp add: post_queue_def queue_room_def)
next
  fix k assume a: "queue_idle e q k" "messages q k \<noteq> []"
  have i: "kernel_ok k" "task_level k" "queue_at e q k" "waiters e k = {}" using a(1) by (simp_all add: queue_idle_def)
  obtain k' where k': "OSQAccept (Some e) True k = Some (hd (messages q k), Some OS_ERR_NONE, k')" "kernel_ok k'" "tasks_same k k'"
    "queue_at e q k'" "messages q k' = tl (messages q k)" "q_size q k' = q_size q k"
    using OSQAccept_step [OF i(1,3)] a(2) by auto
  have "0 < length (messages q k)" "length (messages q k) \<le> q_size q k" using a(2) messages_bound [OF i(3)] by simp_all
  then have "q_size q k - (length (messages q k) - 1) = q_size q k - length (messages q k) + 1" by linarith
  then show "queue_idle e q (snd (accept_queue e k)) \<and>
      messages q k = fst (accept_queue e k) # messages q (snd (accept_queue e k)) \<and>
      queue_room q (snd (accept_queue e k)) = queue_room q k + 1"
    using k' i a(2) by (simp add: accept_queue_def queue_idle_def tasks_same_view [OF k'(3)] queue_room_def)
qed

section \<open>The properties\<close>

text \<open>C3: A queue refines a bounded sequence of messages with a set of waiting tasks. \<open>OSQPost\<close> hands
  the message to the waiting task of highest priority, or appends it, or reports that the queue is
  full and changes nothing; \<open>OSQPend\<close> takes the oldest message, or blocks the caller when there is none.\<close>

theorem queue_refines:
  assumes "kernel_ok k" "task_level k" "queue_at e q k" "at_call k p t" "p \<noteq> OS_TASK_IDLE_PRIO"
  shows "(\<exists>k' err. OSQPost (Some e) x k = Some (err, k') \<and> kernel_ok k' \<and> queue_at e q k' \<and>
      (if waiters e k \<noteq> {}
       then err = OS_ERR_NONE \<and> messages q k' = messages q k \<and> waiters e k' = waiters e k - {Min (waiters e k)} \<and>
         OSTCBMsg (tcb_of (Min (waiters e k)) k') = x \<and> highest_runs k' \<and>
         ready k' = ready k \<union> (if suspended (tcb_of (Min (waiters e k)) k) then {} else {Min (waiters e k)})
       else if length (messages q k) < q_size q k
       then err = OS_ERR_NONE \<and> messages q k' = messages q k @ [x] \<and> waiters e k' = {} \<and> ready k' = ready k
       else err = OS_ERR_Q_FULL \<and> k' = k)) \<and>
    (\<exists>r k'. OSQPend (Some e) timeout True k = Some (r, k') \<and> kernel_ok k' \<and> queue_at e q k' \<and>
      (if messages q k \<noteq> []
       then r = Returns (hd (messages q k), Some OS_ERR_NONE) \<and> messages q k' = tl (messages q k) \<and> ready k' = ready k \<and>
         waiters e k' = waiters e k
       else r = Blocked \<and> messages q k' = [] \<and> ready k' = ready k - {p} \<and> waiters e k' = insert p (waiters e k) \<and>
         highest_runs k' \<and> OSTCBDly (tcb_of p k') = timeout))"
  using OSQPost_step [OF assms(1-3)] OSQPend_step [OF assms] by blast

text \<open>The booted kernel makes a queue of three messages.\<close>

definition demo_queue :: kernel where
  "demo_queue = snd (the (OSQCreate 100 3 boot_kernel))"

lemma demo_queue_facts:
  "kernel_ok demo_queue" "task_level demo_queue" "queue_at 0 0 demo_queue" "messages 0 demo_queue = []"
  "q_size 0 demo_queue = 3" "waiters 0 demo_queue = {}" "at_call demo_queue OS_TASK_STAT_PRIO 1"
proof -
  have z: "OSIntNesting boot_kernel = 0" "(0 :: nat) < OS_MAX_QS" "0 < (3 :: INT16U)"
    using task_levelD(1) [OF boot_facts(7)] by simp_all
  obtain k' where k': "OSQCreate 100 3 boot_kernel = Some (Some 0, k')" "kernel_ok k'" "tasks_same boot_kernel k'"
    "queue_at 0 0 k'" "messages 0 k' = []" "q_size 0 k' = unat (3 :: INT16U)" "waiters 0 k' = {}"
    using OSQCreate_step [OF boot_facts(1) boot_facts(9) [unfolded events_cons] boot_facts(18) z(2,1,3), of 100] by blast
  have d: "demo_queue = k'" by (simp add: demo_queue_def k'(1))
  show "kernel_ok demo_queue" "task_level demo_queue" "queue_at 0 0 demo_queue" "messages 0 demo_queue = []"
    "q_size 0 demo_queue = 3" "waiters 0 demo_queue = {}" "at_call demo_queue OS_TASK_STAT_PRIO 1"
    using k' boot_facts(7,16) by (simp_all add: d tasks_same_view [OF k'(3)])
qed

theorem queue_refines_witness:
  "(\<exists>k'. OSQPost (Some 0) (VAddr 7) demo_queue = Some (OS_ERR_NONE, k') \<and> messages 0 k' = [VAddr 7]) \<and>
   (\<exists>k'. OSQPend (Some 0) 50 True demo_queue = Some (Blocked, k') \<and> waiters 0 k' = {OS_TASK_STAT_PRIO})"
proof -
  have p: "OS_TASK_STAT_PRIO \<noteq> OS_TASK_IDLE_PRIO" by simp
  show ?thesis
    using queue_refines [OF demo_queue_facts(1-3,7) p, of "VAddr 7" 50] demo_queue_facts(4-6) by auto
qed

text \<open>C4: Messages come out of a queue in the order in which they were posted.\<close>

theorem queue_in_order:
  assumes "kernel_ok k" "task_level k" "queue_at e q k" "waiters e k = {}" "messages q k = []" "length xs \<le> q_size q k"
  shows "fst (take_all (accept_queue e) (length xs) (fold (post_queue e) xs k)) = xs"
  using kq.in_order [of e q k xs] assms by (simp add: queue_idle_def queue_room_def)

theorem queue_in_order_witness:
  "fst (take_all (accept_queue 0) 3 (fold (post_queue 0) [VAddr 1, VAddr 2, VAddr 3] demo_queue)) =
     [VAddr 1, VAddr 2, VAddr 3]"
  using queue_in_order [OF demo_queue_facts(1-3,6,4), of "[VAddr 1, VAddr 2, VAddr 3]"] demo_queue_facts(5)
  by (simp add: numeral_3_eq_3)

end
