(* ===== verification/Os_Flag.thy ===== *)
theory Os_Flag
  imports Os_Sem
begin

text \<open>
  Event flags, \<^verbatim>\<open>UCOSII/src/os_flag.c\<close>. A group holds 16 flags and a doubly linked list of the
  nodes of the tasks that wait for some of them; the node is a local variable of the waiting
  call, so its number is that of the task's control block.
\<close>

section \<open>Data\<close>

abbreviation OS_EVENT_TYPE_FLAG :: INT8U where "OS_EVENT_TYPE_FLAG \<equiv> 5"
abbreviation OS_STAT_FLAG :: INT8U where "OS_STAT_FLAG \<equiv> 0x20"
abbreviation OS_FLAG_WAIT_CLR_ALL :: INT8U where "OS_FLAG_WAIT_CLR_ALL \<equiv> 0"
abbreviation OS_FLAG_WAIT_CLR_ANY :: INT8U where "OS_FLAG_WAIT_CLR_ANY \<equiv> 1"
abbreviation OS_FLAG_WAIT_SET_ALL :: INT8U where "OS_FLAG_WAIT_SET_ALL \<equiv> 2"
abbreviation OS_FLAG_WAIT_SET_ANY :: INT8U where "OS_FLAG_WAIT_SET_ANY \<equiv> 3"
abbreviation OS_FLAG_CONSUME :: INT8U where "OS_FLAG_CONSUME \<equiv> 0x80"
abbreviation OS_FLAG_CLR :: INT8U where "OS_FLAG_CLR \<equiv> 0"
abbreviation OS_FLAG_SET :: INT8U where "OS_FLAG_SET \<equiv> 1"
abbreviation OS_ERR_CREATE_ISR :: INT8U where "OS_ERR_CREATE_ISR \<equiv> 16"
abbreviation OS_ERR_FLAG_INVALID_PGRP :: INT8U where "OS_ERR_FLAG_INVALID_PGRP \<equiv> 110"
abbreviation OS_ERR_FLAG_WAIT_TYPE :: INT8U where "OS_ERR_FLAG_WAIT_TYPE \<equiv> 111"
abbreviation OS_ERR_FLAG_NOT_RDY :: INT8U where "OS_ERR_FLAG_NOT_RDY \<equiv> 112"
abbreviation OS_ERR_FLAG_INVALID_OPT :: INT8U where "OS_ERR_FLAG_INVALID_OPT \<equiv> 113"
abbreviation OS_ERR_FLAG_GRP_DEPLETED :: INT8U where "OS_ERR_FLAG_GRP_DEPLETED \<equiv> 114"
abbreviation OS_ERR_FLAG_NAME_TOO_LONG :: INT8U where "OS_ERR_FLAG_NAME_TOO_LONG \<equiv> 115"

type_synonym OS_FLAGS = INT16U

definition grp_at :: "nat \<Rightarrow> kernel \<Rightarrow> os_flag_grp option" where
  "grp_at g k = (if g < OS_MAX_FLAGS then Some (OSFlagTbl k g) else None)"

definition set_grp :: "nat \<Rightarrow> os_flag_grp \<Rightarrow> kernel \<Rightarrow> kernel" where
  "set_grp g b k = k\<lparr>OSFlagTbl := (OSFlagTbl k)(g := b)\<rparr>"

definition node_at :: "nat \<Rightarrow> kernel \<Rightarrow> os_flag_node option" where
  "node_at n k = (if n < OS_N_TCBS then Some (OSFlagNodes k n) else None)"

definition set_node :: "nat \<Rightarrow> os_flag_node \<Rightarrow> kernel \<Rightarrow> kernel" where
  "set_node n b k = k\<lparr>OSFlagNodes := (OSFlagNodes k)(n := b)\<rparr>"

text \<open>Pointers read as pointers to a node, a group, a task.\<close>

fun node_of :: "vptr \<Rightarrow> nat option option" where
  "node_of VNull = Some None"
| "node_of (VFlagNode n) = Some (Some n)"
| "node_of _ = None"

fun grp_of :: "vptr \<Rightarrow> nat option option" where
  "grp_of VNull = Some None"
| "grp_of (VFlagGrp g) = Some (Some g)"
| "grp_of _ = None"

fun tcb_ptr :: "vptr \<Rightarrow> nat option" where
  "tcb_ptr (VTcb t) = Some t"
| "tcb_ptr _ = None"

section \<open>The condition a task waits for\<close>

text \<open>
  The flags of \<open>flags\<close> that are in the wanted state, whether they satisfy the condition, and what
  is left of the group's flags when they are consumed. The four cases of the switches in
  \<open>OSFlagAccept\<close>, \<open>OSFlagPend\<close> and \<open>OSFlagPost\<close>.
\<close>

definition flags_match :: "INT8U \<Rightarrow> OS_FLAGS \<Rightarrow> OS_FLAGS \<Rightarrow> (OS_FLAGS \<times> bool) option" where
  "flags_match wait_type cur flags =
     (if wait_type = OS_FLAG_WAIT_SET_ALL then let rdy = cur AND flags in Some (rdy, rdy = flags)
      else if wait_type = OS_FLAG_WAIT_SET_ANY then let rdy = cur AND flags in Some (rdy, rdy \<noteq> 0)
      else if wait_type = OS_FLAG_WAIT_CLR_ALL then let rdy = NOT cur AND flags in Some (rdy, rdy = flags)
      else if wait_type = OS_FLAG_WAIT_CLR_ANY then let rdy = NOT cur AND flags in Some (rdy, rdy \<noteq> 0)
      else None)"

definition flags_consume :: "INT8U \<Rightarrow> OS_FLAGS \<Rightarrow> OS_FLAGS \<Rightarrow> OS_FLAGS" where
  "flags_consume wait_type cur rdy =
     (if wait_type = OS_FLAG_WAIT_SET_ALL \<or> wait_type = OS_FLAG_WAIT_SET_ANY then cur AND NOT rdy else cur OR rdy)"

section \<open>Nodes\<close>

definition OS_FlagBlock :: "nat \<Rightarrow> nat \<Rightarrow> OS_FLAGS \<Rightarrow> INT8U \<Rightarrow> INT16U \<Rightarrow> kernel \<Rightarrow> kernel option" where
  "OS_FlagBlock pgrp pnode flags wait_type timeout k = do {
     (c, b) \<leftarrow> cur_tcb k;
     let k = set_tcb c (b\<lparr>OSTCBStat := OSTCBStat b OR OS_STAT_FLAG, OSTCBStatPend := OS_STAT_PEND_OK,
                         OSTCBDly := timeout, OSTCBFlagNode := Some pnode\<rparr>) k;
     g \<leftarrow> grp_at pgrp k;
     let k = set_node pnode \<lparr>OSFlagNodeNext = OSFlagWaitList g, OSFlagNodePrev = VNull, OSFlagNodeTCB = VTcb c,
               OSFlagNodeFlagGrp = VFlagGrp pgrp, OSFlagNodeFlags = flags, OSFlagNodeWaitType = wait_type\<rparr> k;
     pnode_next \<leftarrow> node_of (OSFlagWaitList g);
     k \<leftarrow> (case pnode_next of None \<Rightarrow> Some k
          | Some n \<Rightarrow> do { nd \<leftarrow> node_at n k; Some (set_node n (nd\<lparr>OSFlagNodePrev := VFlagNode pnode\<rparr>) k) });
     cur_unready (set_grp pgrp (g\<lparr>OSFlagWaitList := VFlagNode pnode\<rparr>) k) }"

definition OS_FlagUnlink :: "nat \<Rightarrow> kernel \<Rightarrow> kernel option" where
  "OS_FlagUnlink pnode k = do {
     nd \<leftarrow> node_at pnode k;
     pnode_prev \<leftarrow> node_of (OSFlagNodePrev nd);
     pnode_next \<leftarrow> node_of (OSFlagNodeNext nd);
     k \<leftarrow> (case pnode_prev of
            None \<Rightarrow> do {
              pg \<leftarrow> grp_of (OSFlagNodeFlagGrp nd);
              pgrp \<leftarrow> pg;
              g \<leftarrow> grp_at pgrp k;
              Some (set_grp pgrp (g\<lparr>OSFlagWaitList := OSFlagNodeNext nd\<rparr>) k) }
          | Some p \<Rightarrow> do { pd \<leftarrow> node_at p k; Some (set_node p (pd\<lparr>OSFlagNodeNext := OSFlagNodeNext nd\<rparr>) k) });
     k \<leftarrow> (case pnode_next of
            None \<Rightarrow> Some k
          | Some n \<Rightarrow> do {
              xd \<leftarrow> node_at n k;
              Some (set_node n (xd\<lparr>OSFlagNodePrev := (case pnode_prev of None \<Rightarrow> VNull | Some p \<Rightarrow> VFlagNode p)\<rparr>) k) });
     t \<leftarrow> tcb_ptr (OSFlagNodeTCB nd);
     b \<leftarrow> tcb_at t k;
     Some (set_tcb t (b\<lparr>OSTCBFlagNode := None\<rparr>) k) }"

definition OS_FlagTaskRdy :: "nat \<Rightarrow> OS_FLAGS \<Rightarrow> kernel \<Rightarrow> (bool \<times> kernel) option" where
  "OS_FlagTaskRdy pnode flags_rdy k = do {
     nd \<leftarrow> node_at pnode k;
     t \<leftarrow> tcb_ptr (OSFlagNodeTCB nd);
     b \<leftarrow> tcb_at t k;
     let b = b\<lparr>OSTCBDly := 0, OSTCBFlagsRdy := flags_rdy, OSTCBStat := OSTCBStat b AND NOT OS_STAT_FLAG,
               OSTCBStatPend := OS_STAT_PEND_OK\<rparr>;
     let k = set_tcb t b k;
     (sched, k) \<leftarrow> (if OSTCBStat b = OS_STAT_RDY
                   then do { k \<leftarrow> make_ready (OSTCBY b) b k; Some (True, k) } else Some (False, k));
     k \<leftarrow> OS_FlagUnlink pnode k;
     Some (sched, k) }"

section \<open>The operations\<close>

definition OSFlagAccept ::
  "nat option \<Rightarrow> OS_FLAGS \<Rightarrow> INT8U \<Rightarrow> bool \<Rightarrow> kernel \<Rightarrow> (OS_FLAGS \<times> INT8U option \<times> kernel) option" where
  "OSFlagAccept pgrp flags wait_type perr k =
     (if \<not> perr then Some (0, None, k)
      else case pgrp of None \<Rightarrow> Some (0, Some OS_ERR_FLAG_INVALID_PGRP, k)
      | Some p \<Rightarrow> do {
          g \<leftarrow> grp_at p k;
          if OSFlagType g \<noteq> OS_EVENT_TYPE_FLAG then Some (0, Some OS_ERR_EVENT_TYPE, k)
          else let consume = (wait_type AND OS_FLAG_CONSUME \<noteq> 0);
                   wait_type = wait_type AND NOT OS_FLAG_CONSUME
          in case flags_match wait_type (OSFlagFlags g) flags of
               None \<Rightarrow> Some (0, Some OS_ERR_FLAG_WAIT_TYPE, k)
             | Some (flags_rdy, rdy) \<Rightarrow>
                 if rdy
                 then Some (flags_rdy, Some OS_ERR_NONE,
                        if consume
                        then set_grp p (g\<lparr>OSFlagFlags := flags_consume wait_type (OSFlagFlags g) flags_rdy\<rparr>) k else k)
                 else Some (flags_rdy, Some OS_ERR_FLAG_NOT_RDY, k) })"

definition OSFlagCreate :: "OS_FLAGS \<Rightarrow> bool \<Rightarrow> kernel \<Rightarrow> (nat option \<times> INT8U option \<times> kernel) option" where
  "OSFlagCreate flags perr k =
     (if \<not> perr then Some (None, None, k)
      else if OSIntNesting k > 0 then Some (None, Some OS_ERR_CREATE_ISR, k)
      else case OSFlagFreeList k of
        None \<Rightarrow> Some (None, Some OS_ERR_FLAG_GRP_DEPLETED, k)
      | Some p \<Rightarrow> do {
          g \<leftarrow> grp_at p k;
          next \<leftarrow> grp_of (OSFlagWaitList g);
          Some (Some p, Some OS_ERR_NONE,
            set_grp p (g\<lparr>OSFlagType := OS_EVENT_TYPE_FLAG, OSFlagFlags := flags, OSFlagWaitList := VNull,
                        OSFlagName := name_unset (OSFlagName g)\<rparr>) (k\<lparr>OSFlagFreeList := next\<rparr>)) })"

text \<open>Giving a group back, and waking every task that waits for it.\<close>

definition flag_free :: "nat \<Rightarrow> kernel \<Rightarrow> kernel option" where
  "flag_free p k = do {
     g \<leftarrow> grp_at p k;
     Some (set_grp p (g\<lparr>OSFlagName := name_unset (OSFlagName g), OSFlagType := OS_EVENT_TYPE_UNUSED,
            OSFlagWaitList := (case OSFlagFreeList k of None \<Rightarrow> VNull | Some f \<Rightarrow> VFlagGrp f), OSFlagFlags := 0\<rparr>) k
           \<lparr>OSFlagFreeList := Some p\<rparr>) }"

partial_function (option) flag_rdy_all :: "nat option \<Rightarrow> kernel \<Rightarrow> kernel option" where
  "flag_rdy_all pnode k =
     (case pnode of None \<Rightarrow> Some k
      | Some n \<Rightarrow> do {
          (_, k) \<leftarrow> OS_FlagTaskRdy n 0 k;
          nd \<leftarrow> node_at n k;
          next \<leftarrow> node_of (OSFlagNodeNext nd);
          flag_rdy_all next k })"

definition OSFlagDel :: "nat option \<Rightarrow> INT8U \<Rightarrow> bool \<Rightarrow> kernel \<Rightarrow> (nat option \<times> INT8U option \<times> kernel) option" where
  "OSFlagDel pgrp opt perr k =
     (if \<not> perr then Some (pgrp, None, k)
      else case pgrp of None \<Rightarrow> Some (pgrp, Some OS_ERR_FLAG_INVALID_PGRP, k)
      | Some p \<Rightarrow>
          if OSIntNesting k > 0 then Some (pgrp, Some OS_ERR_DEL_ISR, k)
          else do {
            g \<leftarrow> grp_at p k;
            if OSFlagType g \<noteq> OS_EVENT_TYPE_FLAG then Some (pgrp, Some OS_ERR_EVENT_TYPE, k)
            else let tasks_waiting = (OSFlagWaitList g \<noteq> VNull)
            in if opt = OS_DEL_NO_PEND then
                 if \<not> tasks_waiting then do { k \<leftarrow> flag_free p k; Some (None, Some OS_ERR_NONE, k) }
                 else Some (pgrp, Some OS_ERR_TASK_WAITING, k)
               else if opt = OS_DEL_ALWAYS then do {
                 pnode \<leftarrow> node_of (OSFlagWaitList g);
                 k \<leftarrow> flag_rdy_all pnode k;
                 k \<leftarrow> flag_free p k;
                 k \<leftarrow> (if tasks_waiting then OS_Sched k else Some k);
                 Some (None, Some OS_ERR_NONE, k) }
               else Some (pgrp, Some OS_ERR_INVALID_OPT, k) })"

definition OSFlagNameGet ::
  "nat option \<Rightarrow> INT8U list option \<Rightarrow> bool \<Rightarrow> kernel \<Rightarrow> (INT8U \<times> INT8U option \<times> INT8U list option) option" where
  "OSFlagNameGet pgrp pname perr k =
     (if \<not> perr then Some (0, None, pname)
      else case pgrp of None \<Rightarrow> Some (0, Some OS_ERR_FLAG_INVALID_PGRP, pname)
      | Some p \<Rightarrow> (case pname of None \<Rightarrow> Some (0, Some OS_ERR_PNAME_NULL, pname)
      | Some buf \<Rightarrow>
         if OSIntNesting k > 0 then Some (0, Some OS_ERR_NAME_GET_ISR, pname)
         else do {
           g \<leftarrow> grp_at p k;
           if OSFlagType g \<noteq> OS_EVENT_TYPE_FLAG then Some (0, Some OS_ERR_EVENT_TYPE, pname)
           else do { (len, buf') \<leftarrow> OS_StrCopy buf (OSFlagName g); Some (len, Some OS_ERR_NONE, Some buf') } }))"

definition OSFlagNameSet ::
  "nat option \<Rightarrow> INT8U list option \<Rightarrow> bool \<Rightarrow> kernel \<Rightarrow> (INT8U option \<times> kernel) option" where
  "OSFlagNameSet pgrp pname perr k =
     (if \<not> perr then Some (None, k)
      else case pgrp of None \<Rightarrow> Some (Some OS_ERR_FLAG_INVALID_PGRP, k)
      | Some p \<Rightarrow> (case pname of None \<Rightarrow> Some (Some OS_ERR_PNAME_NULL, k)
      | Some name \<Rightarrow>
         if OSIntNesting k > 0 then Some (Some OS_ERR_NAME_SET_ISR, k)
         else do {
           g \<leftarrow> grp_at p k;
           if OSFlagType g \<noteq> OS_EVENT_TYPE_FLAG then Some (Some OS_ERR_EVENT_TYPE, k)
           else do {
             len \<leftarrow> OS_StrLen name;
             if len > of_nat (OS_FLAG_NAME_SIZE - 1) then Some (Some OS_ERR_FLAG_NAME_TOO_LONG, k)
             else do {
               (_, buf) \<leftarrow> OS_StrCopy (OSFlagName g) name;
               Some (Some OS_ERR_NONE, set_grp p (g\<lparr>OSFlagName := buf\<rparr>) k) } } }))"

text \<open>
  \<open>OSFlagPend\<close> up to the call of \<open>OS_Sched\<close>, and from there on; the second part needs the kind of
  wait and whether to consume, which it computed before.
\<close>

definition OSFlagPend ::
  "nat option \<Rightarrow> OS_FLAGS \<Rightarrow> INT8U \<Rightarrow> INT16U \<Rightarrow> bool \<Rightarrow> kernel \<Rightarrow> ((OS_FLAGS \<times> INT8U option) outcome \<times> kernel) option" where
  "OSFlagPend pgrp flags wait_type timeout perr k =
     (if \<not> perr then Some (Returns (0, None), k)
      else case pgrp of None \<Rightarrow> Some (Returns (0, Some OS_ERR_FLAG_INVALID_PGRP), k)
      | Some p \<Rightarrow>
          if OSIntNesting k > 0 then Some (Returns (0, Some OS_ERR_PEND_ISR), k)
          else if OSLockNesting k > 0 then Some (Returns (0, Some OS_ERR_PEND_LOCKED), k)
          else do {
            g \<leftarrow> grp_at p k;
            if OSFlagType g \<noteq> OS_EVENT_TYPE_FLAG then Some (Returns (0, Some OS_ERR_EVENT_TYPE), k)
            else let consume = (wait_type AND OS_FLAG_CONSUME \<noteq> 0);
                     wait_type = wait_type AND NOT OS_FLAG_CONSUME
            in case flags_match wait_type (OSFlagFlags g) flags of
                 None \<Rightarrow> Some (Returns (0, Some OS_ERR_FLAG_WAIT_TYPE), k)
               | Some (flags_rdy, rdy) \<Rightarrow>
                   if rdy then do {
                     let k = (if consume
                        then set_grp p (g\<lparr>OSFlagFlags := flags_consume wait_type (OSFlagFlags g) flags_rdy\<rparr>) k else k);
                     (c, b) \<leftarrow> cur_tcb k;
                     Some (Returns (flags_rdy, Some OS_ERR_NONE), set_tcb c (b\<lparr>OSTCBFlagsRdy := flags_rdy\<rparr>) k) }
                   else do {
                     c \<leftarrow> OSTCBCur k;
                     k \<leftarrow> OS_FlagBlock p c flags wait_type timeout k;
                     k \<leftarrow> OS_Sched k;
                     Some (Blocked, k) } })"

definition OSFlagPend_resume :: "nat \<Rightarrow> INT8U \<Rightarrow> bool \<Rightarrow> kernel \<Rightarrow> (OS_FLAGS \<times> INT8U \<times> kernel) option" where
  "OSFlagPend_resume p wait_type consume k = do {
     (c, b) \<leftarrow> cur_tcb k;
     if OSTCBStatPend b \<noteq> OS_STAT_PEND_OK then do {
       let pend_stat = OSTCBStatPend b;
       k \<leftarrow> OS_FlagUnlink c (set_tcb c (b\<lparr>OSTCBStatPend := OS_STAT_PEND_OK\<rparr>) k);
       b \<leftarrow> tcb_at c k;
       Some (0, if pend_stat = OS_STAT_PEND_ABORT then OS_ERR_PEND_ABORT else OS_ERR_TIMEOUT,
             set_tcb c (b\<lparr>OSTCBStat := OS_STAT_RDY\<rparr>) k) }
     else let flags_rdy = OSTCBFlagsRdy b
          in if consume
             then if wait_type \<le> OS_FLAG_WAIT_SET_ANY
                  then do {
                    g \<leftarrow> grp_at p k;
                    Some (flags_rdy, OS_ERR_NONE,
                      set_grp p (g\<lparr>OSFlagFlags := flags_consume wait_type (OSFlagFlags g) flags_rdy\<rparr>) k) }
                  else Some (0, OS_ERR_FLAG_WAIT_TYPE, k)
             else Some (flags_rdy, OS_ERR_NONE, k) }"

definition OSFlagPendGetFlagsRdy :: "kernel \<Rightarrow> OS_FLAGS option" where
  "OSFlagPendGetFlagsRdy k = do { (c, b) \<leftarrow> cur_tcb k; Some (OSTCBFlagsRdy b) }"

text \<open>
  The loop of \<open>OSFlagPost\<close> over the waiting nodes. The result is None when a node has a kind of wait
  that does not exist; otherwise it tells whether a task became ready.
\<close>

partial_function (option) flag_post_loop :: "nat \<Rightarrow> nat option \<Rightarrow> bool \<Rightarrow> kernel \<Rightarrow> (bool option \<times> kernel) option" where
  "flag_post_loop p pnode sched k =
     (case pnode of None \<Rightarrow> Some (Some sched, k)
      | Some n \<Rightarrow> do {
          nd \<leftarrow> node_at n k;
          g \<leftarrow> grp_at p k;
          case flags_match (OSFlagNodeWaitType nd) (OSFlagFlags g) (OSFlagNodeFlags nd) of
            None \<Rightarrow> Some (None, k)
          | Some (flags_rdy, hit) \<Rightarrow> do {
              (rdy, k) \<leftarrow> (if hit then OS_FlagTaskRdy n flags_rdy k else Some (False, k));
              nd \<leftarrow> node_at n k;
              next \<leftarrow> node_of (OSFlagNodeNext nd);
              flag_post_loop p next (sched \<or> rdy) k } })"

definition OSFlagPost ::
  "nat option \<Rightarrow> OS_FLAGS \<Rightarrow> INT8U \<Rightarrow> bool \<Rightarrow> kernel \<Rightarrow> (OS_FLAGS \<times> INT8U option \<times> kernel) option" where
  "OSFlagPost pgrp flags opt perr k =
     (if \<not> perr then Some (0, None, k)
      else case pgrp of None \<Rightarrow> Some (0, Some OS_ERR_FLAG_INVALID_PGRP, k)
      | Some p \<Rightarrow> do {
          g \<leftarrow> grp_at p k;
          if OSFlagType g \<noteq> OS_EVENT_TYPE_FLAG then Some (0, Some OS_ERR_EVENT_TYPE, k)
          else if opt \<noteq> OS_FLAG_CLR \<and> opt \<noteq> OS_FLAG_SET then Some (0, Some OS_ERR_FLAG_INVALID_OPT, k)
          else do {
            let k = set_grp p (g\<lparr>OSFlagFlags :=
              (if opt = OS_FLAG_CLR then OSFlagFlags g AND NOT flags else OSFlagFlags g OR flags)\<rparr>) k;
            pnode \<leftarrow> node_of (OSFlagWaitList g);
            (r, k) \<leftarrow> flag_post_loop p pnode False k;
            case r of None \<Rightarrow> Some (0, Some OS_ERR_FLAG_WAIT_TYPE, k)
            | Some sched \<Rightarrow> do {
                k \<leftarrow> (if sched then OS_Sched k else Some k);
                g \<leftarrow> grp_at p k;
                Some (OSFlagFlags g, Some OS_ERR_NONE, k) } } })"

definition OSFlagQuery :: "nat option \<Rightarrow> bool \<Rightarrow> kernel \<Rightarrow> (OS_FLAGS \<times> INT8U option) option" where
  "OSFlagQuery pgrp perr k =
     (if \<not> perr then Some (0, None)
      else case pgrp of None \<Rightarrow> Some (0, Some OS_ERR_FLAG_INVALID_PGRP)
      | Some p \<Rightarrow> do {
          g \<leftarrow> grp_at p k;
          if OSFlagType g \<noteq> OS_EVENT_TYPE_FLAG then Some (0, Some OS_ERR_EVENT_TYPE)
          else Some (OSFlagFlags g, Some OS_ERR_NONE) })"

end
