(* ===== verification/Os_Flag_List.thy ===== *)
theory Os_Flag_List
  imports Os_Flag Os_Calls
begin

text \<open>
  The doubly linked list of the tasks that wait for a group of flags: pending links a node in
  front, posting takes out exactly the nodes whose condition holds and wakes their tasks.
\<close>

section \<open>The list of waiting nodes\<close>

text \<open>
  \<open>flag_seg N pv h ns l\<close>: from the pointer \<open>h\<close> on, the nodes \<open>ns\<close> are linked in both directions;
  the first points back to \<open>pv\<close>, the last forward to \<open>l\<close>.
\<close>

fun flag_seg :: "(nat \<Rightarrow> os_flag_node) \<Rightarrow> vptr \<Rightarrow> vptr \<Rightarrow> nat list \<Rightarrow> vptr \<Rightarrow> bool" where
  "flag_seg N pv h [] l \<longleftrightarrow> h = l"
| "flag_seg N pv h (n # ns) l \<longleftrightarrow> h = VFlagNode n \<and> OSFlagNodePrev (N n) = pv \<and> flag_seg N (VFlagNode n) (OSFlagNodeNext (N n)) ns l"

definition last_node :: "vptr \<Rightarrow> nat list \<Rightarrow> vptr" where
  "last_node pv ns = (if ns = [] then pv else VFlagNode (last ns))"

lemma last_node_simps [simp]:
  "last_node pv [] = pv" "last_node pv (n # ns) = last_node (VFlagNode n) ns" "last_node pv (ns @ [n]) = VFlagNode n"
  by (simp_all add: last_node_def)

lemma flag_seg_append: "flag_seg N pv h (xs @ ys) l \<longleftrightarrow> (\<exists>m. flag_seg N pv h xs m \<and> flag_seg N (last_node pv xs) m ys l)"
  by (induction xs arbitrary: pv h) auto

lemma flag_seg_cong: "(\<And>n. n \<in> set ns \<Longrightarrow> N' n = N n) \<Longrightarrow> flag_seg N' pv h ns l \<longleftrightarrow> flag_seg N pv h ns l"
  by (induction ns arbitrary: pv h) auto

lemma flag_seg_next:
  assumes "flag_seg N pv h (xs @ [p]) l" "p \<notin> set xs"
  shows "flag_seg (N(p := (N p)\<lparr>OSFlagNodeNext := l'\<rparr>)) pv h (xs @ [p]) l'"
  using assms
proof (induction xs arbitrary: pv h)
  case (Cons x xs)
  then show ?case by (auto simp: fun_upd_other)
qed simp

lemma flag_seg_prev:
  assumes "flag_seg N pv h (n # ns) l" "n \<notin> set ns"
  shows "flag_seg (N(n := (N n)\<lparr>OSFlagNodePrev := pv'\<rparr>)) pv' h (n # ns) l"
proof -
  have "flag_seg (N(n := (N n)\<lparr>OSFlagNodePrev := pv'\<rparr>)) (VFlagNode n) (OSFlagNodeNext (N n)) ns l"
    using assms by (subst flag_seg_cong [of _ _ N]) auto
  then show ?thesis using assms(1) by simp
qed

lemma flag_seg_head: "flag_seg N pv h ns VNull \<Longrightarrow> h = (case ns of [] \<Rightarrow> VNull | n # _ \<Rightarrow> VFlagNode n)"
  by (cases ns) auto

text \<open>What \<open>OS_FlagUnlink\<close> does to the nodes and to the head of the list.\<close>

definition flag_cut :: "nat \<Rightarrow> nat list \<Rightarrow> nat list \<Rightarrow> (nat \<Rightarrow> os_flag_node) \<Rightarrow> (nat \<Rightarrow> os_flag_node)" where
  "flag_cut n xs ys N =
     (let N = (if xs = [] then N else N(last xs := (N (last xs))\<lparr>OSFlagNodeNext := OSFlagNodeNext (N n)\<rparr>))
      in if ys = [] then N else N(hd ys := (N (hd ys))\<lparr>OSFlagNodePrev := last_node VNull xs\<rparr>))"

lemma flag_cut_other:
  assumes "m \<notin> set xs" "m \<notin> set ys"
  shows "flag_cut n xs ys N m = N m"
proof -
  have "m \<noteq> last xs" if "xs \<noteq> []" using assms(1) last_in_set [OF that] by blast
  moreover have "m \<noteq> hd ys" if "ys \<noteq> []" using assms(2) hd_in_set [OF that] by blast
  ultimately show ?thesis by (simp add: flag_cut_def Let_def)
qed

lemma flag_cut_fields [simp]:
  "OSFlagNodeTCB (flag_cut n xs ys N m) = OSFlagNodeTCB (N m)" "OSFlagNodeFlagGrp (flag_cut n xs ys N m) = OSFlagNodeFlagGrp (N m)"
  "OSFlagNodeFlags (flag_cut n xs ys N m) = OSFlagNodeFlags (N m)" "OSFlagNodeWaitType (flag_cut n xs ys N m) = OSFlagNodeWaitType (N m)"
  by (simp_all add: flag_cut_def Let_def)

lemma flag_cut_seg:
  assumes "flag_seg N VNull h (xs @ n # ys) VNull" "distinct (xs @ n # ys)"
  shows "flag_seg (flag_cut n xs ys N) VNull (if xs = [] then OSFlagNodeNext (N n) else h) (xs @ ys) VNull"
proof -
  obtain m where m: "flag_seg N VNull h xs m" "m = VFlagNode n" "flag_seg N (VFlagNode n) (OSFlagNodeNext (N n)) ys VNull"
    "OSFlagNodePrev (N n) = last_node VNull xs"
    using assms(1) by (auto simp: flag_seg_append)
  define N1 where "N1 = (if xs = [] then N else N(last xs := (N (last xs))\<lparr>OSFlagNodeNext := OSFlagNodeNext (N n)\<rparr>))"
  define N2 where "N2 = (if ys = [] then N1 else N1(hd ys := (N1 (hd ys))\<lparr>OSFlagNodePrev := last_node VNull xs\<rparr>))"
  have N2: "flag_cut n xs ys N = N2" by (simp add: flag_cut_def N1_def N2_def Let_def)
  have x1: "flag_seg N1 VNull (if xs = [] then OSFlagNodeNext (N n) else h) xs (OSFlagNodeNext (N n))"
  proof (cases xs rule: rev_cases)
    case (snoc us p)
    then show ?thesis using flag_seg_next [of N VNull h us p m] m(1) assms(2) by (simp add: N1_def)
  qed simp
  have y1: "flag_seg N1 (VFlagNode n) (OSFlagNodeNext (N n)) ys VNull"
  proof -
    have "last xs \<notin> set ys" if "xs \<noteq> []" using assms(2) last_in_set [OF that] by auto
    then show ?thesis using m(3) by (subst flag_seg_cong [of _ _ N]) (auto simp: N1_def)
  qed
  have y2: "flag_seg N2 (last_node VNull xs) (OSFlagNodeNext (N n)) ys VNull"
  proof (cases ys)
    case Nil
    then show ?thesis using y1 by (simp add: N2_def)
  next
    case (Cons y us)
    then show ?thesis using flag_seg_prev [of N1 "VFlagNode n" _ y us] y1 assms(2) by (simp add: N2_def)
  qed
  have "hd ys \<notin> set xs" if "ys \<noteq> []" using assms(2) hd_in_set [OF that] by auto
  then have "flag_seg N2 VNull (if xs = [] then OSFlagNodeNext (N n) else h) xs (OSFlagNodeNext (N n))"
    using x1 by (subst flag_seg_cong [of _ _ N1]) (auto simp: N2_def)
  then show ?thesis using y2 by (auto simp: flag_seg_append N2)
qed

section \<open>The invariant of a group\<close>

text \<open>A node belongs to a task that is in no other wait list, and to the group.\<close>

definition node_ok :: "nat \<Rightarrow> kernel \<Rightarrow> nat \<Rightarrow> bool" where
  "node_ok g k n \<longleftrightarrow> n < OS_N_TCBS \<and> OSFlagNodeTCB (OSFlagNodes k n) = VTcb n \<and> OSFlagNodeFlagGrp (OSFlagNodes k n) = VFlagGrp g \<and>
     OSFlagNodeWaitType (OSFlagNodes k n) \<le> OS_FLAG_WAIT_SET_ANY \<and> (\<exists>p. tcb_prio p k = Some n \<and> waits p k = {})"

definition flag_list :: "nat \<Rightarrow> kernel \<Rightarrow> nat list \<Rightarrow> bool" where
  "flag_list g k ns \<longleftrightarrow> g < OS_MAX_FLAGS \<and> distinct ns \<and> flag_seg (OSFlagNodes k) VNull (OSFlagWaitList (OSFlagTbl k g)) ns VNull \<and>
     (\<forall>n \<in> set ns. node_ok g k n)"

text \<open>Only the variables of flags change.\<close>

definition set_flags :: "(nat \<Rightarrow> os_flag_grp) \<Rightarrow> (nat \<Rightarrow> os_flag_node) \<Rightarrow> kernel \<Rightarrow> kernel" where
  "set_flags G N k = k\<lparr>OSFlagTbl := G, OSFlagNodes := N\<rparr>"

lemma OS_FlagUnlink_step:
  assumes l: "flag_list g k (xs @ n # ys)"
  shows "OS_FlagUnlink n k = Some (set_tcb n ((OSTCBTbl k n)\<lparr>OSTCBFlagNode := None\<rparr>)
    (set_flags (if xs = [] then (OSFlagTbl k)(g := (OSFlagTbl k g)\<lparr>OSFlagWaitList := OSFlagNodeNext (OSFlagNodes k n)\<rparr>) else OSFlagTbl k)
       (flag_cut n xs ys (OSFlagNodes k)) k))"
proof -
  let ?N = "OSFlagNodes k"
  have L: "g < OS_MAX_FLAGS" "distinct (xs @ n # ys)" "flag_seg ?N VNull (OSFlagWaitList (OSFlagTbl k g)) (xs @ n # ys) VNull"
    "node_ok g k n" "\<forall>m \<in> set (xs @ ys). m < OS_N_TCBS"
    using l by (auto simp: flag_list_def node_ok_def)
  have pv: "OSFlagNodePrev (?N n) = last_node VNull xs" and nx: "flag_seg ?N (VFlagNode n) (OSFlagNodeNext (?N n)) ys VNull"
    using L(3) by (auto simp: flag_seg_append)
  have nx': "OSFlagNodeNext (?N n) = (case ys of [] \<Rightarrow> VNull | m # _ \<Rightarrow> VFlagNode m)" using flag_seg_head [OF nx] .
  have n: "n < OS_N_TCBS" "OSFlagNodeTCB (?N n) = VTcb n" "OSFlagNodeFlagGrp (?N n) = VFlagGrp g" using L(4) by (simp_all add: node_ok_def)
  have p: "last xs < OS_N_TCBS" if "xs \<noteq> []" using L(5) last_in_set [OF that] by simp
  have m: "hd ys < OS_N_TCBS" if "ys \<noteq> []" using L(5) hd_in_set [OF that] by simp
  show ?thesis
    using n p m pv nx' L(1,2)
    by (cases "xs = []"; cases ys)
      (simp_all add: OS_FlagUnlink_def node_at_def grp_at_def set_flags_def set_tcb_def set_grp_def set_node_def flag_cut_def
        last_node_def tcb_at_def Let_def)
qed


lemma set_flags_frame [simp]:
  "kernel_ok (set_flags G N k) = kernel_ok k" "ready (set_flags G N k) = ready k" "waits p (set_flags G N k) = waits p k"
  "waiters e (set_flags G N k) = waiters e k"
  "tcb_prio p (set_flags G N k) = tcb_prio p k" "OSTCBTbl (set_flags G N k) = OSTCBTbl k" "OSFlagTbl (set_flags G N k) = G"
  "OSFlagNodes (set_flags G N k) = N" "set_flags G' N' (set_flags G N k) = set_flags G' N' k" "OSTCBCur (set_flags G N k) = OSTCBCur k"
  "OSPrioCur (set_flags G N k) = OSPrioCur k" "OSIntNesting (set_flags G N k) = OSIntNesting k"
  "OSLockNesting (set_flags G N k) = OSLockNesting k" "OSRunning (set_flags G N k) = OSRunning k" "OSRdy (set_flags G N k) = OSRdy k"
  "set_tcb n b (set_flags G N k) = set_flags G N (set_tcb n b k)"
proof -
  show f: "ready (set_flags G N k) = ready k" "waits p (set_flags G N k) = waits p k" "tcb_prio p (set_flags G N k) = tcb_prio p k"
    "waiters e (set_flags G N k) = waiters e k"
    "OSTCBTbl (set_flags G N k) = OSTCBTbl k" "OSRdy (set_flags G N k) = OSRdy k" for e p
    by (simp_all add: set_flags_def ready_def waits_def waiters_def tcb_prio_def)
  have "OSTCBPrioTbl (set_flags G N k) = OSTCBPrioTbl k" "OSEventTbl (set_flags G N k) = OSEventTbl k"
    by (simp_all add: set_flags_def)
  then show "kernel_ok (set_flags G N k) = kernel_ok k" by (simp add: kernel_ok_def kernel_pre_def live_def f)
qed (simp_all add: set_flags_def set_tcb_def)

text \<open>What waking the task of a node does to its control block, and whether it can run then.\<close>

definition flag_woken :: "OS_FLAGS \<Rightarrow> os_tcb \<Rightarrow> os_tcb" where
  "flag_woken fr b = b\<lparr>OSTCBDly := 0, OSTCBFlagsRdy := fr, OSTCBStat := OSTCBStat b AND NOT OS_STAT_FLAG,
     OSTCBStatPend := OS_STAT_PEND_OK, OSTCBFlagNode := None\<rparr>"

definition flag_runs :: "os_tcb \<Rightarrow> bool" where
  "flag_runs b \<longleftrightarrow> OSTCBStat b AND NOT OS_STAT_FLAG = OS_STAT_RDY"

lemma task_ok_flag_woken:
  assumes "task_ok p b r {}"
  shows "task_ok p (flag_woken fr b) (r \<or> flag_runs b) {}"
proof -
  have "suspended (flag_woken fr b) = suspended b"
    using suspended_mask [of OS_STAT_FLAG "OSTCBStat b"] by (simp add: suspended_def flag_woken_def)
  moreover have "\<not> suspended b" if "flag_runs b"
    using suspended_mask [of OS_STAT_FLAG "OSTCBStat b"] that by (simp add: suspended_def flag_runs_def)
  ultimately show ?thesis
    using assms by (auto simp: task_ok_def flag_woken_def tcb_fields_def event_bound_def linked_events_def split: option.splits)
qed

lemma flag_list_touches:
  assumes "flag_list g k ns" "touches p n k k'" "waits p k' = {}" "OSFlagTbl k' = OSFlagTbl k" "OSFlagNodes k' = OSFlagNodes k"
  shows "flag_list g k' ns"
proof -
  have "waits q k' = {}" if "waits q k = {}" for q
    using touches_waits [OF assms(2), of q] assms(3) that by (cases "q = p") auto
  then show ?thesis
    using assms(1,4,5) by (fastforce simp: flag_list_def node_ok_def touches_tcb_prio [OF assms(2)])
qed

lemma touches_flags: "touches p t k k' \<Longrightarrow> OSFlagTbl k' = OSFlagTbl k \<and> OSFlagNodes k' = OSFlagNodes k"
proof -
  assume "touches p t k k'"
  then have "k' = k\<lparr>OSRdy := OSRdy k', OSTCBTbl := OSTCBTbl k', OSEventTbl := OSEventTbl k'\<rparr>" by (simp add: touches_def)
  then obtain r T E where "k' = k\<lparr>OSRdy := r, OSTCBTbl := T, OSEventTbl := E\<rparr>" by blast
  then show ?thesis by simp
qed

lemma OS_FlagTaskRdy_step:
  assumes ok: "kernel_ok k" and l: "flag_list g k (xs @ n # ys)"
  shows "\<exists>p k1 G. OS_FlagTaskRdy n fr k = Some (flag_runs (OSTCBTbl k n), set_flags G (flag_cut n xs ys (OSFlagNodes k)) k1) \<and>
    G = (if xs = [] then (OSFlagTbl k)(g := (OSFlagTbl k g)\<lparr>OSFlagWaitList := OSFlagNodeNext (OSFlagNodes k n)\<rparr>) else OSFlagTbl k) \<and>
    touches p n k k1 \<and> tcb_prio p k = Some n \<and> p = OSTCBPrio (OSTCBTbl k n) \<and> waits p k1 = {} \<and> kernel_ok k1 \<and>
    OSTCBTbl k1 n = flag_woken fr (OSTCBTbl k n) \<and>
    ready k1 = (if flag_runs (OSTCBTbl k n) then insert p (ready k) else ready k)"
proof -
  let ?b = "OSTCBTbl k n"
  have N: "node_ok g k n" using l by (auto simp: flag_list_def)
  then obtain p where p: "tcb_prio p k = Some n" "waits p k = {}" by (auto simp: node_ok_def)
  have n: "n < OS_N_TCBS" "OSFlagNodeTCB (OSFlagNodes k n) = VTcb n" using N by (simp_all add: node_ok_def)
  have task: "task_ok p ?b (p \<in> ready k) {}" using kernel_okD(7) [OF ok p(1)] p(2) by simp
  have prio: "p = OSTCBPrio ?b" "p < 24"
    using task tcb_prio_bound [OF p(1) kernel_okD(1) [OF ok]] by (simp_all add: task_ok_def tcb_fields_def)
  define b where "b = ?b\<lparr>OSTCBDly := 0, OSTCBFlagsRdy := fr, OSTCBStat := OSTCBStat ?b AND NOT OS_STAT_FLAG, OSTCBStatPend := OS_STAT_PEND_OK\<rparr>"
  define k1 where "k1 = set_tcb n b k"
  have st: "same_task ?b b" by (simp add: b_def same_task_def)
  have k1: "touches p n k k1" unfolding k1_def by (rule touches_set_tcb [OF st])
  have f: "tcb_fields p b" using task by (simp add: b_def task_ok_def tcb_fields_def)
  obtain k2 where k2: "(if OSTCBStat b = OS_STAT_RDY then do { k \<leftarrow> make_ready (OSTCBY b) b k1; Some (True, k) } else Some (False, k1)) =
      Some (flag_runs ?b, k2)" "touches p n k k2" "OSTCBTbl k2 n = b" "waits p k2 = {}"
    "ready k2 = (if flag_runs ?b then insert p (ready k) else ready k)"
  proof (cases "flag_runs ?b")
    case True
    have "pt_ok (OSRdy k1)" "OSTCBY b = prio_y p" using kernel_okD(2) [OF ok] f by (simp_all add: k1_def tcb_fields_def)
    from make_ready_step [OF this(1) prio(2) f this(2), of n] obtain k2 where k2: "make_ready (OSTCBY b) b k1 = Some k2"
      "touches p n k1 k2" "OSTCBTbl k2 = OSTCBTbl k1" "ready k2 = insert p (ready k1)" "waits p k2 = waits p k1" by blast
    moreover have "OSTCBStat b = OS_STAT_RDY" using True by (simp add: flag_runs_def b_def)
    ultimately show ?thesis using that [of k2] True touches_trans [OF k1 k2(2)] p(2) by (simp add: k1_def)
  next
    case False
    then have "OSTCBStat b \<noteq> OS_STAT_RDY" by (simp add: flag_runs_def b_def)
    then show ?thesis using that [of k1] False k1 p(2) by (simp add: k1_def)
  qed
  have l2: "flag_list g k2 (xs @ n # ys)" using flag_list_touches [OF l k2(2,4)] touches_flags [OF k2(2)] by simp
  define k3 where "k3 = set_tcb n (b\<lparr>OSTCBFlagNode := None\<rparr>) k2"
  have w: "b\<lparr>OSTCBFlagNode := None\<rparr> = flag_woken fr ?b" by (simp add: b_def flag_woken_def)
  have k3: "touches p n k k3" unfolding k3_def
    by (rule touches_trans [OF k2(2) touches_set_tcb]) (simp add: k2(3) same_task_def)
  have "kernel_ok k3"
  proof (rule kernel_ok_touches [OF ok k3 p(1)])
    have "p \<in> ready k3 \<longleftrightarrow> p \<in> ready k \<or> flag_runs ?b" by (simp add: k3_def k2(5))
    then show "task_ok p (OSTCBTbl k3 n) (p \<in> ready k3) (waits p k3)"
      using task_ok_flag_woken [OF task] by (simp add: k3_def w k2(4))
    show "p \<in> ready k3" if "p = OS_TASK_IDLE_PRIO" using that kernel_okD(6) [OF ok] by (simp add: k3_def k2(5))
  qed
  moreover have "OS_FlagTaskRdy n fr k = Some (flag_runs ?b, set_flags
     (if xs = [] then (OSFlagTbl k)(g := (OSFlagTbl k g)\<lparr>OSFlagWaitList := OSFlagNodeNext (OSFlagNodes k n)\<rparr>) else OSFlagTbl k)
     (flag_cut n xs ys (OSFlagNodes k)) k3)"
  proof -
    have "OS_FlagTaskRdy n fr k = do {
        (sched, k) \<leftarrow> (if OSTCBStat b = OS_STAT_RDY then do { k \<leftarrow> make_ready (OSTCBY b) b k1; Some (True, k) } else Some (False, k1));
        k \<leftarrow> OS_FlagUnlink n k;
        Some (sched, k) }"
      by (simp add: OS_FlagTaskRdy_def node_at_def n Let_def b_def k1_def)
    then show ?thesis using OS_FlagUnlink_step [OF l2] touches_flags [OF k2(2)] by (simp only: k2(1)) (simp add: k2(3) k3_def)
  qed
  ultimately show ?thesis using k3 p prio w k2 by (intro exI [of _ p] exI [of _ k3]) (simp add: k3_def)
qed


section \<open>All groups\<close>

definition flags_ok :: "kernel \<Rightarrow> (nat \<Rightarrow> nat list) \<Rightarrow> bool" where
  "flags_ok k L \<longleftrightarrow> (\<forall>g < OS_MAX_FLAGS. flag_list g k (L g))"

lemma flag_lists_disjoint:
  assumes "flag_list g k ns" "flag_list g' k ms" "g \<noteq> g'" "n \<in> set ns"
  shows "n \<notin> set ms"
  using assms by (auto simp: flag_list_def node_ok_def)

lemma flags_ok_cut:
  assumes L: "flags_ok k L" "L g = xs @ n # ys" "g < OS_MAX_FLAGS" and k1: "touches p n k k1" "waits p k1 = {}"
  defines "G \<equiv> (if xs = [] then (OSFlagTbl k)(g := (OSFlagTbl k g)\<lparr>OSFlagWaitList := OSFlagNodeNext (OSFlagNodes k n)\<rparr>) else OSFlagTbl k)"
  shows "flags_ok (set_flags G (flag_cut n xs ys (OSFlagNodes k)) k1) (L(g := xs @ ys))"
proof -
  let ?N = "flag_cut n xs ys (OSFlagNodes k)" and ?k = "set_flags G (flag_cut n xs ys (OSFlagNodes k)) k1"
  have l1: "flag_list i k1 (L i)" "flag_list i k (L i)" if "i < OS_MAX_FLAGS" for i
    using L(1) that flag_list_touches [OF _ k1] touches_flags [OF k1(1)] by (auto simp: flags_ok_def)
  have node: "node_ok i ?k m = node_ok i k1 m" for i m
    using touches_flags [OF k1(1)] by (simp add: node_ok_def)
  have "flag_list g ?k (xs @ ys)"
  proof -
    note l = l1(2) [OF L(3), unfolded L(2)]
    have "flag_seg ?N VNull (if xs = [] then OSFlagNodeNext (OSFlagNodes k n) else OSFlagWaitList (OSFlagTbl k g)) (xs @ ys) VNull"
      using l by (intro flag_cut_seg) (simp_all add: flag_list_def)
    moreover have "OSFlagWaitList (G g) = (if xs = [] then OSFlagNodeNext (OSFlagNodes k n) else OSFlagWaitList (OSFlagTbl k g))"
      by (simp add: G_def)
    ultimately show ?thesis using l1(1) [OF L(3)] by (auto simp: flag_list_def node L(2))
  qed
  moreover have "flag_list i ?k (L i)" if i: "i < OS_MAX_FLAGS" "i \<noteq> g" for i
  proof -
    have "m \<notin> set (xs @ n # ys)" if "m \<in> set (L i)" for m
      using flag_lists_disjoint [OF l1(2) [OF i(1)] l1(2) [OF L(3)] i(2) that] by (simp add: L(2))
    then have "flag_seg ?N pv h (L i) VNull = flag_seg (OSFlagNodes k) pv h (L i) VNull" for pv h
      by (intro flag_seg_cong flag_cut_other) auto
    moreover have "G i = OSFlagTbl k i" using i(2) by (simp add: G_def)
    ultimately show ?thesis using l1(1) [OF i(1)] touches_flags [OF k1(1)] by (simp add: flag_list_def node)
  qed
  ultimately show ?thesis by (simp add: flags_ok_def)
qed

text \<open>What a post or a pend of flags may change apart from the variables of flags.\<close>

definition flags_rest :: "kernel \<Rightarrow> kernel \<Rightarrow> bool" where
  "flags_rest k k' \<longleftrightarrow> same_kernel k (set_flags (OSFlagTbl k) (OSFlagNodes k) k')"

lemma same_kernel_set_flags:
  assumes "same_kernel k k'"
  shows "same_kernel (set_flags G N k) (set_flags G N k')"
proof -
  have "k' = k\<lparr>OSRdy := OSRdy k', OSTCBTbl := OSTCBTbl k', OSEventTbl := OSEventTbl k'\<rparr>"
    using assms by (simp add: same_kernel_def)
  then obtain r T E where k': "k' = k\<lparr>OSRdy := r, OSTCBTbl := T, OSEventTbl := E\<rparr>" by blast
  then show ?thesis using assms by (simp add: same_kernel_def set_flags_def)
qed

lemma flags_rest_trans:
  assumes "flags_rest k k'" "flags_rest k' k''"
  shows "flags_rest k k''"
  using same_kernel_trans [OF assms(1) [unfolded flags_rest_def]
      same_kernel_set_flags [OF assms(2) [unfolded flags_rest_def], of "OSFlagTbl k" "OSFlagNodes k"]]
  by (simp add: flags_rest_def)

lemma set_flags_same: "OSFlagTbl k = G \<Longrightarrow> OSFlagNodes k = N \<Longrightarrow> set_flags G N k = k"
  by (auto simp: set_flags_def)

lemma flags_rest_touches: "touches p n k k' \<Longrightarrow> flags_rest k (set_flags G N k')"
  using touches_flags touches_same_kernel by (simp add: flags_rest_def set_flags_same)

lemma flags_rest_refl [simp]: "flags_rest k k"
  by (simp add: flags_rest_def set_flags_same)

lemma flags_rest_view:
  assumes "flags_rest k k'"
  shows "task_level k' = task_level k" "tcb_prio p k' = tcb_prio p k" "OSPrioCur k' = OSPrioCur k" "OSTCBCur k' = OSTCBCur k"
    "OSRunning k' = OSRunning k" "running k' p c = running k p c"
  using assms task_level_same_kernel same_kernel_kernel [OF assms [unfolded flags_rest_def]]
    running_same_kernel [OF assms [unfolded flags_rest_def]]
  by (simp_all add: flags_rest_def running_def task_level_def sched_ok_def)

section \<open>Posting flags\<close>

definition node_hit :: "OS_FLAGS \<Rightarrow> os_flag_node \<Rightarrow> bool" where
  "node_hit v nd = (case flags_match (OSFlagNodeWaitType nd) v (OSFlagNodeFlags nd) of None \<Rightarrow> False | Some (r, h) \<Rightarrow> h)"

definition node_rdy :: "OS_FLAGS \<Rightarrow> os_flag_node \<Rightarrow> OS_FLAGS" where
  "node_rdy v nd = (case flags_match (OSFlagNodeWaitType nd) v (OSFlagNodeFlags nd) of None \<Rightarrow> 0 | Some (r, h) \<Rightarrow> r)"

lemma wait_type_cases:
  assumes "w \<le> OS_FLAG_WAIT_SET_ANY"
  shows "w = OS_FLAG_WAIT_CLR_ALL \<or> w = OS_FLAG_WAIT_CLR_ANY \<or> w = OS_FLAG_WAIT_SET_ALL \<or> w = OS_FLAG_WAIT_SET_ANY"
proof -
  have "unat w \<le> 3" using assms by (simp add: word_le_nat_alt)
  then have "unat w = 0 \<or> unat w = 1 \<or> unat w = 2 \<or> unat w = 3" by linarith
  then show ?thesis by (auto simp: word_unat_eq_iff)
qed

lemma flags_match_node:
  assumes "OSFlagNodeWaitType nd \<le> OS_FLAG_WAIT_SET_ANY"
  shows "flags_match (OSFlagNodeWaitType nd) v (OSFlagNodeFlags nd) = Some (node_rdy v nd, node_hit v nd)"
  using wait_type_cases [OF assms] by (auto simp: node_rdy_def node_hit_def flags_match_def Let_def)

lemma node_hit_cut [simp]: "node_hit v (flag_cut n xs ys N m) = node_hit v (N m)" "node_rdy v (flag_cut n xs ys N m) = node_rdy v (N m)"
  by (simp_all add: node_hit_def node_rdy_def)


lemma OS_FlagTaskRdy_rest:
  assumes ok: "kernel_ok k" and L: "flags_ok k L" "L g = xs @ n # ys" "g < OS_MAX_FLAGS"
  shows "\<exists>k'. OS_FlagTaskRdy n fr k = Some (flag_runs (OSTCBTbl k n), k') \<and> kernel_ok k' \<and> flags_ok k' (L(g := xs @ ys)) \<and>
    flags_rest k k' \<and> OSTCBTbl k' = (OSTCBTbl k)(n := flag_woken fr (OSTCBTbl k n)) \<and>
    OSFlagNodes k' = flag_cut n xs ys (OSFlagNodes k) \<and>
    (\<exists>h. OSFlagTbl k' = (OSFlagTbl k)(g := (OSFlagTbl k g)\<lparr>OSFlagWaitList := h\<rparr>)) \<and>
    ready k' = (if flag_runs (OSTCBTbl k n) then insert (OSTCBPrio (OSTCBTbl k n)) (ready k) else ready k)"
proof -
  have l: "flag_list g k (xs @ n # ys)" using L by (auto simp: flags_ok_def)
  let ?G = "if xs = [] then (OSFlagTbl k)(g := (OSFlagTbl k g)\<lparr>OSFlagWaitList := OSFlagNodeNext (OSFlagNodes k n)\<rparr>) else OSFlagTbl k"
  let ?N = "flag_cut n xs ys (OSFlagNodes k)"
  obtain p k1 where k1: "OS_FlagTaskRdy n fr k = Some (flag_runs (OSTCBTbl k n), set_flags ?G ?N k1)"
    "touches p n k k1" "p = OSTCBPrio (OSTCBTbl k n)" "waits p k1 = {}" "kernel_ok k1" "OSTCBTbl k1 n = flag_woken fr (OSTCBTbl k n)"
    "ready k1 = (if flag_runs (OSTCBTbl k n) then insert p (ready k) else ready k)"
    using OS_FlagTaskRdy_step [OF ok l, of fr] by (elim exE conjE) blast
  have "OSTCBTbl k1 = (OSTCBTbl k)(n := flag_woken fr (OSTCBTbl k n))"
    using touches_other(1) [OF k1(2)] k1(6) by (auto simp: fun_eq_iff)
  moreover have "\<exists>h. ?G = (OSFlagTbl k)(g := (OSFlagTbl k g)\<lparr>OSFlagWaitList := h\<rparr>)"
  proof (cases "xs = []")
    case False
    then show ?thesis by (intro exI [of _ "OSFlagWaitList (OSFlagTbl k g)"]) simp
  qed auto
  ultimately show ?thesis
    using k1 flags_ok_cut [OF L k1(2,4)] flags_rest_touches [OF k1(2)] by (intro exI [of _ "set_flags ?G ?N k1"]) simp
qed

text \<open>
  The loop over the rest \<open>ys\<close> of the list; the nodes \<open>xs\<close> were passed and stay. The tasks whose
  condition holds are woken and leave the list.
\<close>

lemma flag_post_loop_step:
  assumes "kernel_ok k" "flags_ok k L" "L g = xs @ ys" "g < OS_MAX_FLAGS" "OSFlagFlags (OSFlagTbl k g) = v"
  shows "\<exists>k'. flag_post_loop g (case ys of [] \<Rightarrow> None | n # _ \<Rightarrow> Some n) sched k =
      Some (Some (sched \<or> (\<exists>n \<in> set ys. node_hit v (OSFlagNodes k n) \<and> flag_runs (OSTCBTbl k n))), k') \<and>
    kernel_ok k' \<and> flags_ok k' (L(g := xs @ filter (\<lambda>n. \<not> node_hit v (OSFlagNodes k n)) ys)) \<and> flags_rest k k' \<and>
    OSTCBTbl k' = (\<lambda>n. if n \<in> set ys \<and> node_hit v (OSFlagNodes k n)
      then flag_woken (node_rdy v (OSFlagNodes k n)) (OSTCBTbl k n) else OSTCBTbl k n) \<and>
    (\<exists>h. OSFlagTbl k' = (OSFlagTbl k)(g := (OSFlagTbl k g)\<lparr>OSFlagWaitList := h\<rparr>)) \<and>
    ready k' = ready k \<union> (\<lambda>n. OSTCBPrio (OSTCBTbl k n)) ` {n \<in> set ys. node_hit v (OSFlagNodes k n) \<and> flag_runs (OSTCBTbl k n)}"
  using assms
proof (induction ys arbitrary: xs sched k L)
  case Nil
  have "L(g := xs) = L" using Nil(3) by auto
  moreover have "\<exists>h. OSFlagTbl k = (OSFlagTbl k)(g := (OSFlagTbl k g)\<lparr>OSFlagWaitList := h\<rparr>)"
    by (intro exI [of _ "OSFlagWaitList (OSFlagTbl k g)"]) simp
  ultimately show ?case using Nil by (subst flag_post_loop.simps) simp
next
  case (Cons n ys)
  let ?N = "OSFlagNodes k"
  have l: "flag_list g k (xs @ n # ys)" using Cons.prems(2-4) by (auto simp: flags_ok_def)
  have n: "node_at n k = Some (?N n)" "grp_at g k = Some (OSFlagTbl k g)" "n \<notin> set xs" "n \<notin> set ys"
      "flags_match (OSFlagNodeWaitType (?N n)) v (OSFlagNodeFlags (?N n)) = Some (node_rdy v (?N n), node_hit v (?N n))"
    using l flags_match_node by (auto simp: flag_list_def node_ok_def node_at_def grp_at_def)
  have nx: "node_of (OSFlagNodeNext (?N n)) = Some (case ys of [] \<Rightarrow> None | m # _ \<Rightarrow> Some m)"
    using l flag_seg_head by (fastforce simp: flag_list_def flag_seg_append split: list.splits)
  show ?case
  proof (cases "node_hit v (?N n)")
    case False
    from Cons.IH [OF Cons.prems(1,2) _ Cons.prems(4,5), of "xs @ [n]" sched] Cons.prems(3)
    obtain k' where k': "flag_post_loop g (case ys of [] \<Rightarrow> None | n # _ \<Rightarrow> Some n) sched k =
        Some (Some (sched \<or> (\<exists>n \<in> set ys. node_hit v (?N n) \<and> flag_runs (OSTCBTbl k n))), k')"
      "kernel_ok k'" "flags_ok k' (L(g := (xs @ [n]) @ filter (\<lambda>n. \<not> node_hit v (?N n)) ys))" "flags_rest k k'"
      "OSTCBTbl k' = (\<lambda>n. if n \<in> set ys \<and> node_hit v (?N n) then flag_woken (node_rdy v (?N n)) (OSTCBTbl k n) else OSTCBTbl k n)"
      "\<exists>h. OSFlagTbl k' = (OSFlagTbl k)(g := (OSFlagTbl k g)\<lparr>OSFlagWaitList := h\<rparr>)"
      "ready k' = ready k \<union> (\<lambda>n. OSTCBPrio (OSTCBTbl k n)) ` {n \<in> set ys. node_hit v (?N n) \<and> flag_runs (OSTCBTbl k n)}"
      by (auto simp del: fun_upd_apply)
    have "flag_post_loop g (Some n) sched k = flag_post_loop g (case ys of [] \<Rightarrow> None | n # _ \<Rightarrow> Some n) sched k"
      by (subst flag_post_loop.simps) (simp add: n Cons.prems(5) False nx)
    moreover have "{m \<in> set (n # ys). node_hit v (?N m) \<and> flag_runs (OSTCBTbl k m)} = {m \<in> set ys. node_hit v (?N m) \<and> flag_runs (OSTCBTbl k m)}"
      using False by auto
    moreover have "OSTCBTbl k' = (\<lambda>m. if m \<in> set (n # ys) \<and> node_hit v (?N m)
        then flag_woken (node_rdy v (?N m)) (OSTCBTbl k m) else OSTCBTbl k m)"
      using False by (auto simp: k'(5) fun_eq_iff)
    ultimately show ?thesis using k'(1-4,6,7) False by (intro exI [of _ k']) (simp del: fun_upd_apply)
  next
    case True
    let ?b = "OSTCBTbl k n"
    obtain k1 where k1: "OS_FlagTaskRdy n (node_rdy v (?N n)) k = Some (flag_runs ?b, k1)" "kernel_ok k1" "flags_ok k1 (L(g := xs @ ys))"
      "flags_rest k k1" "OSTCBTbl k1 = (OSTCBTbl k)(n := flag_woken (node_rdy v (?N n)) ?b)" "OSFlagNodes k1 = flag_cut n xs ys ?N"
      "\<exists>h. OSFlagTbl k1 = (OSFlagTbl k)(g := (OSFlagTbl k g)\<lparr>OSFlagWaitList := h\<rparr>)"
      "ready k1 = (if flag_runs ?b then insert (OSTCBPrio ?b) (ready k) else ready k)"
      using OS_FlagTaskRdy_rest [OF Cons.prems(1-4), of "node_rdy v (?N n)"] by (elim exE conjE) blast
    have v1: "OSFlagFlags (OSFlagTbl k1 g) = v" using k1(7) Cons.prems(5) by auto
    have same: "node_hit v (OSFlagNodes k1 m) = node_hit v (?N m)" "node_rdy v (OSFlagNodes k1 m) = node_rdy v (?N m)" for m
      by (simp_all add: k1(6))
    have tcb: "OSTCBTbl k1 m = OSTCBTbl k m" if "m \<in> set ys" for m using n(4) that by (auto simp: k1(5))
    from Cons.IH [OF k1(2,3) fun_upd_same Cons.prems(4) v1, of "sched \<or> flag_runs ?b"]
    obtain k' where k': "flag_post_loop g (case ys of [] \<Rightarrow> None | n # _ \<Rightarrow> Some n) (sched \<or> flag_runs ?b) k1 =
        Some (Some ((sched \<or> flag_runs ?b) \<or> (\<exists>n \<in> set ys. node_hit v (?N n) \<and> flag_runs (OSTCBTbl k1 n))), k')"
      "kernel_ok k'" "flags_ok k' (L(g := xs @ filter (\<lambda>n. \<not> node_hit v (?N n)) ys))" "flags_rest k1 k'"
      "OSTCBTbl k' = (\<lambda>n. if n \<in> set ys \<and> node_hit v (?N n) then flag_woken (node_rdy v (?N n)) (OSTCBTbl k1 n) else OSTCBTbl k1 n)"
      "\<exists>h. OSFlagTbl k' = (OSFlagTbl k1)(g := (OSFlagTbl k1 g)\<lparr>OSFlagWaitList := h\<rparr>)"
      "ready k' = ready k1 \<union> (\<lambda>n. OSTCBPrio (OSTCBTbl k1 n)) ` {n \<in> set ys. node_hit v (?N n) \<and> flag_runs (OSTCBTbl k1 n)}"
      unfolding same by (auto simp: fun_upd_upd simp del: fun_upd_apply)
    have "n < OS_N_TCBS" using l by (auto simp: flag_list_def node_ok_def)
    moreover have "OSFlagNodes k1 n = ?N n" by (simp add: k1(6) flag_cut_other n)
    ultimately have "flag_post_loop g (Some n) sched k =
        flag_post_loop g (case ys of [] \<Rightarrow> None | n # _ \<Rightarrow> Some n) (sched \<or> flag_runs ?b) k1"
      by (subst flag_post_loop.simps) (simp add: n Cons.prems(5) True k1(1) nx, simp add: node_at_def nx)
    moreover have "OSTCBTbl k' = (\<lambda>m. if m \<in> set (n # ys) \<and> node_hit v (?N m)
        then flag_woken (node_rdy v (?N m)) (OSTCBTbl k m) else OSTCBTbl k m)"
      using True n(4) by (auto simp: k'(5) k1(5) fun_eq_iff)
    moreover have "ready k' = ready k \<union> (\<lambda>n. OSTCBPrio (OSTCBTbl k n)) ` {m \<in> set (n # ys). node_hit v (?N m) \<and> flag_runs (OSTCBTbl k m)}"
      using True tcb by (auto simp: k'(7) k1(8) image_iff)
    moreover have "(\<exists>m \<in> set ys. node_hit v (?N m) \<and> flag_runs (OSTCBTbl k1 m)) \<longleftrightarrow> (\<exists>m \<in> set ys. node_hit v (?N m) \<and> flag_runs (OSTCBTbl k m))"
      using tcb by auto
    moreover have "\<exists>h. OSFlagTbl k' = (OSFlagTbl k)(g := (OSFlagTbl k g)\<lparr>OSFlagWaitList := h\<rparr>)" using k'(6) k1(7) by auto
    ultimately show ?thesis using k'(1-3) flags_rest_trans [OF k1(4) k'(4)] True by (intro exI [of _ k']) (simp add: disj_ac del: fun_upd_apply)
  qed
qed


lemma switched_flags:
  assumes "switched k k'"
  shows "OSFlagTbl k' = OSFlagTbl k" "OSFlagNodes k' = OSFlagNodes k" "flags_ok k' L = flags_ok k L"
proof -
  have "k' = k\<lparr>OSPrioCur := OSPrioCur k', OSPrioHighRdy := OSPrioHighRdy k', OSTCBCur := OSTCBCur k',
            OSTCBHighRdy := OSTCBHighRdy k', OSCtxSwCtr := OSCtxSwCtr k', OSTCBTbl := OSTCBTbl k'\<rparr>"
    using assms by (simp add: switched_def)
  then obtain pc ph c h n T where "k' = k\<lparr>OSPrioCur := pc, OSPrioHighRdy := ph, OSTCBCur := c,
    OSTCBHighRdy := h, OSCtxSwCtr := n, OSTCBTbl := T\<rparr>" by blast
  then show f: "OSFlagTbl k' = OSFlagTbl k" "OSFlagNodes k' = OSFlagNodes k" by simp_all
  show "flags_ok k' L = flags_ok k L"
    by (simp add: flags_ok_def flag_list_def node_ok_def f switched_view [OF assms])
qed

lemma flags_ok_value:
  "flags_ok (set_grp g ((OSFlagTbl k g)\<lparr>OSFlagFlags := v\<rparr>) k) L = flags_ok k L"
proof -
  have "set_grp g ((OSFlagTbl k g)\<lparr>OSFlagFlags := v\<rparr>) k = set_flags ((OSFlagTbl k)(g := (OSFlagTbl k g)\<lparr>OSFlagFlags := v\<rparr>)) (OSFlagNodes k) k"
    by (simp add: set_grp_def set_flags_def)
  moreover have "flag_list i (set_flags ((OSFlagTbl k)(g := (OSFlagTbl k g)\<lparr>OSFlagFlags := v\<rparr>)) (OSFlagNodes k) k) ns = flag_list i k ns" for i ns
    by (simp add: flag_list_def node_ok_def)
  ultimately show ?thesis by (simp add: flags_ok_def)
qed

definition flag_value :: "INT8U \<Rightarrow> OS_FLAGS \<Rightarrow> OS_FLAGS \<Rightarrow> OS_FLAGS" where
  "flag_value opt flags v = (if opt = OS_FLAG_CLR then v AND NOT flags else v OR flags)"

text \<open>C9: A post sets or clears the flags and wakes exactly the waiting tasks whose condition now
  holds: each gets the flags it waited for and leaves the list, those that are not suspended become
  ready, the others stay in the list in their order, and the ready task of highest priority runs.\<close>

theorem OSFlagPost_wakes:
  fixes flags :: OS_FLAGS
  assumes "kernel_ok k" "task_level k" "highest_runs k" "flags_ok k L" "g < OS_MAX_FLAGS"
    "OSFlagType (OSFlagTbl k g) = OS_EVENT_TYPE_FLAG" "opt \<in> {OS_FLAG_CLR, OS_FLAG_SET}"
  defines "v \<equiv> flag_value opt flags (OSFlagFlags (OSFlagTbl k g))" and "N \<equiv> OSFlagNodes k"
  shows "\<exists>k'. OSFlagPost (Some g) flags opt True k = Some (v, Some OS_ERR_NONE, k') \<and> OSFlagFlags (OSFlagTbl k' g) = v \<and>
    kernel_ok k' \<and> task_level k' \<and> highest_runs k' \<and> flags_ok k' (L(g := filter (\<lambda>n. \<not> node_hit v (N n)) (L g))) \<and>
    ready k' = ready k \<union> (\<lambda>n. OSTCBPrio (OSTCBTbl k n)) ` {n \<in> set (L g). node_hit v (N n) \<and> flag_runs (OSTCBTbl k n)} \<and>
    (\<forall>n \<in> set (L g). node_hit v (N n) \<longrightarrow> OSTCBFlagsRdy (OSTCBTbl k' n) = node_rdy v (N n) \<and>
       OSTCBStatPend (OSTCBTbl k' n) = OS_STAT_PEND_OK \<and> OSTCBDly (OSTCBTbl k' n) = 0)"
proof -
  let ?g = "(OSFlagTbl k g)\<lparr>OSFlagFlags := v\<rparr>"
  define k0 where "k0 = set_grp g ?g k"
  have k0': "k0 = set_flags ((OSFlagTbl k)(g := ?g)) N k" by (simp add: k0_def N_def set_grp_def set_flags_def)
  have k0: "kernel_ok k0" "flags_ok k0 L" "OSFlagFlags (OSFlagTbl k0 g) = v" "OSFlagNodes k0 = N" "OSTCBTbl k0 = OSTCBTbl k"
      "ready k0 = ready k" "flags_rest k k0"
    using assms(1,4) flags_ok_value [of g v k L] by (simp_all add: k0_def [symmetric]) (simp_all add: k0' flags_rest_def set_flags_same)
  have head: "node_of (OSFlagWaitList (OSFlagTbl k g)) = Some (case L g of [] \<Rightarrow> None | n # _ \<Rightarrow> Some n)"
    using assms(4,5) flag_seg_head by (fastforce simp: flags_ok_def flag_list_def split: list.splits)
  let ?hits = "{n \<in> set (L g). node_hit v (N n) \<and> flag_runs (OSTCBTbl k n)}"
  have Lg: "L g = [] @ L g" by simp
  obtain k1 where k1: "flag_post_loop g (case L g of [] \<Rightarrow> None | n # _ \<Rightarrow> Some n) False k0 =
      Some (Some (False \<or> (\<exists>n \<in> set (L g). node_hit v (N n) \<and> flag_runs (OSTCBTbl k n))), k1)"
    "kernel_ok k1" "flags_ok k1 (L(g := [] @ filter (\<lambda>n. \<not> node_hit v (N n)) (L g)))" "flags_rest k0 k1"
    "OSTCBTbl k1 = (\<lambda>n. if n \<in> set (L g) \<and> node_hit v (N n) then flag_woken (node_rdy v (N n)) (OSTCBTbl k n) else OSTCBTbl k n)"
    "\<exists>h. OSFlagTbl k1 = (OSFlagTbl k0)(g := (OSFlagTbl k0 g)\<lparr>OSFlagWaitList := h\<rparr>)"
    "ready k1 = ready k \<union> (\<lambda>n. OSTCBPrio (OSTCBTbl k n)) ` ?hits"
    using flag_post_loop_step [OF k0(1,2) Lg assms(5) k0(3), of False] unfolding k0(4-6) by (elim exE conjE) blast
  have rest: "flags_rest k k1" using flags_rest_trans [OF k0(7) k1(4)] .
  have v1: "OSFlagFlags (OSFlagTbl k1 g) = v" using k1(6) k0(3) by auto
  have sched: "(False \<or> (\<exists>n \<in> set (L g). node_hit v (N n) \<and> flag_runs (OSTCBTbl k n))) = (?hits \<noteq> {})" by auto
  have lev: "task_level k1" using assms(2) flags_rest_view(1) [OF rest] by simp
  obtain k2 where k2: "(if ?hits \<noteq> {} then OS_Sched k1 else Some k1) = Some k2" "switched k1 k2" "highest_runs k2"
  proof (cases "?hits = {}")
    case True
    then have "ready k1 = ready k" by (simp only: k1(7) image_empty Un_empty_right)
    moreover have "sched_ok k1" using lev by (simp add: task_level_def)
    ultimately have "highest_runs k1" using assms(3) flags_rest_view(3) [OF rest] by (simp add: highest_runs_def)
    then show ?thesis using that [of k1] True by simp
  next
    case False
    then show ?thesis using that OS_Sched_task_level [OF k1(2) lev] by auto
  qed
  have ok2: "kernel_ok k2" "task_level k2"
    using k1(2) lev k2(2,3) by (simp_all add: kernel_ok_switched task_level_def highest_runs_def switched_view)
  have tcb: "OSTCBFlagsRdy (OSTCBTbl k2 n) = node_rdy v (N n) \<and> OSTCBStatPend (OSTCBTbl k2 n) = OS_STAT_PEND_OK \<and>
      OSTCBDly (OSTCBTbl k2 n) = 0" if "n \<in> set (L g)" "node_hit v (N n)" for n
    using switched_tcb [OF k2(2), of n] that by (auto simp: k1(5) flag_woken_def)
  have "OSFlagPost (Some g) flags opt True k = Some (v, Some OS_ERR_NONE, k2)"
    using assms(5-7) k1(1) [unfolded sched] v1 k2(1) head switched_flags(1) [OF k2(2)]
    by (auto simp: OSFlagPost_def grp_at_def v_def flag_value_def k0_def)
  then show ?thesis using ok2 k1(3,7) v1 k2(3) tcb switched_flags [OF k2(2)] switched_view [OF k2(2)]
    by (intro exI [of _ k2]) simp
qed


section \<open>Waiting for flags\<close>

lemma cur_unready_set_flags: "cur_unready (set_flags G N k) = map_option (set_flags G N) (cur_unready k)"
proof -
  have "set_flags G N (k\<lparr>OSRdy := r\<rparr>) = (set_flags G N k)\<lparr>OSRdy := r\<rparr>" for r
    by (rule kernel.equality) (simp_all add: set_flags_def)
  moreover have "cur_tcb (set_flags G N k) = cur_tcb k" by (cases "OSTCBCur k") (simp_all add: cur_tcb_def tcb_at_def)
  ultimately show ?thesis
    by (cases "cur_tcb k") (auto simp: cur_unready_def split: Option.bind_splits)
qed

text \<open>The nodes after \<open>OS_FlagBlock\<close>: the new one is the first of the list.\<close>

definition flag_push :: "nat \<Rightarrow> nat \<Rightarrow> OS_FLAGS \<Rightarrow> INT8U \<Rightarrow> vptr \<Rightarrow> nat list \<Rightarrow> (nat \<Rightarrow> os_flag_node) \<Rightarrow> (nat \<Rightarrow> os_flag_node)" where
  "flag_push g c flags wt h ns N =
     (let N = N(c := \<lparr>OSFlagNodeNext = h, OSFlagNodePrev = VNull, OSFlagNodeTCB = VTcb c, OSFlagNodeFlagGrp = VFlagGrp g,
               OSFlagNodeFlags = flags, OSFlagNodeWaitType = wt\<rparr>)
      in if ns = [] then N else N(hd ns := (N (hd ns))\<lparr>OSFlagNodePrev := VFlagNode c\<rparr>))"

lemma flag_push_seg:
  assumes "flag_seg N VNull h ns VNull" "distinct (c # ns)"
  shows "flag_seg (flag_push g c flags wt h ns N) VNull (VFlagNode c) (c # ns) VNull"
proof -
  define N1 where "N1 = N(c := \<lparr>OSFlagNodeNext = h, OSFlagNodePrev = VNull, OSFlagNodeTCB = VTcb c, OSFlagNodeFlagGrp = VFlagGrp g,
               OSFlagNodeFlags = flags, OSFlagNodeWaitType = wt\<rparr>)"
  have s: "flag_seg N1 VNull h ns VNull" using assms by (subst flag_seg_cong [of _ _ N]) (auto simp: N1_def)
  show ?thesis
  proof (cases ns)
    case Nil
    then show ?thesis using s by (simp add: flag_push_def N1_def Let_def)
  next
    case (Cons n us)
    have "flag_seg (N1(n := (N1 n)\<lparr>OSFlagNodePrev := VFlagNode c\<rparr>)) (VFlagNode c) h (n # us) VNull"
      using flag_seg_prev [of N1 VNull h n us] s assms(2) Cons by simp
    moreover have "flag_push g c flags wt h ns N = N1(n := (N1 n)\<lparr>OSFlagNodePrev := VFlagNode c\<rparr>)"
      by (simp add: flag_push_def Cons Let_def N1_def)
    moreover have "OSFlagNodeNext (N1 c) = h" "OSFlagNodePrev (N1 c) = VNull" "n \<noteq> c"
      using assms(2) Cons by (auto simp: N1_def)
    ultimately show ?thesis using Cons by simp
  qed
qed

lemma flag_push_other: "m \<noteq> c \<Longrightarrow> m \<notin> set ns \<Longrightarrow> flag_push g c flags wt h ns N m = N m"
  by (cases ns) (auto simp: flag_push_def Let_def)

lemma flag_push_fields:
  "m \<noteq> c \<Longrightarrow> OSFlagNodeTCB (flag_push g c flags wt h ns N m) = OSFlagNodeTCB (N m)"
  "m \<noteq> c \<Longrightarrow> OSFlagNodeFlagGrp (flag_push g c flags wt h ns N m) = OSFlagNodeFlagGrp (N m)"
  "m \<noteq> c \<Longrightarrow> OSFlagNodeFlags (flag_push g c flags wt h ns N m) = OSFlagNodeFlags (N m)"
  "m \<noteq> c \<Longrightarrow> OSFlagNodeWaitType (flag_push g c flags wt h ns N m) = OSFlagNodeWaitType (N m)"
  "c \<notin> set ns \<Longrightarrow> flag_push g c flags wt h ns N c = \<lparr>OSFlagNodeNext = h, OSFlagNodePrev = VNull, OSFlagNodeTCB = VTcb c,
     OSFlagNodeFlagGrp = VFlagGrp g, OSFlagNodeFlags = flags, OSFlagNodeWaitType = wt\<rparr>"
  by (cases ns; auto simp: flag_push_def Let_def)+

lemma OS_FlagBlock_step:
  assumes ok: "kernel_ok k" and call: "at_call k p c" and p: "p \<noteq> OS_TASK_IDLE_PRIO" and L: "flags_ok k L" "g < OS_MAX_FLAGS"
    and c: "\<forall>i < OS_MAX_FLAGS. c \<notin> set (L i)" and wt: "wt \<le> OS_FLAG_WAIT_SET_ANY"
  shows "\<exists>k'. OS_FlagBlock g c flags wt timeout k = Some k' \<and> kernel_ok k' \<and> flags_rest k k' \<and> flags_ok k' (L(g := c # L g)) \<and>
    ready k' = ready k - {p} \<and> OSFlagNodeFlags (OSFlagNodes k' c) = flags \<and> OSFlagNodeWaitType (OSFlagNodes k' c) = wt \<and>
    OSTCBDly (OSTCBTbl k' c) = timeout \<and> OSFlagTbl k' = (OSFlagTbl k)(g := (OSFlagTbl k g)\<lparr>OSFlagWaitList := VFlagNode c\<rparr>) \<and>
    OSTCBStat (OSTCBTbl k' c) = OSTCBStat (OSTCBTbl k c) OR OS_STAT_FLAG \<and> (\<forall>n. n \<noteq> c \<longrightarrow> OSTCBTbl k' n = OSTCBTbl k n)"
proof -
  let ?N = "OSFlagNodes k" and ?h = "OSFlagWaitList (OSFlagTbl k g)"
  have run: "running k p c" and w0: "waits p k = {}" using call by (simp_all add: at_call_def)
  note C = cur_tcb_running [OF ok run]
  have t: "tcb_prio p k = Some c" using run by (simp add: running_def)
  have l: "flag_list i k (L i)" if "i < OS_MAX_FLAGS" for i using L(1) that by (simp add: flags_ok_def)
  have head: "?h = (case L g of [] \<Rightarrow> VNull | n # _ \<Rightarrow> VFlagNode n)" "\<forall>n \<in> set (L g). n < OS_N_TCBS" "distinct (c # L g)"
    using l [OF L(2)] c L(2) flag_seg_head by (auto simp: flag_list_def node_ok_def)
  define b where "b = (OSTCBTbl k c)\<lparr>OSTCBStat := OSTCBStat (OSTCBTbl k c) OR OS_STAT_FLAG, OSTCBStatPend := OS_STAT_PEND_OK,
       OSTCBDly := timeout, OSTCBFlagNode := Some c\<rparr>"
  define k1 where "k1 = set_tcb c b k"
  have k1: "touches p c k k1" unfolding k1_def by (rule touches_set_tcb) (simp add: b_def same_task_def)
  have f: "tcb_fields p b" using C(3) by (simp add: b_def task_ok_def tcb_fields_def)
  obtain k2 where k2: "cur_unready k1 = Some k2" "touches p c k1 k2" "OSTCBTbl k2 = OSTCBTbl k1" "ready k2 = ready k1 - {p}"
    "waits p k2 = waits p k1"
    using cur_unready_step [of k1 p c] run C(2,4) f kernel_okD(2) [OF ok] touches_kernel [OF k1] by (auto simp: k1_def running_def)
  have k02: "touches p c k k2" using touches_trans [OF k1 k2(2)] .
  let ?G = "(OSFlagTbl k)(g := (OSFlagTbl k g)\<lparr>OSFlagWaitList := VFlagNode c\<rparr>)" and ?N' = "flag_push g c flags wt ?h (L g) ?N"
  let ?k = "set_flags ?G ?N' k2"
  have "OS_FlagBlock g c flags wt timeout k = cur_unready (set_flags ?G ?N' k1)"
    using C(1,2) L(2) head
    by (cases "L g") (auto simp: OS_FlagBlock_def grp_at_def node_at_def k1_def b_def flag_push_def set_flags_def set_grp_def
        set_node_def set_tcb_def Let_def intro!: arg_cong [of _ _ cur_unready] kernel.equality)
  then have block: "OS_FlagBlock g c flags wt timeout k = Some ?k" by (simp add: cur_unready_set_flags k2(1))
  have view: "ready k2 = ready k - {p}" "OSTCBDly (OSTCBTbl k2 c) = timeout"
    "OSTCBStat (OSTCBTbl k2 c) = OSTCBStat (OSTCBTbl k c) OR OS_STAT_FLAG" "\<forall>n. n \<noteq> c \<longrightarrow> OSTCBTbl k2 n = OSTCBTbl k n"
    using k2(3,4) by (simp_all add: k1_def) (simp_all add: b_def set_tcb_def)
  have "kernel_ok k2"
  proof (rule kernel_ok_touches [OF ok k02 t])
    have "task_ok p b False {}"
      using C(3) w0 f by (auto simp: b_def task_ok_def event_bound_def linked_events_def split: option.splits)
    then show "task_ok p (OSTCBTbl k2 c) (p \<in> ready k2) (waits p k2)"
      using w0 by (simp add: k2(3-5) k1_def)
  qed (use p in simp)
  moreover have "flags_ok ?k (L(g := c # L g))"
  proof -
    have l2: "flag_list i k2 (L i)" if "i < OS_MAX_FLAGS" for i
      using flag_list_touches [OF l [OF that] k02] touches_flags [OF k02] k2(5) w0 by (simp add: k1_def)
    have node: "node_ok i ?k m = node_ok i k2 m" if "m \<noteq> c" for i m
      using that touches_flags [OF k02] by (simp add: node_ok_def flag_push_fields)
    have new: "node_ok g ?k c"
      using C(2) wt t w0 k2(5) head(3) by (auto simp: node_ok_def flag_push_fields touches_tcb_prio [OF k02] k1_def)
    have "flag_seg ?N' VNull (VFlagNode c) (c # L g) VNull"
      using l [OF L(2)] head(3) by (intro flag_push_seg) (simp_all add: flag_list_def)
    moreover have "node_ok g ?k m" if "m \<in> set (c # L g)" for m
    proof (cases "m = c")
      case False
      then have "node_ok g k2 m" using l2 [OF L(2)] that by (simp add: flag_list_def)
      then show ?thesis using node [OF False] by simp
    qed (use new in simp)
    ultimately have "flag_list g ?k (c # L g)" using L(2) head(3) by (simp add: flag_list_def)
    moreover have "flag_list i ?k (L i)" if i: "i < OS_MAX_FLAGS" "i \<noteq> g" for i
    proof -
      have m: "m \<noteq> c" "m \<notin> set (L g)" if "m \<in> set (L i)" for m
        using flag_lists_disjoint [OF l [OF i(1)] l [OF L(2)] i(2) that] that c i(1) by auto
      then have "flag_seg ?N' pv h (L i) VNull = flag_seg ?N pv h (L i) VNull" for pv h
        by (intro flag_seg_cong flag_push_other)
      then show ?thesis using l2 [OF i(1)] touches_flags [OF k02] m(1) node i(2) by (simp add: flag_list_def)
    qed
    ultimately show ?thesis by (simp add: flags_ok_def)
  qed
  ultimately show ?thesis
    using block flags_rest_touches [OF k02] head(3) view by (intro exI [of _ ?k]) (simp add: flag_push_fields)
qed

lemma flags_match_type: "flags_match wt v flags = Some (r, h) \<Longrightarrow> wt \<le> OS_FLAG_WAIT_SET_ANY"
  by (auto simp: flags_match_def word_le_nat_alt Let_def split: if_splits)

text \<open>C10: A task that pends for flags whose condition does not hold becomes the first of the group's
  list with its condition and timeout, is no longer ready, and the best other task runs.\<close>

theorem OSFlagPend_blocks:
  assumes "kernel_ok k" "task_level k" "at_call k p c" "p \<noteq> OS_TASK_IDLE_PRIO" "flags_ok k L" "g < OS_MAX_FLAGS"
    "OSFlagType (OSFlagTbl k g) = OS_EVENT_TYPE_FLAG" "\<forall>i < OS_MAX_FLAGS. c \<notin> set (L i)"
    "flags_match (wait_type AND NOT OS_FLAG_CONSUME) (OSFlagFlags (OSFlagTbl k g)) flags = Some (r, False)"
  shows "\<exists>k'. OSFlagPend (Some g) flags wait_type timeout True k = Some (Blocked, k') \<and> kernel_ok k' \<and> task_level k' \<and>
    highest_runs k' \<and> flags_ok k' (L(g := c # L g)) \<and> ready k' = ready k - {p} \<and> OSPrioCur k' \<noteq> p \<and>
    OSFlagNodeFlags (OSFlagNodes k' c) = flags \<and> OSFlagNodeWaitType (OSFlagNodes k' c) = wait_type AND NOT OS_FLAG_CONSUME \<and>
    OSTCBDly (OSTCBTbl k' c) = timeout \<and> OSFlagTbl k' = (OSFlagTbl k)(g := (OSFlagTbl k g)\<lparr>OSFlagWaitList := VFlagNode c\<rparr>)"
proof -
  obtain k1 where k1: "OS_FlagBlock g c flags (wait_type AND NOT OS_FLAG_CONSUME) timeout k = Some k1" "kernel_ok k1" "flags_rest k k1"
    "flags_ok k1 (L(g := c # L g))" "ready k1 = ready k - {p}" "OSFlagNodeFlags (OSFlagNodes k1 c) = flags"
    "OSFlagNodeWaitType (OSFlagNodes k1 c) = wait_type AND NOT OS_FLAG_CONSUME" "OSTCBDly (OSTCBTbl k1 c) = timeout"
    "OSFlagTbl k1 = (OSFlagTbl k)(g := (OSFlagTbl k g)\<lparr>OSFlagWaitList := VFlagNode c\<rparr>)"
    using OS_FlagBlock_step [OF assms(1,3-6,8) flags_match_type [OF assms(9)], of flags timeout]
    by (elim exE conjE) blast
  obtain k2 where k2: "OS_Sched k1 = Some k2" "switched k1 k2" "kernel_ok k2" "highest_runs k2" "task_level k2"
    using OS_Sched_task_level [OF k1(2)] assms(2) flags_rest_view(1) [OF k1(3)] by auto
  have "OSPrioCur k2 \<noteq> p"
    using k2(4) min_ready(1) [OF k2(3)] k1(5) by (auto simp: highest_runs_def switched_view [OF k2(2)])
  moreover have "OSTCBDly (OSTCBTbl k2 c) = timeout" using switched_tcb [OF k2(2), of c] k1(8) by auto
  moreover have "OSFlagPend (Some g) flags wait_type timeout True k = Some (Blocked, k2)"
    using assms(2,3,6,7,9) k1(1) k2(1)
    by (simp add: OSFlagPend_def grp_at_def task_level_def at_call_def running_def Let_def)
  ultimately show ?thesis
    using k1(4-7,9) k2 by (intro exI [of _ k2]) (simp add: switched_flags [OF k2(2)] switched_view [OF k2(2)])
qed


section \<open>An example\<close>

text \<open>The statistics task waits until flag 0 is set, in a group whose flag 3 is set.\<close>

definition demo_flags :: kernel where
  "demo_flags = set_flags (\<lambda>_. flag_zero\<lparr>OSFlagType := OS_EVENT_TYPE_FLAG, OSFlagFlags := 8\<rparr>) (OSFlagNodes boot_kernel) boot_kernel"

lemma demo_flags_facts:
  "kernel_ok demo_flags" "task_level demo_flags" "highest_runs demo_flags" "at_call demo_flags OS_TASK_STAT_PRIO 1"
  "flags_ok demo_flags (\<lambda>_. [])" "OSFlagTbl demo_flags g = flag_zero\<lparr>OSFlagType := OS_EVENT_TYPE_FLAG, OSFlagFlags := 8\<rparr>"
  "ready demo_flags = {OS_TASK_IDLE_PRIO, OS_TASK_STAT_PRIO}"
proof -
  have r: "flags_rest boot_kernel demo_flags" by (simp add: flags_rest_def demo_flags_def set_flags_same)
  show "kernel_ok demo_flags" "ready demo_flags = {OS_TASK_IDLE_PRIO, OS_TASK_STAT_PRIO}" using boot_facts by (simp_all add: demo_flags_def)
  show "task_level demo_flags" using boot_facts(7) flags_rest_view(1) [OF r] by simp
  then show "highest_runs demo_flags"
    using boot_facts(8) flags_rest_view(3) [OF r] by (simp add: highest_runs_def task_level_def demo_flags_def)
  show "at_call demo_flags OS_TASK_STAT_PRIO 1"
    using boot_facts(16) flags_rest_view(6) [OF r] by (simp add: at_call_def demo_flags_def)
  show "flags_ok demo_flags (\<lambda>_. [])" by (simp add: flags_ok_def flag_list_def demo_flags_def flag_zero_def)
  show "OSFlagTbl demo_flags g = flag_zero\<lparr>OSFlagType := OS_EVENT_TYPE_FLAG, OSFlagFlags := 8\<rparr>" by (simp add: demo_flags_def)
qed

lemma demo_flags_match:
  "flags_match (OS_FLAG_WAIT_SET_ANY AND NOT OS_FLAG_CONSUME) (OSFlagFlags (OSFlagTbl demo_flags 0)) 1 = Some (0, False)"
  by (simp add: flags_match_def demo_flags_facts)

lemma demo_flags_pend:
  "0 < OS_MAX_FLAGS" "\<forall>i < OS_MAX_FLAGS. 1 \<notin> set ((\<lambda>_. []) i)" "OSFlagType (OSFlagTbl demo_flags 0) = OS_EVENT_TYPE_FLAG"
  "OS_TASK_STAT_PRIO \<noteq> OS_TASK_IDLE_PRIO"
  by (simp_all add: demo_flags_facts)

theorem OSFlagPend_blocks_witness:
  "\<exists>k'. OSFlagPend (Some 0) 1 OS_FLAG_WAIT_SET_ANY 50 True demo_flags = Some (Blocked, k') \<and> flags_ok k' ((\<lambda>_. [])(0 := [1])) \<and>
    ready k' = {OS_TASK_IDLE_PRIO} \<and> OSTCBDly (OSTCBTbl k' 1) = 50"
proof -
  obtain k' where k': "OSFlagPend (Some 0) 1 OS_FLAG_WAIT_SET_ANY 50 True demo_flags = Some (Blocked, k')"
    "flags_ok k' ((\<lambda>_. [])(0 := [1]))" "ready k' = ready demo_flags - {OS_TASK_STAT_PRIO}" "OSTCBDly (OSTCBTbl k' 1) = 50"
    using OSFlagPend_blocks [OF demo_flags_facts(1,2,4) demo_flags_pend(4) demo_flags_facts(5) demo_flags_pend(1,3,2) demo_flags_match, of 50]
    by (elim exE conjE) blast
  have "{OS_TASK_IDLE_PRIO, OS_TASK_STAT_PRIO} - {OS_TASK_STAT_PRIO} = {OS_TASK_IDLE_PRIO}" by auto
  then show ?thesis using k' by (intro exI [of _ k'] conjI k'(1,2,4)) (simp only: k'(3) demo_flags_facts(7))
qed

lemma demo_flags_blocked:
  "\<exists>k. OS_FlagBlock 0 1 1 OS_FLAG_WAIT_SET_ANY 50 demo_flags = Some k \<and> kernel_ok k \<and> task_level k \<and> flags_ok k ((\<lambda>_. [])(0 := [1])) \<and>
    OSFlagType (OSFlagTbl k 0) = OS_EVENT_TYPE_FLAG \<and> OSFlagFlags (OSFlagTbl k 0) = 8 \<and>
    OSFlagNodeFlags (OSFlagNodes k 1) = 1 \<and> OSFlagNodeWaitType (OSFlagNodes k 1) = OS_FLAG_WAIT_SET_ANY"
proof -
  have w: "OS_FLAG_WAIT_SET_ANY \<le> OS_FLAG_WAIT_SET_ANY" by simp
  obtain k where k: "OS_FlagBlock 0 1 1 OS_FLAG_WAIT_SET_ANY 50 demo_flags = Some k" "kernel_ok k" "flags_rest demo_flags k"
    "flags_ok k ((\<lambda>_. [])(0 := [1]))" "OSFlagNodeFlags (OSFlagNodes k 1) = 1"
    "OSFlagNodeWaitType (OSFlagNodes k 1) = OS_FLAG_WAIT_SET_ANY"
    "OSFlagTbl k = (OSFlagTbl demo_flags)(0 := (OSFlagTbl demo_flags 0)\<lparr>OSFlagWaitList := VFlagNode 1\<rparr>)"
    using OS_FlagBlock_step [OF demo_flags_facts(1,4) demo_flags_pend(4) demo_flags_facts(5) demo_flags_pend(1,2) w, of 1 50]
    by (elim exE conjE) blast
  then show ?thesis using demo_flags_facts(2) flags_rest_view(1) [OF k(3)] by (intro exI [of _ k]) (simp add: demo_flags_facts)
qed

theorem OSFlagPost_wakes_witness:
  "\<exists>k k'. OS_FlagBlock 0 1 1 OS_FLAG_WAIT_SET_ANY 50 demo_flags = Some k \<and>
    (\<exists>k1. OS_Sched k = Some k1 \<and> OSFlagPost (Some 0) 1 OS_FLAG_SET True k1 = Some (9, Some OS_ERR_NONE, k')) \<and>
    flags_ok k' (\<lambda>_. []) \<and> OSTCBFlagsRdy (OSTCBTbl k' 1) = 1"
proof -
  obtain k where k: "OS_FlagBlock 0 1 1 OS_FLAG_WAIT_SET_ANY 50 demo_flags = Some k" "kernel_ok k" "task_level k"
    "flags_ok k ((\<lambda>_. [])(0 := [1]))" "OSFlagType (OSFlagTbl k 0) = OS_EVENT_TYPE_FLAG" "OSFlagFlags (OSFlagTbl k 0) = 8"
    "OSFlagNodeFlags (OSFlagNodes k 1) = 1" "OSFlagNodeWaitType (OSFlagNodes k 1) = OS_FLAG_WAIT_SET_ANY"
    using demo_flags_blocked by (elim exE conjE) blast
  obtain k1 where k1: "OS_Sched k = Some k1" "switched k k1" "kernel_ok k1" "highest_runs k1" "task_level k1"
    using OS_Sched_task_level [OF k(2,3)] by auto
  have f: "flags_ok k1 ((\<lambda>_. [])(0 := [1]))" "OSFlagType (OSFlagTbl k1 0) = OS_EVENT_TYPE_FLAG"
    using k(4,5) switched_flags [OF k1(2)] by simp_all
  have v: "flag_value OS_FLAG_SET 1 (OSFlagFlags (OSFlagTbl k1 0)) = 9" using k(6) switched_flags(1) [OF k1(2)] by (simp add: flag_value_def)
  have n: "node_hit 9 (OSFlagNodes k1 1)" "node_rdy 9 (OSFlagNodes k1 1) = 1"
    using k(7,8) switched_flags(2) [OF k1(2)] by (simp_all add: node_hit_def node_rdy_def flags_match_def Let_def)
  have o1: "OS_FLAG_SET \<in> {OS_FLAG_CLR, OS_FLAG_SET}" by simp
  define L where "L = (\<lambda>_ :: nat. [] :: nat list)(0 := [1])"
  obtain k' where k': "OSFlagPost (Some 0) 1 OS_FLAG_SET True k1 = Some (9, Some OS_ERR_NONE, k')"
    "flags_ok k' (L(0 := filter (\<lambda>n. \<not> node_hit 9 (OSFlagNodes k1 n)) (L 0)))"
    "\<forall>n \<in> set (L 0). node_hit 9 (OSFlagNodes k1 n) \<longrightarrow> OSTCBFlagsRdy (OSTCBTbl k' n) = node_rdy 9 (OSFlagNodes k1 n)"
    using OSFlagPost_wakes [OF k1(3,5,4) f(1) [folded L_def] demo_flags_pend(1) f(2) o1, of 1] unfolding v by (elim exE conjE) blast
  have L: "L(0 := filter (\<lambda>n. \<not> node_hit 9 (OSFlagNodes k1 n)) (L 0)) = (\<lambda>_. [])" "L 0 = [1]" using n by (auto simp: L_def)
  have "flags_ok k' (\<lambda>_. [])" using k'(2) by (simp only: L(1))
  moreover have "OSTCBFlagsRdy (OSTCBTbl k' 1) = 1" using k'(3) n by (simp add: L(2))
  ultimately show ?thesis using k'(1) k(1) k1(1) by blast
qed

end
