(* ===== verification/Os_Mutex.thy ===== *)
theory Os_Mutex
  imports Os_Sem
begin

text \<open>
  Mutexes, \<^verbatim>\<open>UCOSII/src/os_mutex.c\<close>. The upper byte of \<open>OSEventCnt\<close> is the priority the owner
  inherits when a task of higher priority waits (PIP), the lower byte the owner's own priority,
  or 0xFF when the mutex is available; \<open>OSEventPtr\<close> is the owner.
\<close>

section \<open>The operations\<close>

abbreviation OS_STAT_MUTEX :: INT8U where "OS_STAT_MUTEX \<equiv> 0x10"
abbreviation OS_MUTEX_KEEP_LOWER_8 :: INT16U where "OS_MUTEX_KEEP_LOWER_8 \<equiv> 0x00FF"
abbreviation OS_MUTEX_KEEP_UPPER_8 :: INT16U where "OS_MUTEX_KEEP_UPPER_8 \<equiv> 0xFF00"
abbreviation OS_MUTEX_AVAILABLE :: INT16U where "OS_MUTEX_AVAILABLE \<equiv> 0x00FF"
abbreviation OS_ERR_CREATE_ISR :: INT8U where "OS_ERR_CREATE_ISR \<equiv> 16"
abbreviation OS_ERR_POST_ISR :: INT8U where "OS_ERR_POST_ISR \<equiv> 5"
abbreviation OS_ERR_QUERY_ISR :: INT8U where "OS_ERR_QUERY_ISR \<equiv> 6"
abbreviation OS_ERR_NOT_MUTEX_OWNER :: INT8U where "OS_ERR_NOT_MUTEX_OWNER \<equiv> 100"
abbreviation OS_ERR_PIP_LOWER :: INT8U where "OS_ERR_PIP_LOWER \<equiv> 120"

definition mutex_pip :: "os_event \<Rightarrow> INT8U" where
  "mutex_pip ev = ucast (drop_bit 8 (OSEventCnt ev))"

definition mutex_prio :: "os_event \<Rightarrow> INT8U" where
  "mutex_prio ev = ucast (OSEventCnt ev AND OS_MUTEX_KEEP_LOWER_8)"

definition mutex_free :: "os_event \<Rightarrow> bool" where
  "mutex_free ev \<longleftrightarrow> OSEventCnt ev AND OS_MUTEX_KEEP_LOWER_8 = OS_MUTEX_AVAILABLE"

text \<open>\<open>OSTCBPrioTbl[prio] = entry\<close>, a fault when the priority is outside the table.\<close>

definition put_prio :: "INT8U \<Rightarrow> prio_entry \<Rightarrow> kernel \<Rightarrow> kernel option" where
  "put_prio p e k = (if unat p < length (OSTCBPrioTbl k) then Some (set_prio p e k) else None)"

text \<open>The running task becomes the owner; the result is the error code.\<close>

definition mutex_take :: "nat \<Rightarrow> os_event \<Rightarrow> kernel \<Rightarrow> (INT8U \<times> kernel) option" where
  "mutex_take e ev k = do {
     (c, b) \<leftarrow> cur_tcb k;
     let k = set_ecb e (ev\<lparr>OSEventCnt := OSEventCnt ev AND OS_MUTEX_KEEP_UPPER_8 OR ucast (OSTCBPrio b),
                          OSEventPtr := VTcb c\<rparr>) k;
     Some (if OSTCBPrio b \<le> mutex_pip ev then OS_ERR_PIP_LOWER else OS_ERR_NONE, k) }"

definition OSMutexAccept :: "nat option \<Rightarrow> bool \<Rightarrow> kernel \<Rightarrow> (bool \<times> INT8U option \<times> kernel) option" where
  "OSMutexAccept pevent perr k =
     (if \<not> perr then Some (False, None, k)
      else case pevent of None \<Rightarrow> Some (False, Some OS_ERR_PEVENT_NULL, k)
      | Some e \<Rightarrow> do {
          ev \<leftarrow> ecb_at e k;
          if OSEventType ev \<noteq> OS_EVENT_TYPE_MUTEX then Some (False, Some OS_ERR_EVENT_TYPE, k)
          else if OSIntNesting k > 0 then Some (False, Some OS_ERR_PEND_ISR, k)
          else if mutex_free ev then do { (err, k) \<leftarrow> mutex_take e ev k; Some (True, Some err, k) }
          else Some (False, Some OS_ERR_NONE, k) })"

definition OSMutexCreate :: "INT8U \<Rightarrow> bool \<Rightarrow> kernel \<Rightarrow> (nat option \<times> INT8U option \<times> kernel) option" where
  "OSMutexCreate prio perr k =
     (if \<not> perr then Some (None, None, k)
      else if prio \<ge> of_nat OS_LOWEST_PRIO then Some (None, Some OS_ERR_PRIO_INVALID, k)
      else if OSIntNesting k > 0 then Some (None, Some OS_ERR_CREATE_ISR, k)
      else do {
        en \<leftarrow> prio_at prio k;
        if en \<noteq> PNull then Some (None, Some OS_ERR_PRIO_EXIST, k)
        else do {
          k \<leftarrow> put_prio prio PReserved k;
          (pevent, k) \<leftarrow> event_alloc k;
          case pevent of
            None \<Rightarrow> do { k \<leftarrow> put_prio prio PNull k; Some (None, Some OS_ERR_PEVENT_NULL, k) }
          | Some e \<Rightarrow> do {
              ev \<leftarrow> ecb_at e k;
              let ev = ev\<lparr>OSEventType := OS_EVENT_TYPE_MUTEX, OSEventCnt := push_bit 8 (ucast prio) OR OS_MUTEX_AVAILABLE,
                          OSEventPtr := VNull, OSEventName := name_unset (OSEventName ev)\<rparr>;
              k \<leftarrow> OS_EventWaitListInit e (set_ecb e ev k);
              Some (pevent, Some OS_ERR_NONE, k) } } })"

definition at_prio :: "INT8U \<Rightarrow> os_tcb \<Rightarrow> os_tcb" where
  "at_prio prio b = b\<lparr>OSTCBPrio := prio, OSTCBY := prio_y prio, OSTCBX := prio_x prio,
     OSTCBBitY := bit8 (prio_y prio), OSTCBBitX := bit8 (prio_x prio)\<rparr>"

definition OSMutex_RdyAtPrio :: "nat \<Rightarrow> INT8U \<Rightarrow> kernel \<Rightarrow> kernel option" where
  "OSMutex_RdyAtPrio ptcb prio k = do {
     b \<leftarrow> tcb_at ptcb k;
     k \<leftarrow> unready b k;
     let b = (at_prio prio b)\<lparr>OSTCBY := prio_y prio AND 0x07, OSTCBBitY := bit8 (prio_y prio AND 0x07)\<rparr>;
     k \<leftarrow> make_ready (OSTCBY b) b (set_tcb ptcb b k);
     put_prio prio (PTcb ptcb) k }"

text \<open>The task a \<^verbatim>\<open>void *\<close> points to, NULL apart.\<close>

fun owner_of :: "vptr \<Rightarrow> nat option option" where
  "owner_of VNull = Some None"
| "owner_of (VTcb t) = Some (Some t)"
| "owner_of _ = None"

definition OSMutexDel :: "nat option \<Rightarrow> INT8U \<Rightarrow> bool \<Rightarrow> kernel \<Rightarrow> (nat option \<times> INT8U option \<times> kernel) option" where
  "OSMutexDel pevent opt perr k =
     (if \<not> perr then Some (pevent, None, k)
      else case pevent of None \<Rightarrow> Some (pevent, Some OS_ERR_PEVENT_NULL, k)
      | Some e \<Rightarrow> do {
          ev \<leftarrow> ecb_at e k;
          if OSEventType ev \<noteq> OS_EVENT_TYPE_MUTEX then Some (pevent, Some OS_ERR_EVENT_TYPE, k)
          else if OSIntNesting k > 0 then Some (pevent, Some OS_ERR_DEL_ISR, k)
          else let tasks_waiting = (Grp (OSEventWait ev) \<noteq> 0)
          in if opt = OS_DEL_NO_PEND then
               if \<not> tasks_waiting then do {
                 k \<leftarrow> put_prio (mutex_pip ev) PNull k;
                 k \<leftarrow> event_free e k;
                 Some (None, Some OS_ERR_NONE, k) }
               else Some (pevent, Some OS_ERR_TASK_WAITING, k)
             else if opt = OS_DEL_ALWAYS then do {
               ptcb \<leftarrow> owner_of (OSEventPtr ev);
               k \<leftarrow> (case ptcb of None \<Rightarrow> Some k
                    | Some t \<Rightarrow> do {
                        b \<leftarrow> tcb_at t k;
                        if OSTCBPrio b = mutex_pip ev then OSMutex_RdyAtPrio t (mutex_prio ev) k else Some k });
               (_, k) \<leftarrow> rdy_all e VNull OS_STAT_MUTEX OS_STAT_PEND_OK 0 k;
               k \<leftarrow> put_prio (mutex_pip ev) PNull k;
               k \<leftarrow> event_free e k;
               k \<leftarrow> (if tasks_waiting then OS_Sched k else Some k);
               Some (None, Some OS_ERR_NONE, k) }
             else Some (pevent, Some OS_ERR_INVALID_OPT, k) })"

text \<open>
  Priority inheritance: the owner is moved to the priority \<open>pip\<close>, in the ready list or in the wait
  list of the event it waits for.
\<close>

definition rdy_bit :: "os_tcb \<Rightarrow> kernel \<Rightarrow> bool option" where
  "rdy_bit b k =
     (if unat (OSTCBY b) < length (Tbl (OSRdy k))
      then Some (Tbl (OSRdy k) ! unat (OSTCBY b) AND OSTCBBitX b \<noteq> 0) else None)"

definition mutex_raise :: "nat \<Rightarrow> INT8U \<Rightarrow> kernel \<Rightarrow> kernel option" where
  "mutex_raise t pip k = do {
     b \<leftarrow> tcb_at t k;
     rdy \<leftarrow> rdy_bit b k;
     k \<leftarrow> (if rdy then unready b k
          else case OSTCBEventPtr b of None \<Rightarrow> Some k | Some e2 \<Rightarrow> event_unwait e2 b k);
     let b = at_prio pip b;
     let k = set_tcb t b k;
     k \<leftarrow> (if rdy then make_ready (OSTCBY b) b k
          else case OSTCBEventPtr b of None \<Rightarrow> Some k | Some e2 \<Rightarrow> event_wait e2 b k);
     put_prio pip (PTcb t) k }"

definition OSMutexPend :: "nat option \<Rightarrow> INT16U \<Rightarrow> bool \<Rightarrow> kernel \<Rightarrow> (INT8U option outcome \<times> kernel) option" where
  "OSMutexPend pevent timeout perr k =
     (if \<not> perr then Some (Returns None, k)
      else case pevent of None \<Rightarrow> Some (Returns (Some OS_ERR_PEVENT_NULL), k)
      | Some e \<Rightarrow> do {
          ev \<leftarrow> ecb_at e k;
          if OSEventType ev \<noteq> OS_EVENT_TYPE_MUTEX then Some (Returns (Some OS_ERR_EVENT_TYPE), k)
          else if OSIntNesting k > 0 then Some (Returns (Some OS_ERR_PEND_ISR), k)
          else if OSLockNesting k > 0 then Some (Returns (Some OS_ERR_PEND_LOCKED), k)
          else if mutex_free ev then do { (err, k) \<leftarrow> mutex_take e ev k; Some (Returns (Some err), k) }
          else do {
            ptcb \<leftarrow> owner_of (OSEventPtr ev);
            t \<leftarrow> ptcb;
            b \<leftarrow> tcb_at t k;
            (c, cb) \<leftarrow> cur_tcb k;
            k \<leftarrow> (if OSTCBPrio b > mutex_pip ev
                 then if mutex_prio ev > OSTCBPrio cb then mutex_raise t (mutex_pip ev) k else Some k
                 else Some k);
            k \<leftarrow> pend_block OS_STAT_MUTEX timeout e k;
            k \<leftarrow> OS_Sched k;
            Some (Blocked, k) } })"

definition OSMutexPend_resume :: "nat \<Rightarrow> kernel \<Rightarrow> (INT8U \<times> kernel) option" where
  "OSMutexPend_resume pevent k = do {
     (c, b) \<leftarrow> cur_tcb k;
     (err, k) \<leftarrow>
       (if OSTCBStatPend b = OS_STAT_PEND_OK then Some (OS_ERR_NONE, k)
        else if OSTCBStatPend b = OS_STAT_PEND_ABORT then Some (OS_ERR_PEND_ABORT, k)
        else do { k \<leftarrow> OS_EventTaskRemove c pevent k; Some (OS_ERR_TIMEOUT, k) });
     k \<leftarrow> pend_clear k;
     Some (err, k) }"

definition prio_ptr :: "prio_entry \<Rightarrow> vptr" where
  "prio_ptr en = (case en of PNull \<Rightarrow> VNull | PReserved \<Rightarrow> VAddr 1 | PTcb t \<Rightarrow> VTcb t)"

definition OSMutexPost :: "nat option \<Rightarrow> kernel \<Rightarrow> (INT8U \<times> kernel) option" where
  "OSMutexPost pevent k =
     (if OSIntNesting k > 0 then Some (OS_ERR_POST_ISR, k)
      else case pevent of None \<Rightarrow> Some (OS_ERR_PEVENT_NULL, k)
      | Some e \<Rightarrow> do {
          ev \<leftarrow> ecb_at e k;
          if OSEventType ev \<noteq> OS_EVENT_TYPE_MUTEX then Some (OS_ERR_EVENT_TYPE, k)
          else let pip = mutex_pip ev; prio = mutex_prio ev
          in if (case OSTCBCur k of None \<Rightarrow> VNull | Some c \<Rightarrow> VTcb c) \<noteq> OSEventPtr ev
             then Some (OS_ERR_NOT_MUTEX_OWNER, k)
             else do {
               (c, b) \<leftarrow> cur_tcb k;
               k \<leftarrow> (if OSTCBPrio b = pip then OSMutex_RdyAtPrio c prio k else Some k);
               k \<leftarrow> put_prio pip PReserved k;
               if Grp (OSEventWait ev) \<noteq> 0 then do {
                 (prio, k) \<leftarrow> OS_EventTaskRdy e VNull OS_STAT_MUTEX OS_STAT_PEND_OK k;
                 ev \<leftarrow> ecb_at e k;
                 en \<leftarrow> prio_at prio k;
                 let k = set_ecb e (ev\<lparr>OSEventCnt := OSEventCnt ev AND OS_MUTEX_KEEP_UPPER_8 OR ucast prio,
                                      OSEventPtr := prio_ptr en\<rparr>) k;
                 k \<leftarrow> OS_Sched k;
                 Some (if prio \<le> pip then OS_ERR_PIP_LOWER else OS_ERR_NONE, k) }
               else do {
                 ev \<leftarrow> ecb_at e k;
                 Some (OS_ERR_NONE,
                   set_ecb e (ev\<lparr>OSEventCnt := OSEventCnt ev OR OS_MUTEX_AVAILABLE, OSEventPtr := VNull\<rparr>) k) } } })"

record os_mutex_data =
  OSMutexWait :: prio_tab
  OSValue :: bool
  OSOwnerPrio :: INT8U
  OSMutexPIP :: INT8U

definition OSMutexQuery :: "nat option \<Rightarrow> bool \<Rightarrow> kernel \<Rightarrow> (INT8U \<times> os_mutex_data option) option" where
  "OSMutexQuery pevent p_mutex_data k =
     (if OSIntNesting k > 0 then Some (OS_ERR_QUERY_ISR, None)
      else case pevent of None \<Rightarrow> Some (OS_ERR_PEVENT_NULL, None)
      | Some e \<Rightarrow>
         if \<not> p_mutex_data then Some (OS_ERR_PDATA_NULL, None)
         else do {
           ev \<leftarrow> ecb_at e k;
           if OSEventType ev \<noteq> OS_EVENT_TYPE_MUTEX then Some (OS_ERR_EVENT_TYPE, None)
           else Some (OS_ERR_NONE, Some \<lparr>OSMutexWait = OSEventWait ev, OSValue = (mutex_prio ev = 0xFF),
             OSOwnerPrio = mutex_prio ev, OSMutexPIP = mutex_pip ev\<rparr>) })"

end
