(* ===== verification/Os_Create.thy ===== *)
theory Os_Create
  imports Os_Calls
begin

text \<open>
  The creation of a task while the system runs (\<open>OSTaskCreateExt\<close> of \<^verbatim>\<open>os_task.c\<close>), and a system
  with a task of the application, on which witnesses run.
\<close>

lemma raw_lists_of_task_lists:
  assumes "task_lists k us i fs"
  shows "raw_lists k (us @ [i]) fs"
proof -
  have l: "chain (tcb_next k) (OSTCBList k) (us @ [i])" "chain (tcb_next k) (OSTCBFreeList k) fs" "distinct (us @ i # fs)"
    "set (us @ i # fs) \<subseteq> {..<OS_N_TCBS}" "tcb_prio OS_TASK_IDLE_PRIO k = Some i"
    "\<forall>t. t \<in> set us \<longleftrightarrow> (\<exists>p. p \<noteq> OS_TASK_IDLE_PRIO \<and> tcb_prio p k = Some t)"
    using assms unfolding task_lists_def by blast+
  have "t \<in> set (us @ [i]) \<longleftrightarrow> (\<exists>p. tcb_prio p k = Some t)" for t
  proof
    assume "t \<in> set (us @ [i])"
    then show "\<exists>p. tcb_prio p k = Some t" using l(5,6) by auto
  next
    assume "\<exists>p. tcb_prio p k = Some t"
    then obtain p where p: "tcb_prio p k = Some t" by blast
    then show "t \<in> set (us @ [i])" using l(5) l(6) [THEN spec, of t] by (cases "p = OS_TASK_IDLE_PRIO") auto
  qed
  then show ?thesis using l(1-4) by (auto simp: raw_lists_def)
qed

lemma created_lists:
  assumes c: "created p t k k'" and l: "task_lists k us i (t # fs)" and p: "tcb_prio p k = None" and ok: "kernel_pre k'"
  shows "task_lists k' (t # us) i fs"
proof (rule raw_lists_task_lists)
  show "raw_lists k' ((t # us) @ [i]) fs" using raw_lists_created [OF c raw_lists_of_task_lists [OF l] p] by simp
  show "tcb_prio OS_TASK_IDLE_PRIO k' = Some i" using c l p by (auto simp: created_def task_lists_def)
  show "q = r" if "tcb_prio q k' = Some u" "tcb_prio r k' = Some u" for q r u using tcb_prio_inj [OF ok that] .
qed

lemma OSTaskCreateExt_step:
  assumes "kernel_ok k" "task_level k" "OSRunning k" "task_lists k us i (t # fs)" "prio_at p k = Some PNull"
  shows "\<exists>k'. OSTaskCreateExt port task p_arg ptos p id_num pbos stk_size pext opt k = Some (OS_ERR_NONE, k') \<and>
    kernel_ok k' \<and> task_level k' \<and> highest_runs k' \<and> OSPrioCur k' = Min (insert p (ready k)) \<and>
    ready k' = insert p (ready k) \<and> task_lists k' (t # us) i fs \<and> new_tcb p (OSTCBTbl k' t) \<and>
    (\<forall>q. tcb_prio q k' = (if q = p then Some t else tcb_prio q k)) \<and> (\<forall>q. q \<noteq> p \<longrightarrow> prio_at q k' = prio_at q k) \<and>
    OSEventTbl k' = OSEventTbl k \<and> OSEventFreeList k' = OSEventFreeList k \<and> OSRunning k' \<and>
    (\<forall>u q. u \<noteq> t \<longrightarrow> new_tcb q (OSTCBTbl k u) \<longrightarrow> new_tcb q (OSTCBTbl k' u))"
proof -
  note K = kernel_okD [OF assms(1)]
  have pre: "kernel_pre k" using assms(1) by (simp add: kernel_ok_def)
  have p: "unat p \<le> OS_LOWEST_PRIO" "tcb_prio p k = None"
    using assms(5) K(1) by (auto simp: prio_at_def tcb_prio_def split: if_splits)
  have L: "OSTCBFreeList k = Some t" "t < OS_N_TCBS" "\<And>q. tcb_prio q k \<noteq> Some t"
    "\<And>h. OSTCBList k = Some h \<Longrightarrow> h < OS_N_TCBS \<and> h \<noteq> t"
  proof -
    note r = raw_lists_of_task_lists [OF assms(4)]
    show "OSTCBFreeList k = Some t" "t < OS_N_TCBS" "\<And>q. tcb_prio q k \<noteq> Some t" using r by (auto simp: raw_lists_def)
    show "h < OS_N_TCBS \<and> h \<noteq> t" if "OSTCBList k = Some h" for h
      using r that by (cases us) (auto simp: raw_lists_def)
  qed
  have n: "OSIntNesting k = 0" using assms(2) by (simp add: task_level_def)
  obtain k1 where k1: "OSTaskCreateExt port task p_arg ptos p id_num pbos stk_size pext opt k =
      (if OSRunning k1 then do { k'' \<leftarrow> OS_Sched k1; Some (OS_ERR_NONE, k'') } else Some (OS_ERR_NONE, k1))" "created p t k k1"
    using OSTaskCreateExt_tcb [OF pre p(1) assms(5) L n] by blast
  have ok1: "kernel_ok k1" using k1(2) K(6) by (simp add: created_def kernel_ok_def)
  have "sched_ok k1"
  proof -
    obtain c where c: "OSTCBCur k = Some c" "tcb_prio (OSPrioCur k) k = Some c"
      using assms(2) by (auto simp: task_level_def sched_ok_def running_def)
    then show ?thesis using k1(2) p(2) by (auto simp: created_def sched_ok_def running_def)
  qed
  then have "task_level k1" using k1(2) assms(2) by (simp add: created_def task_level_def)
  then obtain k' where k': "OS_Sched k1 = Some k'" "switched k1 k'" "kernel_ok k'" "highest_runs k'" "task_level k'"
    using OS_Sched_task_level [OF ok1] by blast
  have "task_lists k1 (t # us) i fs"
    using created_lists [OF k1(2) assms(4) p(2)] k1(2) by (simp add: created_def)
  moreover have "task_lists k' (t # us) i fs = task_lists k1 (t # us) i fs"
    by (rule task_lists_cong) (simp_all add: switched_view [OF k'(2)] switched_more [OF k'(2)])
  moreover have "new_tcb q (OSTCBTbl k' u) = new_tcb q (OSTCBTbl k1 u)" for q u
    using switched_tcb [OF k'(2), of u] by (auto simp: new_tcb_def tcb_fields_def)
  moreover have "prio_at q k' = prio_at q k1" for q by (simp add: prio_at_def switched_view [OF k'(2)])
  ultimately show ?thesis
    using k1 k' assms(3)
    by (intro exI [of _ k']) (simp add: created_def switched_view [OF k'(2)] highest_runs_def)
qed

text \<open>C13: A task created while the system runs gets the first free control block and is ready; the
  other tasks keep their priorities and what they wait for, and the ready task of highest priority
  runs: the new one, when it is that.\<close>

theorem OSTaskCreateExt_preempts:
  assumes "kernel_ok k" "task_level k" "OSRunning k" "task_lists k us i (t # fs)" "prio_at p k = Some PNull"
  shows "\<exists>k'. OSTaskCreateExt port task p_arg ptos p id_num pbos stk_size pext opt k = Some (OS_ERR_NONE, k') \<and>
    kernel_ok k' \<and> task_level k' \<and> highest_runs k' \<and> OSPrioCur k' = Min (insert p (ready k)) \<and>
    ready k' = insert p (ready k) \<and> task_lists k' (t # us) i fs \<and> new_tcb p (OSTCBTbl k' t) \<and>
    (\<forall>q. tcb_prio q k' = (if q = p then Some t else tcb_prio q k)) \<and> (\<forall>q. q \<noteq> p \<longrightarrow> prio_at q k' = prio_at q k) \<and>
    OSEventTbl k' = OSEventTbl k"
  using OSTaskCreateExt_step [OF assms, of port task p_arg ptos id_num pbos stk_size pext opt] by (elim exE conjE) blast

text \<open>The first task of the application, with priority 5.\<close>

definition demo_app :: kernel where
  "demo_app = snd (the (OSTaskCreateExt port0 0x4000 0 0x8000 5 5 0x7000 1024 VNull 0 boot_kernel))"

lemma boot_free: "task_lists boot_kernel [1] 0 (2 # [3..<OS_N_TCBS])"
proof -
  have "[2..<OS_N_TCBS] = 2 # [3..<OS_N_TCBS]" by (simp add: upt_conv_Cons)
  then show ?thesis using boot_facts(2) by (simp only:)
qed

lemma demo_app_facts:
  "OSTaskCreateExt port0 0x4000 0 0x8000 5 5 0x7000 1024 VNull 0 boot_kernel = Some (OS_ERR_NONE, demo_app)"
  "kernel_ok demo_app" "task_level demo_app" "OSPrioCur demo_app = 5" "ready demo_app = {5, OS_TASK_IDLE_PRIO, OS_TASK_STAT_PRIO}"
  "tcb_prio 5 demo_app = Some 2" "tcb_prio OS_TASK_STAT_PRIO demo_app = Some 1" "at_call demo_app 5 2"
  "q < OS_TASK_STAT_PRIO \<Longrightarrow> q \<noteq> 5 \<Longrightarrow> prio_at q demo_app = Some PNull" "waiters e demo_app = {}"
  "events_ok demo_app [0..<OS_MAX_EVENTS]" "new_tcb OS_TASK_STAT_PRIO (OSTCBTbl demo_app 1)"
  "OSRunning demo_app"
proof -
  have at: "prio_at 5 boot_kernel = Some PNull" by (rule boot_facts(20)) simp
  obtain k where k: "OSTaskCreateExt port0 0x4000 0 0x8000 5 5 0x7000 1024 VNull 0 boot_kernel = Some (OS_ERR_NONE, k)"
    "kernel_ok k" "task_level k" "highest_runs k" "OSPrioCur k = Min (insert 5 (ready boot_kernel))"
    "ready k = insert 5 (ready boot_kernel)" "\<forall>q. tcb_prio q k = (if q = 5 then Some 2 else tcb_prio q boot_kernel)"
    "\<forall>q. q \<noteq> 5 \<longrightarrow> prio_at q k = prio_at q boot_kernel" "OSEventTbl k = OSEventTbl boot_kernel"
    "OSEventFreeList k = OSEventFreeList boot_kernel" "OSRunning k" "new_tcb 5 (OSTCBTbl k 2)"
    "\<forall>u q. u \<noteq> 2 \<longrightarrow> new_tcb q (OSTCBTbl boot_kernel u) \<longrightarrow> new_tcb q (OSTCBTbl k u)"
    using OSTaskCreateExt_step [OF boot_facts(1,7,10) boot_free at, of port0 "0x4000" 0 "0x8000" 5 "0x7000" 1024 VNull 0]
    by (elim exE conjE) blast
  have d: "demo_app = k" by (simp add: demo_app_def k(1))
  have cur: "OSPrioCur k = 5" by (simp add: k(5) boot_facts(4))
  have w: "waiters e k = {}" for e using boot_facts(6) k(9) by (simp add: waiters_def)
  have "running k 5 2" using k(4,7) cur by (auto simp: highest_runs_def sched_ok_def running_def)
  then have "at_call k 5 2" using w k(12) by (simp add: at_call_def waits_def new_tcb_def)
  moreover have "events_ok k [0..<OS_MAX_EVENTS]"
    using boot_facts(9) events_ok_cong [of k boot_kernel] k(9,10) by simp
  ultimately show "OSTaskCreateExt port0 0x4000 0 0x8000 5 5 0x7000 1024 VNull 0 boot_kernel = Some (OS_ERR_NONE, demo_app)"
    "kernel_ok demo_app" "task_level demo_app" "OSPrioCur demo_app = 5" "ready demo_app = {5, OS_TASK_IDLE_PRIO, OS_TASK_STAT_PRIO}"
    "tcb_prio 5 demo_app = Some 2" "tcb_prio OS_TASK_STAT_PRIO demo_app = Some 1" "at_call demo_app 5 2" "waiters e demo_app = {}"
    "events_ok demo_app [0..<OS_MAX_EVENTS]" "new_tcb OS_TASK_STAT_PRIO (OSTCBTbl demo_app 1)" "OSRunning demo_app"
    using k(1-3,7,11,13) cur w boot_facts(11,13) by (simp_all add: d k(6) boot_facts(4))
  show "prio_at q demo_app = Some PNull" if "q < OS_TASK_STAT_PRIO" "q \<noteq> 5" for q
    using boot_facts(20) [OF that(1)] k(8) that(2) by (simp add: d)
qed

theorem OSTaskCreateExt_preempts_witness:
  "\<exists>k. OSTaskCreateExt port0 0x4000 0 0x8000 5 5 0x7000 1024 VNull 0 boot_kernel = Some (OS_ERR_NONE, k) \<and> OSPrioCur k = 5"
proof -
  have at: "prio_at 5 boot_kernel = Some PNull" by (rule boot_facts(20)) simp
  have "Min (insert 5 (ready boot_kernel)) = 5" by (simp add: boot_facts(4))
  then show ?thesis
    using OSTaskCreateExt_preempts [OF boot_facts(1,7,10) boot_free at, of port0 "0x4000" 0 "0x8000" 5 "0x7000" 1024 VNull 0]
    by metis
qed

end
