(* ===== verification/Os_Mutex_Prio.thy ===== *)
theory Os_Mutex_Prio
  imports Os_Mutex Os_Create
begin

text \<open>
  Priority inheritance of mutexes: a task that owns a mutex is moved to the priority PIP while a
  more urgent task waits for it, and back when it posts.
\<close>

section \<open>A task that changes its priority\<close>

lemma at_prio_fields: "tcb_fields r (at_prio r b)"
  by (simp add: tcb_fields_def at_prio_def)

lemma rdy_bit_ready:
  assumes "pt_ok (OSRdy k)" "tcb_fields p b" "p < 24"
  shows "rdy_bit b k = Some (p \<in> ready k)"
proof -
  have y: "unat p div 8 < length (Tbl (OSRdy k))"
    using assms(1,3) by (simp add: pt_ok_def word_less_nat_alt less_mult_imp_div_less)
  have "Tbl (OSRdy k) ! (unat p div 8) AND bit8 (prio_x p) \<noteq> 0 \<longleftrightarrow> bit (Tbl (OSRdy k) ! (unat p div 8)) (unat p mod 8)"
    by (auto simp: byte_nonzero bit_and_iff bit_bit8 unat_prio_x)
  then show ?thesis using assms(2) y by (simp add: rdy_bit_def tcb_fields_def unat_prio_y ready_def pt_members_def)
qed

lemma tcb_prio_tbl:
  assumes "OSTCBPrioTbl k' = (OSTCBPrioTbl k)[unat p := x, unat r := y]" "unat p < length (OSTCBPrioTbl k)"
    "unat r < length (OSTCBPrioTbl k)"
  shows "tcb_prio q k' = (case (if q = r then y else if q = p then x else if unat q < length (OSTCBPrioTbl k)
     then OSTCBPrioTbl k ! unat q else PNull) of PTcb t \<Rightarrow> Some t | _ \<Rightarrow> None)"
  using assms by (auto simp: tcb_prio_def nth_list_update word_unat_eq_iff)

text \<open>
  The running or ready task of priority \<open>p\<close> gets the priority \<open>r\<close>, which no task has; its old
  entry in the priority table becomes \<open>x\<close>.
\<close>

lemma kernel_ok_move:
  assumes ok: "kernel_ok k" and t: "tcb_prio p k = Some t" "p \<in> ready k" "waits p k = {}" "p \<noteq> OS_TASK_IDLE_PRIO"
    and r: "tcb_prio r k = None" "unat r \<le> OS_LOWEST_PRIO"
    and k': "pt_ok (OSRdy k')" "ready k' = insert r (ready k - {p})" "OSEventTbl k' = OSEventTbl k"
      "OSTCBTbl k' = (OSTCBTbl k)(t := at_prio r (OSTCBTbl k t))"
      "OSTCBPrioTbl k' = (OSTCBPrioTbl k)[unat p := x, unat r := PTcb t]" and x: "\<forall>u. x \<noteq> PTcb u"
  shows "kernel_ok k'" "tcb_prio q k' = (if q = r then Some t else if q = p then None else tcb_prio q k)"
proof -
  note K = kernel_okD [OF ok]
  have len: "length (OSTCBPrioTbl k) = OS_LOWEST_PRIO + 1" "unat p < length (OSTCBPrioTbl k)" "unat r < length (OSTCBPrioTbl k)"
    using K(1) t(1) r(2) by (auto simp: tcb_prio_def split: if_splits)
  have pr: "p \<noteq> r" using t(1) r(1) by auto
  have tp: "tcb_prio q k' = (if q = r then Some t else if q = p then None else tcb_prio q k)" for q
    using tcb_prio_tbl [OF k'(5) len(2,3), of q] x by (auto simp: tcb_prio_def split: prio_entry.splits)
  then show "tcb_prio q k' = (if q = r then Some t else if q = p then None else tcb_prio q k)" .
  have w: "waiters e k' = waiters e k" "waits q k' = waits q k" for e q using k'(3) by (simp_all add: waiters_def waits_def)
  have live: "live k' = insert r (live k - {p})" using tp by (auto simp: live_def)
  have pw: "p \<notin> waiters e k" if "e < OS_MAX_EVENTS" for e using t(3) that by (auto simp: waits_def)
  have wr: "waits r k = {}" using K(5) r(1) by (fastforce simp: waits_def live_def)
  have task: "t < OS_N_TCBS" "task_ok p (OSTCBTbl k t) True {}" using K(7) [OF t(1)] t(2,3) by simp_all
  have "u < OS_N_TCBS \<and> task_ok q (OSTCBTbl k' u) (q \<in> ready k') (waits q k')" if "tcb_prio q k' = Some u" for q u
  proof (cases "q = r")
    case True
    then have "u = t" using that tp by simp
    moreover have "task_ok r (at_prio r (OSTCBTbl k t)) True {}"
      using task(2) at_prio_fields [of r "OSTCBTbl k t"]
      by (auto simp: task_ok_def at_prio_def event_bound_def linked_events_def suspended_def split: option.splits)
    ultimately show ?thesis using True task(1) by (simp add: k'(2,4) w wr)
  next
    case False
    then have q: "q \<noteq> p" "tcb_prio q k = Some u" using that tp by (auto split: if_splits)
    have "u \<noteq> t" using K(7) [OF q(2)] task(2) q(1) by (auto simp: task_ok_def tcb_fields_def)
    then show ?thesis using K(7) [OF q(2)] False q(1) by (simp add: k'(2,4) w)
  qed
  moreover have "ready k' \<subseteq> live k'" "OS_TASK_IDLE_PRIO \<in> ready k'" using K(4,6) t(4) by (auto simp: k'(2) live)
  moreover have "waiters e k' \<subseteq> live k'" if "e < OS_MAX_EVENTS" for e using K(5) [OF that] pw [OF that] by (auto simp: w live)
  ultimately show "kernel_ok k'" using K(3) len(1) k'(1,3,5) by (simp add: kernel_ok_def kernel_pre_def)
qed

section \<open>An entry of the priority table that nobody looks at\<close>

text \<open>
  While a task has inherited a priority its old entry still points to it. The services only look
  up priorities of ready and waiting tasks, so the entry does not matter to them.
\<close>

lemma set_prio_frame [simp]:
  "ready (set_prio q x k) = ready k" "waiters e (set_prio q x k) = waiters e k" "waits p (set_prio q x k) = waits p k"
  "OSTCBTbl (set_prio q x k) = OSTCBTbl k" "OSEventTbl (set_prio q x k) = OSEventTbl k" "OSTCBCur (set_prio q x k) = OSTCBCur k"
  "OSPrioCur (set_prio q x k) = OSPrioCur k" "OSIntNesting (set_prio q x k) = OSIntNesting k"
  "OSLockNesting (set_prio q x k) = OSLockNesting k" "OSRdy (set_prio q x k) = OSRdy k" "OSPrioHighRdy (set_prio q x k) = OSPrioHighRdy k"
  "OSCtxSwCtr (set_prio q x k) = OSCtxSwCtr k" "set_prio q y (set_prio q x k) = set_prio q y k"
  "tcb_at t (set_prio q x k) = tcb_at t k" "ecb_at e (set_prio q x k) = ecb_at e k"
  by (simp_all add: set_prio_def ready_def waiters_def waits_def tcb_at_def ecb_at_def)

lemma cur_tcb_set_prio [simp]: "cur_tcb (set_prio q x k) = cur_tcb k"
  by (simp add: cur_tcb_def)

lemma set_prio_commute:
  "set_tcb t b (set_prio q x k) = set_prio q x (set_tcb t b k)" "set_ecb e ev (set_prio q x k) = set_prio q x (set_ecb e ev k)"
  "(set_prio q x k)\<lparr>OSRdy := r\<rparr> = set_prio q x (k\<lparr>OSRdy := r\<rparr>)"
  "(set_prio q x k)\<lparr>OSPrioHighRdy := p\<rparr> = set_prio q x (k\<lparr>OSPrioHighRdy := p\<rparr>)"
  "(set_prio q x k)\<lparr>OSTCBHighRdy := h\<rparr> = set_prio q x (k\<lparr>OSTCBHighRdy := h\<rparr>)"
  "(set_prio q x k)\<lparr>OSCtxSwCtr := n\<rparr> = set_prio q x (k\<lparr>OSCtxSwCtr := n\<rparr>)"
  "OSCtxSw (set_prio q x k) = set_prio q x (OSCtxSw k)"
  by (auto simp: set_prio_def set_tcb_def set_ecb_def OSCtxSw_def intro!: kernel.equality)

lemma set_prio_same: "prio_at q k = Some x \<Longrightarrow> set_prio q x k = k"
  by (auto simp: set_prio_def prio_at_def split: if_splits)

lemma tcb_prio_set_prio: "p \<noteq> q \<Longrightarrow> tcb_prio p (set_prio q x k) = tcb_prio p k"
  by (simp add: tcb_prio_def set_prio_def nth_list_update word_unat_eq_iff)

lemma prio_at_set_prio: "p \<noteq> q \<Longrightarrow> prio_at p (set_prio q x k) = prio_at p k"
  by (simp add: prio_at_def set_prio_def nth_list_update word_unat_eq_iff)

lemma pend_block_set_prio:
  assumes "pend_block st timeout e k = Some k'"
  shows "pend_block st timeout e (set_prio q x k) = Some (set_prio q x k')"
  using assms
  by (auto simp: pend_block_def OS_EventTaskWait_def event_wait_def cur_unready_def set_prio_commute Let_def split: Option.bind_splits)

lemma OS_Sched_set_prio:
  assumes "kernel_ok k" "q \<notin> ready k" "OS_Sched k = Some k'"
  shows "OS_Sched (set_prio q x k) = Some (set_prio q x k')"
proof -
  have "Min (ready k) \<noteq> q" using min_ready(1) [OF assms(1)] assms(2) by auto
  then have t: "tcb_prio (Min (ready k)) (set_prio q x j) = tcb_prio (Min (ready k)) j" for j by (rule tcb_prio_set_prio)
  have new: "OS_SchedNew (set_prio q x k) = Some (set_prio q x (k\<lparr>OSPrioHighRdy := Min (ready k)\<rparr>))"
    using OS_SchedNew_spec [OF assms(1)] by (auto simp: OS_SchedNew_def set_prio_commute split: Option.bind_splits)
  have "resched (set_prio q x k) = map_option (set_prio q x) (resched k)"
    using t OS_SchedNew_spec [OF assms(1)] min_ready(2) [OF assms(1)]
    by (auto simp: resched_def new set_prio_commute Let_def tcb_prio_set_prio kernel_frame)
  then show ?thesis using assms(3) by (auto simp: OS_Sched_def split: if_splits)
qed


section \<open>Inheritance\<close>

text \<open>The state of a mutex: type, owner, and the two priorities in \<open>OSEventCnt\<close>.\<close>

definition mutex_at :: "nat \<Rightarrow> kernel \<Rightarrow> vptr \<Rightarrow> INT8U \<Rightarrow> INT8U \<Rightarrow> bool" where
  "mutex_at e k owner pip prio \<longleftrightarrow> e < OS_MAX_EVENTS \<and> OSEventType (OSEventTbl k e) = OS_EVENT_TYPE_MUTEX \<and>
     OSEventPtr (OSEventTbl k e) = owner \<and> mutex_pip (OSEventTbl k e) = pip \<and> mutex_prio (OSEventTbl k e) = prio"

text \<open>
  The task \<open>t\<close> of priority \<open>q\<close> has inherited the priority \<open>r\<close>: but for its old entry in the
  priority table, which still points to it, the kernel is as if the task had been created at \<open>r\<close>.
\<close>

definition inherited :: "kernel \<Rightarrow> INT8U \<Rightarrow> INT8U \<Rightarrow> nat \<Rightarrow> bool" where
  "inherited k q r t \<longleftrightarrow> kernel_ok (set_prio q PReserved k) \<and> prio_at q k = Some (PTcb t) \<and> tcb_prio r k = Some t \<and>
     q \<noteq> r \<and> r \<noteq> OS_TASK_IDLE_PRIO \<and> q \<notin> ready k"

lemma mutex_raise_step:
  assumes ok: "kernel_ok k" and q: "tcb_prio q k = Some t" "q \<in> ready k" "waits q k = {}" "q \<noteq> OS_TASK_IDLE_PRIO"
    and r: "prio_at r k = Some PReserved" "r \<noteq> OS_TASK_IDLE_PRIO"
  shows "\<exists>k'. mutex_raise t r k = Some k' \<and> inherited k' q r t \<and> ready k' = insert r (ready k - {q}) \<and>
    OSEventTbl k' = OSEventTbl k \<and> OSTCBTbl k' = (OSTCBTbl k)(t := at_prio r (OSTCBTbl k t)) \<and>
    OSTCBCur k' = OSTCBCur k \<and> OSPrioCur k' = OSPrioCur k \<and> OSIntNesting k' = OSIntNesting k \<and> OSLockNesting k' = OSLockNesting k \<and>
    (\<forall>p. p \<noteq> q \<longrightarrow> p \<noteq> r \<longrightarrow> tcb_prio p k' = tcb_prio p k)"
proof -
  let ?b = "OSTCBTbl k t"
  note K = kernel_okD [OF ok]
  have t: "t < OS_N_TCBS" "tcb_fields q ?b" "q < 24" using K(7) [OF q(1)] tcb_prio_bound [OF q(1) K(1)] by (simp_all add: task_ok_def)
  have r24: "r < 24" "unat r \<le> OS_LOWEST_PRIO" "tcb_prio r k = None"
    using r(1) K(1) by (auto simp: prio_at_def tcb_prio_def word_less_nat_alt split: if_splits)
  have qr: "q \<noteq> r" "unat q < length (OSTCBPrioTbl k)" using q(1) r24(3) by (auto simp: tcb_prio_def split: if_splits)
  obtain R1 where R1: "pt_del q (OSRdy k) = Some R1" "pt_ok R1" "pt_members R1 = pt_members (OSRdy k) - {q}"
    using pt.del [OF K(2) t(3)] by blast
  obtain R2 where R2: "pt_ins r R1 = Some R2" "pt_ok R2" "pt_members R2 = insert r (pt_members R1)"
    using pt.ins [OF R1(2) r24(1)] by blast
  define k' where "k' = k\<lparr>OSRdy := R2, OSTCBTbl := (OSTCBTbl k)(t := at_prio r ?b), OSTCBPrioTbl := (OSTCBPrioTbl k)[unat r := PTcb t]\<rparr>"
  have ready: "ready k' = insert r (ready k - {q})" by (simp add: k'_def ready_def R1(3) R2(3))
  have tbl: "OSTCBPrioTbl (set_prio q PReserved k') = (OSTCBPrioTbl k)[unat q := PReserved, unat r := PTcb t]"
    using qr(1) by (simp add: k'_def set_prio_def list_update_swap word_unat_eq_iff)
  have "kernel_ok (set_prio q PReserved k')"
    by (rule kernel_ok_move [OF ok q r24(3,2) _ _ _ _ tbl]) (simp_all add: ready, simp_all add: k'_def R2)
  moreover have "prio_at q k' = Some (PTcb t)" "tcb_prio r k' = Some t"
    using q(1) qr r24(2) K(1) by (auto simp: k'_def prio_at_def tcb_prio_def nth_list_update word_unat_eq_iff split: if_splits prio_entry.splits)
  ultimately have inh: "inherited k' q r t" using qr(1) r(2) ready by (simp add: inherited_def)
  have "mutex_raise t r k = Some k'"
    using t(1) rdy_bit_ready [OF K(2) t(2,3)] q(2) R1(1) R2(1) r24(2) K(1) tcb_fields_ops [OF t(2)]
      tcb_fields_ops [OF at_prio_fields [of r ?b]]
    by (simp add: mutex_raise_def unready_def make_ready_def put_prio_def set_prio_def set_tcb_def k'_def Let_def)
  moreover have "tcb_prio p k' = tcb_prio p k" if "p \<noteq> q" "p \<noteq> r" for p
    using that by (simp add: k'_def tcb_prio_def nth_list_update word_unat_eq_iff)
  ultimately show ?thesis using inh ready by (intro exI [of _ k']) (simp add: k'_def)
qed


lemma mutex_at_evolves: "evolves k k' \<Longrightarrow> mutex_at e k' owner pip prio = mutex_at e k owner pip prio"
  by (simp add: mutex_at_def evolves_view mutex_pip_def mutex_prio_def)

lemma mutex_at_event: "OSEventTbl k' = OSEventTbl k \<Longrightarrow> mutex_at e k' owner pip prio = mutex_at e k owner pip prio"
  by (simp add: mutex_at_def)

lemma mutex_not_free:
  assumes "mutex_prio ev < 0xFF"
  shows "\<not> mutex_free ev"
proof
  assume "mutex_free ev"
  then have "mutex_prio ev = 0xFF" by (simp add: mutex_free_def mutex_prio_def)
  then show False using assms by simp
qed

lemma task_prio:
  assumes "kernel_ok k" "tcb_prio p k = Some t"
  shows "OSTCBPrio (OSTCBTbl k t) = p" "t < OS_N_TCBS" "p < 24"
  using kernel_okD(7) [OF assms] tcb_prio_bound [OF assms(2) kernel_okD(1) [OF assms(1)]]
  by (simp_all add: task_ok_def tcb_fields_def)

lemma OSMutexPend_inherits_step:
  assumes "kernel_ok k" "task_level k" "at_call k p c" "p \<noteq> OS_TASK_IDLE_PRIO" "mutex_at e k (VTcb t) r q"
    "tcb_prio q k = Some t" "q \<in> ready k" "waits q k = {}" "q \<noteq> OS_TASK_IDLE_PRIO" "p < q"
    "prio_at r k = Some PReserved" "\<forall>s \<in> ready k. r < s"
  shows "\<exists>k'. OSMutexPend (Some e) timeout True k = Some (Blocked, k') \<and> inherited k' q r t \<and> running k' r t \<and>
    OSPrioCur k' = r \<and> ready k' = insert r (ready k - {p, q}) \<and> waiters e k' = insert p (waiters e k) \<and>
    (\<forall>x < OS_MAX_EVENTS. x \<noteq> e \<longrightarrow> waiters x k' = waiters x k) \<and>
    mutex_at e k' (VTcb t) r q \<and> OSIntNesting k' = 0 \<and> OSLockNesting k' = 0"
proof -
  let ?ev = "OSEventTbl k e"
  have lev: "OSIntNesting k = 0" "OSLockNesting k = 0" "sched_ok k" using assms(2) by (simp_all add: task_level_def)
  have run: "OSTCBCur k = Some c" "tcb_prio p k = Some c" using assms(3) by (simp_all add: at_call_def running_def)
  note pc = task_prio [OF assms(1) run(2)] and qt = task_prio [OF assms(1,6)]
  have r: "r < q" "r \<noteq> OS_TASK_IDLE_PRIO" using assms(7,12) kernel_okD(6) [OF assms(1)] by auto
  have rq: "r \<noteq> q" using r(1) by auto
  have rp: "r \<noteq> p" using run(2) assms(11) by (auto simp: prio_at_def tcb_prio_def split: if_splits)
  have pq: "p \<noteq> q" "c \<noteq> t" using assms(10) pc(1) qt(1) by auto
  obtain k1 where k1: "mutex_raise t r k = Some k1" "inherited k1 q r t" "ready k1 = insert r (ready k - {q})"
    "OSEventTbl k1 = OSEventTbl k" "OSTCBTbl k1 = (OSTCBTbl k)(t := at_prio r (OSTCBTbl k t))" "OSTCBCur k1 = OSTCBCur k"
    "OSPrioCur k1 = OSPrioCur k" "OSIntNesting k1 = OSIntNesting k" "OSLockNesting k1 = OSLockNesting k"
    "\<forall>p. p \<noteq> q \<longrightarrow> p \<noteq> r \<longrightarrow> tcb_prio p k1 = tcb_prio p k"
    using mutex_raise_step [OF assms(1,6-9,11) r(2)] by (elim exE conjE) blast
  define j where "j = set_prio q PReserved k1"
  have k1j: "k1 = set_prio q (PTcb t) j" using k1(2) by (simp add: j_def inherited_def set_prio_same)
  have run_j: "running j p c" using run rp pq(1) k1(6,10) by (simp add: running_def j_def tcb_prio_set_prio)
  have "waits p j = {}" using assms(3) k1(4) by (simp add: j_def at_call_def waits_def waiters_def)
  then have call: "at_call j p c" using run_j pq(2) assms(3) by (simp add: at_call_def) (simp add: j_def k1(5))
  have "OSPrioCur k = p"
  proof -
    obtain u where "running k (OSPrioCur k) u" using lev(3) by (auto simp: sched_ok_def)
    then have u: "tcb_prio (OSPrioCur k) k = Some c" using run(1) by (auto simp: running_def)
    show ?thesis using task_prio(1) [OF assms(1) u] pc(1) by simp
  qed
  then have "sched_ok j" using run_j by (auto simp: sched_ok_def j_def k1(7))
  then have j: "kernel_ok j" "task_level j" "e < OS_MAX_EVENTS" "OS_STAT_MUTEX AND OS_STAT_PEND_ANY \<noteq> 0"
    using k1(2,8,9) lev assms(5) by (simp_all add: j_def inherited_def task_level_def mutex_at_def)
  obtain k2 k3 where k3: "pend_block OS_STAT_MUTEX timeout e j = Some k2" "OS_Sched k2 = Some k3" "evolves j k3"
    "kernel_ok k3" "task_level k3" "highest_runs k3" "waiters e k3 = insert p (waiters e j)" "ready k3 = ready j - {p}"
    "\<forall>x < OS_MAX_EVENTS. x \<noteq> e \<longrightarrow> waiters x k3 = waiters x j"
    "kernel_ok k2" "ready k2 = ready j - {p}"
    using block_sched [OF j(1,2) call assms(4) j(3,4), of timeout] by (elim exE conjE) blast
  let ?k = "set_prio q (PTcb t) k3"
  have rj: "ready j = insert r (ready k - {q})" by (simp add: j_def k1(3))
  have q2: "q \<notin> ready k2" using k3(11) rj r(1) by auto
  have "pend_block OS_STAT_MUTEX timeout e k1 = Some (set_prio q (PTcb t) k2)"
    unfolding k1j using pend_block_set_prio [OF k3(1)] .
  moreover have "OS_Sched (set_prio q (PTcb t) k2) = Some ?k" using OS_Sched_set_prio [OF k3(10) q2 k3(2)] .
  moreover have "\<not> mutex_free ?ev"
    using assms(5) qt(3) by (intro mutex_not_free) (auto simp: mutex_at_def intro: less_trans [of _ 24])
  ultimately have "OSMutexPend (Some e) timeout True k = Some (Blocked, ?k)"
    using assms(5,10) lev run pc qt(1,2) r(1) k1(1)
    by (simp add: OSMutexPend_def mutex_at_def cur_tcb_def)
  moreover have ready: "ready ?k = insert r (ready k - {p, q})" using k3(8) rj rp by auto
  moreover have "inherited ?k q r t"
  proof -
    have len: "unat q < length (OSTCBPrioTbl k3)"
      using assms(6) kernel_okD(1) [OF k3(4)] kernel_okD(1) [OF assms(1)] by (auto simp: tcb_prio_def split: if_splits)
    have "prio_at q j = Some PReserved"
      using len evolves_view(17) [OF k3(3)] by (simp add: j_def prio_at_def set_prio_def)
    then have "prio_at q k3 = Some PReserved" using evolves_view(17) [OF k3(3)] by (auto simp: prio_at_def split: if_splits)
    then have "set_prio q PReserved ?k = k3" by (simp add: set_prio_same)
    moreover have "tcb_prio r k3 = Some t"
      using k1(2) rq evolves_view(10) [OF k3(3), of r] by (simp add: j_def inherited_def tcb_prio_set_prio)
    ultimately show ?thesis
      using k3(4) k1(2) len ready r rq by (simp add: inherited_def tcb_prio_set_prio) (simp add: prio_at_def set_prio_def)
  qed
  moreover have "running ?k r t" "OSPrioCur ?k = r"
  proof -
    have "Min (ready k3) = r"
      using k3(8) rj rp assms(12) by (intro Min_eqI) auto
    then show p: "OSPrioCur ?k = r" using k3(6) by (simp add: highest_runs_def)
    obtain u where "running k3 r u" using k3(6) p by (auto simp: highest_runs_def sched_ok_def)
    then show "running ?k r t" using calculation(3) rq by (auto simp: running_def inherited_def tcb_prio_set_prio)
  qed
  moreover have "mutex_at e ?k (VTcb t) r q"
    using mutex_at_evolves [OF k3(3), of e] assms(5) k1(4) by (simp add: mutex_at_def j_def)
  moreover have "waiters e ?k = insert p (waiters e k)" using k3(7) k1(4) by (simp add: j_def waiters_def)
  moreover have "\<forall>x < OS_MAX_EVENTS. x \<noteq> e \<longrightarrow> waiters x ?k = waiters x k" using k3(9) k1(4) by (simp add: j_def waiters_def)
  ultimately show ?thesis using k3(5) by (intro exI [of _ ?k]) (simp add: task_level_def)
qed


text \<open>C11: When a task of higher priority pends on a mutex that a ready task of lower priority owns,
  the owner inherits the priority PIP of the mutex and runs at once, ahead of every other ready task;
  the pending task waits for the mutex.\<close>

theorem OSMutexPend_inherits:
  assumes "kernel_ok k" "task_level k" "at_call k p c" "p \<noteq> OS_TASK_IDLE_PRIO" "mutex_at e k (VTcb t) r q"
    "tcb_prio q k = Some t" "q \<in> ready k" "waits q k = {}" "q \<noteq> OS_TASK_IDLE_PRIO" "p < q"
    "prio_at r k = Some PReserved" "\<forall>s \<in> ready k. r < s"
  shows "\<exists>k'. OSMutexPend (Some e) timeout True k = Some (Blocked, k') \<and> inherited k' q r t \<and> running k' r t \<and>
    OSPrioCur k' = r \<and> ready k' = insert r (ready k - {p, q}) \<and> waiters e k' = insert p (waiters e k) \<and>
    (\<forall>x < OS_MAX_EVENTS. x \<noteq> e \<longrightarrow> waiters x k' = waiters x k) \<and>
    mutex_at e k' (VTcb t) r q \<and> OSIntNesting k' = 0 \<and> OSLockNesting k' = 0"
  by (rule OSMutexPend_inherits_step [OF assms])

section \<open>The end of the inheritance\<close>

lemma low_three: "w AND 0x07 = w" if "unat w < 8" for w :: INT8U
  using unat_prio_x [of w] that by (simp add: word_unat_eq_iff prio_x_def)

lemma low_byte_mask: "(0x00FF :: INT16U) = mask 8" "(0xFF00 :: INT16U) = NOT (mask 8)"
  by (simp_all add: mask_eq_exp_minus_1)

lemma mutex_cnt:
  assumes "OSEventCnt ev' = OSEventCnt ev AND OS_MUTEX_KEEP_UPPER_8 OR ucast p"
  shows "mutex_pip ev' = mutex_pip ev" "mutex_prio ev' = p"
proof -
  have "\<not> bit p (8 + n)" for n using bit_imp_le_length [of p "8 + n"] by auto
  then show "mutex_pip ev' = mutex_pip ev" "mutex_prio ev' = p"
    using assms unfolding mutex_pip_def mutex_prio_def low_byte_mask by (auto intro!: bit_word_eqI simp: bit_simps)
qed

lemma mutex_cnt_free:
  assumes "OSEventCnt ev' = OSEventCnt ev OR OS_MUTEX_AVAILABLE"
  shows "mutex_pip ev' = mutex_pip ev" "mutex_prio ev' = 0xFF" "mutex_free ev'"
proof -
  show "mutex_pip ev' = mutex_pip ev"
    using assms unfolding mutex_pip_def low_byte_mask by (auto intro!: bit_word_eqI simp: bit_simps)
  have f: "OSEventCnt ev' AND OS_MUTEX_KEEP_LOWER_8 = OS_MUTEX_AVAILABLE"
    using assms unfolding low_byte_mask by (auto intro!: bit_word_eqI simp: bit_simps)
  then show "mutex_prio ev' = 0xFF" "mutex_free ev'" by (simp_all add: mutex_prio_def mutex_free_def)
qed

lemma at_prio_restored: "q < 24 \<Longrightarrow> (at_prio q b)\<lparr>OSTCBY := prio_y q AND 0x07, OSTCBBitY := bit8 (prio_y q AND 0x07)\<rparr> = at_prio q b"
proof -
  assume "q < 24"
  then have "unat (prio_y q) < 8" by (simp add: unat_prio_y word_less_nat_alt less_mult_imp_div_less)
  then show ?thesis by (simp add: low_three at_prio_def)
qed

lemma restore_step:
  assumes inh: "inherited k q r t" and r: "r \<in> ready k" "waits r k = {}"
  shows "\<exists>k' k1. OSMutex_RdyAtPrio t q k = Some k1 \<and> put_prio r PReserved k1 = Some k' \<and> kernel_ok k' \<and>
    ready k' = insert q (ready k - {r}) \<and> OSEventTbl k' = OSEventTbl k \<and> OSTCBTbl k' = (OSTCBTbl k)(t := at_prio q (OSTCBTbl k t)) \<and>
    tcb_prio q k' = Some t \<and> prio_at r k' = Some PReserved \<and> OSTCBCur k' = OSTCBCur k \<and> OSPrioCur k' = OSPrioCur k \<and>
    OSIntNesting k' = OSIntNesting k \<and> OSLockNesting k' = OSLockNesting k"
proof -
  let ?b = "OSTCBTbl k t" and ?j = "set_prio q PReserved k"
  have j: "kernel_ok ?j" "tcb_prio r ?j = Some t" "q \<noteq> r" "r \<noteq> OS_TASK_IDLE_PRIO" "prio_at q k = Some (PTcb t)" "q \<notin> ready k"
    using inh by (auto simp: inherited_def tcb_prio_set_prio)
  note K = kernel_okD [OF j(1), simplified]
  have len: "length (OSTCBPrioTbl k) = OS_LOWEST_PRIO + 1" using K(1) by (simp add: set_prio_def)
  have q: "unat q \<le> OS_LOWEST_PRIO" "q < 24" "tcb_prio q ?j = None"
    using j(5) len by (auto simp: prio_at_def word_less_nat_alt tcb_prio_def set_prio_def split: if_splits)
  have t: "t < OS_N_TCBS" "tcb_fields r ?b" "r < 24"
    using kernel_okD(7) [OF j(1,2)] tcb_prio_bound [OF j(2) kernel_okD(1) [OF j(1)]] by (simp_all add: task_ok_def)
  have r20: "unat r < length (OSTCBPrioTbl k)" using j(2) by (auto simp: tcb_prio_def set_prio_def split: if_splits)
  obtain R1 where R1: "pt_del r (OSRdy k) = Some R1" "pt_ok R1" "pt_members R1 = pt_members (OSRdy k) - {r}"
    using pt.del [OF K(2) t(3)] by blast
  obtain R2 where R2: "pt_ins q R1 = Some R2" "pt_ok R2" "pt_members R2 = insert q (pt_members R1)"
    using pt.ins [OF R1(2) q(2)] by blast
  define k' where "k' = k\<lparr>OSRdy := R2, OSTCBTbl := (OSTCBTbl k)(t := at_prio q ?b),
      OSTCBPrioTbl := (OSTCBPrioTbl k)[unat q := PTcb t, unat r := PReserved]\<rparr>"
  have ready: "ready k' = insert q (ready k - {r})" by (simp add: k'_def ready_def R1(3) R2(3))
  have tbl: "OSTCBPrioTbl k' = (OSTCBPrioTbl ?j)[unat r := PReserved, unat q := PTcb t]"
  proof -
    have "unat q \<noteq> unat r" using j(3) by (simp add: word_unat_eq_iff)
    then have "(OSTCBPrioTbl k)[unat q := PReserved, unat r := PReserved] = (OSTCBPrioTbl k)[unat r := PReserved, unat q := PReserved]"
      "(OSTCBPrioTbl k)[unat q := PTcb t, unat r := PReserved] = (OSTCBPrioTbl k)[unat r := PReserved, unat q := PTcb t]"
      by (simp_all add: list_update_swap)
    then show ?thesis by (simp add: k'_def set_prio_def)
  qed
  have rw: "r \<in> ready ?j" "waits r ?j = {}" using r by simp_all
  have ok: "kernel_ok k'" and tp: "tcb_prio q k' = Some t"
    using kernel_ok_move(1) [OF j(1,2) rw j(4) q(3,1) _ _ _ _ tbl] kernel_ok_move(2) [OF j(1,2) rw j(4) q(3,1) _ _ _ _ tbl, of q]
      R2(2) ready by (simp_all add: k'_def)
  have "OSMutex_RdyAtPrio t q k = Some (k\<lparr>OSRdy := R2, OSTCBTbl := (OSTCBTbl k)(t := at_prio q ?b),
      OSTCBPrioTbl := (OSTCBPrioTbl k)[unat q := PTcb t]\<rparr>)"
    using t(1) R1(1) R2(1) q(1) len tcb_fields_ops [OF t(2)] tcb_fields_ops [OF at_prio_fields [of q ?b]]
    by (simp add: OSMutex_RdyAtPrio_def unready_def make_ready_def put_prio_def set_prio_def set_tcb_def Let_def at_prio_restored [OF q(2)])
  moreover have "put_prio r PReserved (k\<lparr>OSRdy := R2, OSTCBTbl := (OSTCBTbl k)(t := at_prio q ?b),
      OSTCBPrioTbl := (OSTCBPrioTbl k)[unat q := PTcb t]\<rparr>) = Some k'"
    using r20 by (simp add: put_prio_def set_prio_def k'_def)
  moreover have "prio_at r k' = Some PReserved" using r20 by (simp add: k'_def prio_at_def)
  ultimately show ?thesis using ok tp ready by (intro exI conjI) (assumption | simp add: k'_def)+
qed


lemma mutex_at_set:
  assumes "e < OS_MAX_EVENTS" "OSEventType ev = OS_EVENT_TYPE_MUTEX"
  shows "mutex_at e (set_ecb e ev k) (OSEventPtr ev) (mutex_pip ev) (mutex_prio ev)"
  using assms by (simp add: mutex_at_def set_ecb_def)

lemma prio_at_set_ecb [simp]: "prio_at p (set_ecb e ev k) = prio_at p k"
  by (simp add: prio_at_def set_ecb_def)

lemma prio_at_cong: "OSTCBPrioTbl k' = OSTCBPrioTbl k \<Longrightarrow> prio_at p k' = prio_at p k"
  by (simp add: prio_at_def)

lemma prio_at_tcb: "tcb_prio p k = Some t \<longleftrightarrow> prio_at p k = Some (PTcb t)"
  by (auto simp: tcb_prio_def prio_at_def split: prio_entry.splits)

text \<open>The mutex is handed to the task of highest priority that waits for it.\<close>

definition mutex_pass :: "INT8U \<Rightarrow> nat \<Rightarrow> os_event \<Rightarrow> os_event" where
  "mutex_pass w u ev = ev\<lparr>OSEventCnt := OSEventCnt ev AND OS_MUTEX_KEEP_UPPER_8 OR ucast w, OSEventPtr := VTcb u\<rparr>"

lemma mutex_handover:
  assumes ok: "kernel_ok k" and m: "mutex_at e k owner r q" and ne: "waiters e k \<noteq> {}" and cur: "OSPrioCur k = r" "r \<notin> ready k"
    "prio_at r k = Some PReserved" "OSIntNesting k = 0" "OSLockNesting k = 0"
  defines "w \<equiv> Min (waiters e k)"
  shows "\<exists>u k1 k'. OS_EventTaskRdy e VNull OS_STAT_MUTEX OS_STAT_PEND_OK k = Some (w, k1) \<and> prio_at w k1 = Some (PTcb u) \<and>
    OS_Sched (set_ecb e (mutex_pass w u (OSEventTbl k1 e)) k1) = Some k' \<and> kernel_ok k' \<and> highest_runs k' \<and>
    (\<forall>p. tcb_prio p k' = tcb_prio p k) \<and> (\<forall>p. prio_at p k' = prio_at p k) \<and> tcb_prio w k' = Some u \<and> mutex_at e k' (VTcb u) r w \<and>
    waiters e k' = waiters e k - {w} \<and> ready k \<subseteq> ready k' \<and> (\<not> suspended (tcb_of w k') \<longrightarrow> w \<in> ready k')"
proof -
  have e: "e < OS_MAX_EVENTS" and msk: "OS_STAT_MUTEX AND OS_STAT_SUSPEND = 0" using m by (simp_all add: mutex_at_def)
  obtain u k1 where k1: "tcb_prio w k = Some u" "OS_EventTaskRdy e VNull OS_STAT_MUTEX OS_STAT_PEND_OK k = Some (w, k1)"
    "touches w u k k1" "OSTCBTbl k1 u = woken e VNull OS_STAT_MUTEX OS_STAT_PEND_OK (OSTCBTbl k u)"
    "ready k1 = (if suspended (OSTCBTbl k u) then ready k else insert w (ready k))" "kernel_ok k1"
    using OS_EventTaskRdy_spec [OF ok e ne msk w_def [THEN meta_eq_to_obj_eq], of VNull OS_STAT_PEND_OK]
    by (elim exE conjE) blast
  have w1: "waiters e k1 = waiters e k - {w}" "same_kernel k k1"
    using OS_EventTaskRdy_waiters [OF ok e ne msk, of VNull OS_STAT_PEND_OK] k1(2) by (auto simp: w_def)
  let ?ev = "mutex_pass w u (OSEventTbl k1 e)"
  let ?k = "set_ecb e ?ev k1"
  have same: "OSEventWait ?ev = OSEventWait (OSEventTbl k1 e)" by (simp add: mutex_pass_def)
  have tbl: "OSTCBPrioTbl k1 = OSTCBPrioTbl k" using same_kernel_kernel(1) [OF w1(2)] .
  have "r \<noteq> w" using cur(3) k1(1) by (auto simp: prio_at_tcb)
  then have "r \<notin> ready ?k" using k1(5) cur(2) by (auto simp: view_set_ecb(3) [OF same])
  moreover have ok1: "kernel_ok ?k" using kernel_ok_set_ecb [OF same] k1(6) by simp
  moreover have f: "OSPrioCur ?k = r" "OSIntNesting ?k = 0" "OSLockNesting ?k = 0"
    using same_kernel_kernel [OF w1(2)] cur by (simp_all add: set_ecb_def)
  ultimately have "Min (ready ?k) \<noteq> OSPrioCur ?k" using min_ready(1) [OF ok1] by metis
  then obtain k' where k': "resched ?k = Some k'" "switched ?k k'" "highest_runs k'" using resched_switch [OF ok1] by blast
  have tp: "tcb_prio p k' = tcb_prio p k" "prio_at p k' = prio_at p k" for p
    using tbl by (simp_all add: tcb_prio_def prio_at_def switched_view [OF k'(2)] set_ecb_def)
  have "mutex_at e ?k (VTcb u) r w"
    using mutex_at_set [of e ?ev k1] m mutex_cnt [of ?ev "OSEventTbl k e" w] same_kernel_kernel(16,18) [OF w1(2), of e]
    by (simp add: mutex_at_def mutex_pass_def)
  then have "mutex_at e k' (VTcb u) r w" by (simp add: mutex_at_def switched_view [OF k'(2)])
  moreover have "suspended (tcb_of w k') = suspended (OSTCBTbl k u)"
  proof -
    obtain m where "OSTCBTbl k' u = (OSTCBTbl k1 u)\<lparr>OSTCBCtxSwCtr := m\<rparr>"
      using switched_tcb [OF k'(2), of u] by (auto simp: set_ecb_def)
    then show ?thesis
      using suspended_mask [OF msk, of "OSTCBStat (OSTCBTbl k u)"] tp k1(1)
      by (simp add: tcb_of_def k1(4) suspended_def woken_def Let_def)
  qed
  moreover have "kernel_ok k'" using ok1 kernel_ok_switched [OF k'(2)] by simp
  moreover have "ready k' = ready k1" "waiters e k' = waiters e k - {w}"
    by (simp_all add: switched_view [OF k'(2)] view_set_ecb [OF same] w1(1))
  moreover have "prio_at w k1 = Some (PTcb u)" using k1(1) tbl by (simp add: prio_at_tcb prio_at_cong [OF tbl])
  moreover have "OS_Sched ?k = Some k'" using k'(1) f by (simp add: OS_Sched_def)
  ultimately show ?thesis using k1(1,2,5) k'(3) tp by (intro exI [of _ u] exI [of _ k1] exI [of _ k']) auto
qed

lemma OSMutexPost_start:
  assumes "inherited k q r t" "running k r t" "r \<in> ready k" "waits r k = {}" "mutex_at e k (VTcb t) r q" "OSIntNesting k = 0"
  shows "\<exists>k'. kernel_ok k' \<and> ready k' = insert q (ready k - {r}) \<and> OSEventTbl k' = OSEventTbl k \<and>
    tcb_prio q k' = Some t \<and> prio_at r k' = Some PReserved \<and> OSTCBCur k' = OSTCBCur k \<and> OSPrioCur k' = OSPrioCur k \<and>
    OSIntNesting k' = OSIntNesting k \<and> OSLockNesting k' = OSLockNesting k \<and>
    OSMutexPost (Some e) k = (if waiters e k \<noteq> {} then do {
       (prio, k) \<leftarrow> OS_EventTaskRdy e VNull OS_STAT_MUTEX OS_STAT_PEND_OK k';
       ev \<leftarrow> ecb_at e k;
       en \<leftarrow> prio_at prio k;
       let k = set_ecb e (ev\<lparr>OSEventCnt := OSEventCnt ev AND OS_MUTEX_KEEP_UPPER_8 OR ucast prio, OSEventPtr := prio_ptr en\<rparr>) k;
       k \<leftarrow> OS_Sched k;
       Some (if prio \<le> r then OS_ERR_PIP_LOWER else OS_ERR_NONE, k) }
     else do {
       ev \<leftarrow> ecb_at e k';
       Some (OS_ERR_NONE, set_ecb e (ev\<lparr>OSEventCnt := OSEventCnt ev OR OS_MUTEX_AVAILABLE, OSEventPtr := VNull\<rparr>) k') })"
proof -
  obtain k' k1 where k': "OSMutex_RdyAtPrio t q k = Some k1" "put_prio r PReserved k1 = Some k'" "kernel_ok k'"
    "ready k' = insert q (ready k - {r})" "OSEventTbl k' = OSEventTbl k"
    "tcb_prio q k' = Some t" "prio_at r k' = Some PReserved" "OSTCBCur k' = OSTCBCur k" "OSPrioCur k' = OSPrioCur k"
    "OSIntNesting k' = OSIntNesting k" "OSLockNesting k' = OSLockNesting k"
    using restore_step [OF assms(1,3,4)] by (elim exE conjE) blast
  have j: "tcb_prio r (set_prio q PReserved k) = Some t" "kernel_ok (set_prio q PReserved k)"
    using assms(1) by (auto simp: inherited_def tcb_prio_set_prio)
  have cur: "OSTCBCur k = Some t" "cur_tcb k = Some (t, OSTCBTbl k t)" "OSTCBPrio (OSTCBTbl k t) = r"
    using assms(2) task_prio [OF j(2,1)] by (simp_all add: running_def cur_tcb_def)
  have "Grp (OSEventWait (OSEventTbl k e)) = 0 \<longleftrightarrow> waiters e k = {}"
    using grp_zero_iff [OF k'(3), of e] k'(5) assms(5) by (simp add: mutex_at_def waiters_def)
  then show ?thesis
    using assms(5,6) cur k' by (intro exI [of _ k']) (simp add: OSMutexPost_def mutex_at_def Let_def)
qed

text \<open>C12: The owner that posts gets its own priority back and PIP is reserved again. If tasks wait,
  the one of highest priority becomes the owner and the ready task of highest priority runs. If none
  waits any more the mutex becomes available, and the post does not reschedule: the task goes on at
  its lower priority although a task between the two priorities may be ready.\<close>

theorem OSMutexPost_restores:
  assumes "inherited k q r t" "running k r t" "OSPrioCur k = r" "r \<in> ready k" "waits r k = {}" "mutex_at e k (VTcb t) r q"
    "OSIntNesting k = 0" "OSLockNesting k = 0"
  defines "w \<equiv> Min (waiters e k)"
  shows "\<exists>err k'. OSMutexPost (Some e) k = Some (err, k') \<and> kernel_ok k' \<and> OSTCBPrio (OSTCBTbl k' t) = q \<and>
    tcb_prio q k' = Some t \<and> prio_at r k' = Some PReserved \<and>
    (if waiters e k = {}
     then err = OS_ERR_NONE \<and> mutex_at e k' VNull r 0xFF \<and> running k' q t \<and> OSPrioCur k' = r \<and> ready k' = insert q (ready k - {r})
     else err = (if w \<le> r then OS_ERR_PIP_LOWER else OS_ERR_NONE) \<and> (\<exists>u. tcb_prio w k' = Some u \<and> mutex_at e k' (VTcb u) r w) \<and>
       waiters e k' = waiters e k - {w} \<and> highest_runs k' \<and> insert q (ready k - {r}) \<subseteq> ready k' \<and>
       (\<not> suspended (tcb_of w k') \<longrightarrow> w \<in> ready k'))"
proof -
  obtain j where j: "kernel_ok j" "ready j = insert q (ready k - {r})" "OSEventTbl j = OSEventTbl k"
    "tcb_prio q j = Some t" "prio_at r j = Some PReserved" "OSTCBCur j = OSTCBCur k" "OSPrioCur j = OSPrioCur k"
    "OSIntNesting j = OSIntNesting k" "OSLockNesting j = OSLockNesting k"
    and post: "OSMutexPost (Some e) k = (if waiters e k \<noteq> {} then do {
       (prio, k) \<leftarrow> OS_EventTaskRdy e VNull OS_STAT_MUTEX OS_STAT_PEND_OK j;
       ev \<leftarrow> ecb_at e k;
       en \<leftarrow> prio_at prio k;
       let k = set_ecb e (ev\<lparr>OSEventCnt := OSEventCnt ev AND OS_MUTEX_KEEP_UPPER_8 OR ucast prio, OSEventPtr := prio_ptr en\<rparr>) k;
       k \<leftarrow> OS_Sched k;
       Some (if prio \<le> r then OS_ERR_PIP_LOWER else OS_ERR_NONE, k) }
     else do {
       ev \<leftarrow> ecb_at e j;
       Some (OS_ERR_NONE, set_ecb e (ev\<lparr>OSEventCnt := OSEventCnt ev OR OS_MUTEX_AVAILABLE, OSEventPtr := VNull\<rparr>) j) })"
    using OSMutexPost_start [OF assms(1,2,4-7)] by (elim exE conjE) blast
  have m: "mutex_at e j (VTcb t) r q" "waiters e j = waiters e k" "e < OS_MAX_EVENTS" "q \<noteq> r"
    using assms(1,6) j(3) by (simp_all add: mutex_at_def waiters_def inherited_def)
  show ?thesis
  proof (cases "waiters e k = {}")
    case True
    let ?ev = "OSEventTbl j e"
    let ?ev' = "?ev\<lparr>OSEventCnt := OSEventCnt ?ev OR OS_MUTEX_AVAILABLE, OSEventPtr := VNull\<rparr>"
    let ?k = "set_ecb e ?ev' j"
    have same: "OSEventWait ?ev' = OSEventWait (OSEventTbl j e)" by simp
    have "mutex_at e ?k VNull r 0xFF"
      using mutex_at_set [of e ?ev' j] m(1) mutex_cnt_free [of ?ev' ?ev] by (simp add: mutex_at_def)
    moreover have "OSMutexPost (Some e) k = Some (OS_ERR_NONE, ?k)" using post True m(3) by simp
    moreover have "running ?k q t" using assms(2) j(4,6) by (simp add: running_def kernel_frame) (simp add: set_ecb_def)
    moreover have "OSPrioCur ?k = r" "OSTCBTbl ?k = OSTCBTbl j" using j(7) assms(3) by (simp_all add: set_ecb_def)
    ultimately show ?thesis
      using True kernel_ok_set_ecb [OF same] j(1,2,4,5) view_set_ecb(3) [OF same] task_prio(1) [OF j(1,4)]
      by (intro exI [of _ OS_ERR_NONE] exI [of _ ?k]) (simp add: kernel_frame)
  next
    case False
    have nj: "waiters e j \<noteq> {}" "OSPrioCur j = r" "r \<notin> ready j" "OSIntNesting j = 0" "OSLockNesting j = 0"
      using False j(2,7-9) m(2,4) assms(3,7,8) by auto
    obtain u k1 k' where k': "OS_EventTaskRdy e VNull OS_STAT_MUTEX OS_STAT_PEND_OK j = Some (w, k1)" "prio_at w k1 = Some (PTcb u)"
      "OS_Sched (set_ecb e (mutex_pass w u (OSEventTbl k1 e)) k1) = Some k'" "kernel_ok k'" "highest_runs k'"
      "\<forall>p. tcb_prio p k' = tcb_prio p j" "\<forall>p. prio_at p k' = prio_at p j" "tcb_prio w k' = Some u" "mutex_at e k' (VTcb u) r w"
      "waiters e k' = waiters e k - {w}" "ready j \<subseteq> ready k'" "\<not> suspended (tcb_of w k') \<longrightarrow> w \<in> ready k'"
      using mutex_handover [OF j(1) m(1) nj(1-3) j(5) nj(4,5)] unfolding m(2) w_def [symmetric] by (elim exE conjE) blast
    have "OSMutexPost (Some e) k = Some (if w \<le> r then OS_ERR_PIP_LOWER else OS_ERR_NONE, k')"
      using post False k'(1-3) m(3) by (simp add: prio_ptr_def mutex_pass_def Let_def)
    moreover have "OSTCBPrio (OSTCBTbl k' t) = q" using task_prio(1) [OF k'(4), of q t] k'(6) j(4) by simp
    ultimately show ?thesis
      using False k'(4-12) j(2,4,5) by (intro exI [of _ "if w \<le> r then OS_ERR_PIP_LOWER else OS_ERR_NONE"] exI [of _ k']) simp
  qed
qed


section \<open>An example\<close>

text \<open>The statistics task owns a mutex with PIP 2; the task of the application runs with priority 5.\<close>

definition demo_mutex :: kernel where
  "demo_mutex = set_prio 2 PReserved (set_ecb 0 ((OSEventTbl demo_app 0)\<lparr>OSEventType := OS_EVENT_TYPE_MUTEX, OSEventCnt := 0x0213,
     OSEventPtr := VTcb 1\<rparr>) demo_app)"

lemma demo_mutex_facts:
  "kernel_ok demo_mutex" "task_level demo_mutex" "at_call demo_mutex 5 2" "mutex_at 0 demo_mutex (VTcb 1) 2 OS_TASK_STAT_PRIO"
  "tcb_prio OS_TASK_STAT_PRIO demo_mutex = Some 1" "ready demo_mutex = {5, OS_TASK_IDLE_PRIO, OS_TASK_STAT_PRIO}"
  "waiters e demo_mutex = {}" "prio_at 2 demo_mutex = Some PReserved"
proof -
  let ?ev = "(OSEventTbl demo_app 0)\<lparr>OSEventType := OS_EVENT_TYPE_MUTEX, OSEventCnt := 0x0213, OSEventPtr := VTcb 1\<rparr>"
  let ?k = "set_ecb 0 ?ev demo_app"
  have same: "OSEventWait ?ev = OSEventWait (OSEventTbl demo_app 0)" by simp
  have at: "prio_at 2 ?k = Some PNull" using demo_app_facts(9) [of 2] by simp
  have none: "tcb_prio 2 ?k = None" using at prio_at_tcb [of 2 ?k] by (cases "tcb_prio 2 ?k") auto
  have len: "unat (2 :: INT8U) < length (OSTCBPrioTbl ?k)" using at by (simp add: prio_at_def split: if_splits)
  have tp: "tcb_prio p demo_mutex = tcb_prio p demo_app" for p
  proof (cases "p = 2")
    case True
    then show ?thesis using none len by (simp add: demo_mutex_def set_prio_def kernel_frame) (simp add: tcb_prio_def)
  qed (simp add: demo_mutex_def tcb_prio_set_prio kernel_frame)
  have "kernel_ok ?k" using kernel_ok_set_ecb [OF same] demo_app_facts(2) by simp
  moreover have "live demo_mutex = live ?k" by (simp add: live_def tp kernel_frame)
  moreover have "length (OSTCBPrioTbl demo_mutex) = length (OSTCBPrioTbl ?k)" by (simp add: demo_mutex_def set_prio_def)
  ultimately show "kernel_ok demo_mutex"
    using tp by (simp add: kernel_ok_def kernel_pre_def kernel_frame) (simp add: demo_mutex_def)
  show r: "ready demo_mutex = {5, OS_TASK_IDLE_PRIO, OS_TASK_STAT_PRIO}" and w: "waiters e demo_mutex = {}" for e
  proof -
    have "ready ?k = ready demo_app" "waiters e ?k = waiters e demo_app" by (rule view_set_ecb [OF same])+
    then show "ready demo_mutex = {5, OS_TASK_IDLE_PRIO, OS_TASK_STAT_PRIO}" "waiters e demo_mutex = {}"
      using demo_app_facts(5,10) by (simp_all only: demo_mutex_def set_prio_frame)
  qed
  have run: "OSTCBCur demo_mutex = OSTCBCur demo_app" "OSPrioCur demo_mutex = OSPrioCur demo_app" "OSTCBTbl demo_mutex = OSTCBTbl demo_app"
    "OSIntNesting demo_mutex = OSIntNesting demo_app" "OSLockNesting demo_mutex = OSLockNesting demo_app"
    by (simp_all add: demo_mutex_def) (simp_all add: set_ecb_def)
  show "task_level demo_mutex" using demo_app_facts(3) by (simp add: task_level_def sched_ok_def running_def run tp)
  show "at_call demo_mutex 5 2" using demo_app_facts(8) w by (simp add: at_call_def running_def run tp waits_def)
  show "tcb_prio OS_TASK_STAT_PRIO demo_mutex = Some 1" by (simp add: tp demo_app_facts(7))
  show "prio_at 2 demo_mutex = Some PReserved" using len by (simp add: demo_mutex_def set_prio_def prio_at_def)
  have "mutex_pip ?ev = 2" "mutex_prio ?ev = OS_TASK_STAT_PRIO" by (simp_all add: mutex_pip_def mutex_prio_def)
  then show "mutex_at 0 demo_mutex (VTcb 1) 2 OS_TASK_STAT_PRIO" using mutex_at_set [of 0 ?ev demo_app]
    by (simp add: mutex_at_def demo_mutex_def)
qed

lemma demo_mutex_pend:
  "(5 :: INT8U) \<noteq> OS_TASK_IDLE_PRIO" "OS_TASK_STAT_PRIO \<in> ready demo_mutex" "waits q demo_mutex = {}"
  "OS_TASK_STAT_PRIO \<noteq> OS_TASK_IDLE_PRIO" "5 < OS_TASK_STAT_PRIO" "\<forall>s \<in> ready demo_mutex. 2 < s"
  by (simp_all add: demo_mutex_facts waits_def)

theorem OSMutexPend_inherits_witness:
  "\<exists>k'. OSMutexPend (Some 0) 0 True demo_mutex = Some (Blocked, k') \<and> OSPrioCur k' = 2 \<and> OSTCBCur k' = Some 1"
  using OSMutexPend_inherits [OF demo_mutex_facts(1-3) demo_mutex_pend(1) demo_mutex_facts(4,5) demo_mutex_pend(2-5)
      demo_mutex_facts(8) demo_mutex_pend(6), of 0]
  by (elim exE conjE) (auto simp: running_def)

lemma demo_inherited:
  "\<exists>k. inherited k OS_TASK_STAT_PRIO 2 1 \<and> running k 2 1 \<and> OSPrioCur k = 2 \<and> 2 \<in> ready k \<and> waits 2 k = {} \<and>
    mutex_at 0 k (VTcb 1) 2 OS_TASK_STAT_PRIO \<and> OSIntNesting k = 0 \<and> OSLockNesting k = 0 \<and> waiters 0 k = {5}"
proof -
  obtain k where k: "inherited k OS_TASK_STAT_PRIO 2 1" "running k 2 1" "OSPrioCur k = 2"
    "ready k = insert 2 (ready demo_mutex - {5, OS_TASK_STAT_PRIO})" "waiters 0 k = insert 5 (waiters 0 demo_mutex)"
    "\<forall>x < OS_MAX_EVENTS. x \<noteq> 0 \<longrightarrow> waiters x k = waiters x demo_mutex" "mutex_at 0 k (VTcb 1) 2 OS_TASK_STAT_PRIO"
    "OSIntNesting k = 0" "OSLockNesting k = 0"
    using OSMutexPend_inherits_step [OF demo_mutex_facts(1-3) demo_mutex_pend(1) demo_mutex_facts(4,5) demo_mutex_pend(2-5)
      demo_mutex_facts(8) demo_mutex_pend(6), of 0] by (elim exE conjE) blast
  have "2 \<notin> waiters x k" if "x < OS_MAX_EVENTS" for x
    using k(5,6) that by (cases "x = 0") (simp_all add: demo_mutex_facts)
  then have "waits 2 k = {}" by (auto simp: waits_def)
  moreover have "waiters 0 k = {5}" by (simp only: k(5) demo_mutex_facts(7))
  ultimately show ?thesis using k by (intro exI [of _ k]) simp
qed

theorem OSMutexPost_restores_witness:
  "\<exists>k err k' u. inherited k OS_TASK_STAT_PRIO 2 1 \<and> waiters 0 k = {5} \<and> OSMutexPost (Some 0) k = Some (err, k') \<and>
    mutex_at 0 k' (VTcb u) 2 5 \<and> highest_runs k' \<and> tcb_prio OS_TASK_STAT_PRIO k' = Some 1"
proof -
  obtain k where k: "inherited k OS_TASK_STAT_PRIO 2 1" "running k 2 1" "OSPrioCur k = 2" "2 \<in> ready k" "waits 2 k = {}"
    "mutex_at 0 k (VTcb 1) 2 OS_TASK_STAT_PRIO" "OSIntNesting k = 0" "OSLockNesting k = 0" "waiters 0 k = {5}"
    using demo_inherited by (elim exE conjE) blast
  have "waiters 0 k \<noteq> {}" "Min (waiters 0 k) = 5" by (simp_all add: k(9))
  then obtain err k' u where "OSMutexPost (Some 0) k = Some (err, k')" "mutex_at 0 k' (VTcb u) 2 5" "highest_runs k'"
    "tcb_prio OS_TASK_STAT_PRIO k' = Some 1"
    using OSMutexPost_restores [OF k(1-8)] by (elim exE conjE) auto
  then show ?thesis using k(1,9) by blast
qed

end
