(* ===== verification/Os_Multi.thy ===== *)
theory Os_Multi
  imports Os_Flag Os_Queue
begin

text \<open>
  The two services that deal with every kind of event: \<open>OSTaskDel\<close> of \<^verbatim>\<open>os_task.c\<close>, which takes a
  task out of all lists, and \<open>OSEventPendMulti\<close> of \<^verbatim>\<open>os_core.c\<close>, which waits for several
  semaphores, mailboxes and queues at once.
\<close>

section \<open>Deletion of a task\<close>

text \<open>Unlinking a control block from the list of tasks, and giving it back.\<close>

definition tcb_unlink :: "nat \<Rightarrow> kernel \<Rightarrow> kernel option" where
  "tcb_unlink t k = do {
     b \<leftarrow> tcb_at t k;
     n \<leftarrow> OSTCBNext b;
     k \<leftarrow> (case OSTCBPrev b of
            None \<Rightarrow> do {
              nb \<leftarrow> tcb_at n k;
              Some (set_tcb n (nb\<lparr>OSTCBPrev := None\<rparr>) k\<lparr>OSTCBList := Some n\<rparr>) }
          | Some p \<Rightarrow> do {
              pb \<leftarrow> tcb_at p k;
              let k = set_tcb p (pb\<lparr>OSTCBNext := Some n\<rparr>) k;
              nb \<leftarrow> tcb_at n k;
              Some (set_tcb n (nb\<lparr>OSTCBPrev := Some p\<rparr>) k) });
     b \<leftarrow> tcb_at t k;
     Some (set_tcb t (b\<lparr>OSTCBNext := OSTCBFreeList k, OSTCBTaskName := name_unset (OSTCBTaskName b)\<rparr>) k
           \<lparr>OSTCBFreeList := Some t\<rparr>) }"

definition OSTaskDel :: "INT8U \<Rightarrow> kernel \<Rightarrow> (INT8U \<times> kernel) option" where
  "OSTaskDel prio k =
     (if OSIntNesting k > 0 then Some (OS_ERR_TASK_DEL_ISR, k)
      else if prio = OS_TASK_IDLE_PRIO then Some (OS_ERR_TASK_DEL_IDLE, k)
      else if prio \<ge> of_nat OS_LOWEST_PRIO \<and> prio \<noteq> OS_PRIO_SELF then Some (OS_ERR_PRIO_INVALID, k)
      else do {
        prio \<leftarrow> self_prio prio k;
        en \<leftarrow> prio_at prio k;
        case en of
          PNull \<Rightarrow> Some (OS_ERR_TASK_NOT_EXIST, k)
        | PReserved \<Rightarrow> Some (OS_ERR_TASK_DEL, k)
        | PTcb t \<Rightarrow> do {
            b \<leftarrow> tcb_at t k;
            k \<leftarrow> unready b k;
            k \<leftarrow> (case OSTCBEventPtr b of None \<Rightarrow> Some k | Some e \<Rightarrow> OS_EventTaskRemove t e k);
            k \<leftarrow> (case OSTCBEventMultiPtr b of None \<Rightarrow> Some k | Some es \<Rightarrow> OS_EventTaskRemoveMulti t es k);
            k \<leftarrow> (case OSTCBFlagNode b of None \<Rightarrow> Some k | Some n \<Rightarrow> OS_FlagUnlink n k);
            b \<leftarrow> tcb_at t k;
            let k = set_tcb t (b\<lparr>OSTCBDly := 0, OSTCBStat := OS_STAT_RDY, OSTCBStatPend := OS_STAT_PEND_OK\<rparr>) k;
            let k = (if OSLockNesting k < 255 then k\<lparr>OSLockNesting := OSLockNesting k + 1\<rparr> else k);
            let k = (if OSLockNesting k > 0 then k\<lparr>OSLockNesting := OSLockNesting k - 1\<rparr> else k);
            let k = set_prio prio PNull (k\<lparr>OSTaskCtr := OSTaskCtr k - 1\<rparr>);
            k \<leftarrow> tcb_unlink t k;
            k \<leftarrow> (if OSRunning k then OS_Sched k else Some k);
            Some (OS_ERR_NONE, k) } })"

section \<open>Waiting for several events\<close>

definition multi_type_ok :: "INT8U \<Rightarrow> bool" where
  "multi_type_ok ty \<longleftrightarrow> ty = OS_EVENT_TYPE_SEM \<or> ty = OS_EVENT_TYPE_MBOX \<or> ty = OS_EVENT_TYPE_Q"

text \<open>The first loop: is every event of a kind that can be waited for?\<close>

fun multi_check :: "nat list \<Rightarrow> kernel \<Rightarrow> bool option" where
  "multi_check [] k = Some True"
| "multi_check (e # es) k = do {
     ev \<leftarrow> ecb_at e k;
     if multi_type_ok (OSEventType ev) then multi_check es k else Some False }"

text \<open>
  The second loop: what is there is taken (the event and its message are appended to the results),
  of the others the kind is noted in \<open>stat\<close>.
\<close>

fun multi_take :: "nat list \<Rightarrow> (nat \<times> vptr) list \<Rightarrow> INT8U \<Rightarrow> kernel \<Rightarrow> ((nat \<times> vptr) list \<times> INT8U \<times> kernel) option" where
  "multi_take [] rdy stat k = Some (rdy, stat, k)"
| "multi_take (e # es) rdy stat k = do {
     ev \<leftarrow> ecb_at e k;
     if OSEventType ev = OS_EVENT_TYPE_SEM then
       if OSEventCnt ev > 0
       then multi_take es (rdy @ [(e, VNull)]) stat (set_ecb e (ev\<lparr>OSEventCnt := OSEventCnt ev - 1\<rparr>) k)
       else multi_take es rdy (stat OR OS_STAT_SEM) k
     else if OSEventType ev = OS_EVENT_TYPE_MBOX then
       if OSEventPtr ev \<noteq> VNull
       then multi_take es (rdy @ [(e, OSEventPtr ev)]) stat (set_ecb e (ev\<lparr>OSEventPtr := VNull\<rparr>) k)
       else multi_take es rdy (stat OR OS_STAT_MBOX) k
     else do {
       (q, pq) \<leftarrow> q_at (OSEventPtr ev) k;
       if OSQEntries pq > 0
       then let (pmsg, pq) = q_take pq (OSMem k) in multi_take es (rdy @ [(e, pmsg)]) stat (set_q q pq k)
       else multi_take es rdy (stat OR OS_STAT_Q) k } }"

text \<open>
  The arrays \<open>pevents_rdy\<close> and \<open>pmsgs_rdy\<close> of the caller are the list of pairs that is returned; its
  length is the result \<open>events_rdy_nbr\<close>.
\<close>

definition OSEventPendMulti ::
  "nat list option \<Rightarrow> bool \<Rightarrow> bool \<Rightarrow> INT16U \<Rightarrow> bool \<Rightarrow> kernel \<Rightarrow>
   (((nat \<times> vptr) list \<times> INT8U option) outcome \<times> kernel) option" where
  "OSEventPendMulti pevents_pend pevents_rdy pmsgs_rdy timeout perr k =
     (if \<not> perr then Some (Returns ([], None), k)
      else case pevents_pend of None \<Rightarrow> Some (Returns ([], Some OS_ERR_PEVENT_NULL), k)
      | Some es \<Rightarrow>
          if \<not> pevents_rdy \<or> \<not> pmsgs_rdy then Some (Returns ([], Some OS_ERR_PEVENT_NULL), k)
          else do {
            ok \<leftarrow> multi_check es k;
            if \<not> ok then Some (Returns ([], Some OS_ERR_EVENT_TYPE), k)
            else if OSIntNesting k > 0 then Some (Returns ([], Some OS_ERR_PEND_ISR), k)
            else if OSLockNesting k > 0 then Some (Returns ([], Some OS_ERR_PEND_LOCKED), k)
            else do {
              (rdy, events_stat, k) \<leftarrow> multi_take es [] OS_STAT_RDY k;
              if rdy \<noteq> [] then Some (Returns (rdy, Some OS_ERR_NONE), k)
              else do {
                (c, b) \<leftarrow> cur_tcb k;
                let k = set_tcb c (b\<lparr>OSTCBStat := OSTCBStat b OR events_stat OR OS_STAT_MULTI,
                                    OSTCBStatPend := OS_STAT_PEND_OK, OSTCBDly := timeout\<rparr>) k;
                k \<leftarrow> OS_EventTaskWaitMulti es k;
                k \<leftarrow> OS_Sched k;
                Some (Blocked, k) } } })"

text \<open>When the task runs again: the event that woke it, its message and the error.\<close>

definition OSEventPendMulti_resume :: "nat list \<Rightarrow> kernel \<Rightarrow> (nat option \<times> vptr \<times> INT8U \<times> kernel) option" where
  "OSEventPendMulti_resume es k = do {
     (c, b) \<leftarrow> cur_tcb k;
     let st = OSTCBStatPend b;
     let timed_out = (st \<noteq> OS_STAT_PEND_OK \<and> st \<noteq> OS_STAT_PEND_ABORT \<or> OSTCBEventPtr b = None);
     k \<leftarrow> (if timed_out
          then OS_EventTaskRemoveMulti c es (if st = OS_STAT_PEND_OK \<or> st = OS_STAT_PEND_ABORT
                 then set_tcb c (b\<lparr>OSTCBStatPend := OS_STAT_PEND_TO\<rparr>) k else k)
          else Some k);
     let pevent = (if timed_out then None else OSTCBEventPtr b);
     (ok, pmsg, err) \<leftarrow>
       (if timed_out then Some (True, VNull, OS_ERR_TIMEOUT)
        else if st = OS_STAT_PEND_OK then do {
          e \<leftarrow> pevent;
          ev \<leftarrow> ecb_at e k;
          if OSEventType ev = OS_EVENT_TYPE_SEM then Some (True, VNull, OS_ERR_NONE)
          else if OSEventType ev = OS_EVENT_TYPE_MBOX \<or> OSEventType ev = OS_EVENT_TYPE_Q
               then Some (True, OSTCBMsg b, OS_ERR_NONE)
          else Some (False, VNull, OS_ERR_EVENT_TYPE) }
        else Some (True, VNull, OS_ERR_PEND_ABORT));
     if \<not> ok then Some (pevent, pmsg, err, k)
     else do {
       k \<leftarrow> pend_clear k;
       (c, b) \<leftarrow> cur_tcb k;
       Some (pevent, pmsg, err, set_tcb c (b\<lparr>OSTCBMsg := VNull\<rparr>) k) } }"

end
