(* ===== verification/Os_System.thy ===== *)
theory Os_System
  imports Os_Time Os_Calls
begin

text \<open>
  The kernel in motion: the tick interrupt (\<^verbatim>\<open>HAL/src/alt_irq_handler.c\<close> calls \<open>OSIntEnter\<close>, the
  timer's handler \<open>alt_tick\<close>, which ends with \<open>OSTimeTick\<close>, and \<open>OSIntExit\<close>), delays, and runs of
  the kernel as sequences of interrupts and calls of the running task.
\<close>

section \<open>The tick interrupt\<close>

definition tick_isr :: "kernel \<Rightarrow> kernel option" where
  "tick_isr k = do { k \<leftarrow> OSTimeTick (OSIntEnter k); OSIntExit k }"

text \<open>Multitasking runs, at the level of a task, and every tick is counted.\<close>

definition ticking :: "kernel \<Rightarrow> bool" where
  "ticking k \<longleftrightarrow> kernel_ok k \<and> lists_ok k \<and> task_level k \<and> OSRunning k \<and> OSTickStepState k = OS_TICK_STEP_DIS"

lemma lists_ok_nest [simp]: "lists_ok (k\<lparr>OSIntNesting := n\<rparr>) = lists_ok k"
proof -
  have "task_lists (k\<lparr>OSIntNesting := n\<rparr>) us i fs = task_lists k us i fs" for us i fs
    by (rule task_lists_cong) (simp_all add: tcb_next_def kernel_frame)
  then show ?thesis by (simp add: lists_ok_def)
qed

lemma tick_isr_step:
  assumes t: "ticking k"
  shows "\<exists>k'. tick_isr k = Some k' \<and> ticking k' \<and> highest_runs k' \<and> OSTime k' = OSTime k + 1 \<and>
    (\<forall>p. tcb_prio p k' = tcb_prio p k) \<and> (\<forall>e < OS_MAX_EVENTS. waiters e k' = waiters e k) \<and>
    OSEventFreeList k' = OSEventFreeList k \<and>
    (\<forall>e. OSEventTbl k' e = (OSEventTbl k e)\<lparr>OSEventWait := OSEventWait (OSEventTbl k' e)\<rparr>) \<and>
    (\<forall>p \<in> live k. p \<noteq> OS_TASK_IDLE_PRIO \<longrightarrow> (\<exists>m. tcb_of p k' = (tick_tcb (tcb_of p k))\<lparr>OSTCBCtxSwCtr := m\<rparr>) \<and>
       (p \<in> ready k' \<longleftrightarrow> p \<in> ready k \<or> tick_wakes (tcb_of p k)))"
proof -
  have T: "kernel_ok k" "lists_ok k" "OSIntNesting k = 0" "OSLockNesting k = 0" "sched_ok k" "OSRunning k"
    "OSTickStepState k = OS_TICK_STEP_DIS"
    using t by (simp_all add: ticking_def task_level_def)
  let ?k = "k\<lparr>OSIntNesting := 1\<rparr>"
  have en: "OSIntEnter k = ?k" using T by (simp add: OSIntEnter_def)
  have ok: "kernel_ok ?k" "lists_ok ?k" using T by (simp_all add: kernel_frame)
  have run: "tick_runs ?k" using T by (simp add: tick_runs_def)
  have same: "tcb_of p ?k = tcb_of p k" "live ?k = live k" "ready ?k = ready k" "tcb_prio p ?k = tcb_prio p k"
    "waiters e ?k = waiters e k" for p e
    by (simp_all add: tcb_of_def live_def kernel_frame)
  obtain k1 where k1: "OSTimeTick ?k = Some k1" "kernel_ok k1" "lists_ok k1" "OSTime k1 = OSTime k + 1"
    "same_kernel (?k\<lparr>OSTime := OSTime ?k + 1, OSTickStepState := OSTickStepState k1\<rparr>) k1"
    "OSTickStepState k1 = OS_TICK_STEP_DIS" "OSTCBCur k1 = OSTCBCur k" "OSPrioCur k1 = OSPrioCur k"
    "\<forall>p. tcb_prio p k1 = tcb_prio p k" "\<forall>e < OS_MAX_EVENTS. waiters e k1 = waiters e k"
    "\<forall>p. p \<noteq> OS_TASK_IDLE_PRIO \<longrightarrow> p \<in> live k \<longrightarrow> tcb_of p k1 = tick_tcb (tcb_of p k) \<and>
        (p \<in> ready k1 \<longleftrightarrow> p \<in> ready k \<or> tick_wakes (tcb_of p k))"
    using OSTimeTick_spec [OF ok] T run by (auto simp: same)
  have n1: "OSIntNesting k1 = 1" "OSLockNesting k1 = 0" "OSRunning k1"
    using same_kernel_kernel(10-12) [OF k1(5)] T by simp_all
  let ?k1 = "k1\<lparr>OSIntNesting := 0\<rparr>"
  have ok1: "kernel_ok ?k1" using k1(2) by (simp add: kernel_frame)
  have so: "sched_ok ?k1" using T(5) k1(7-9) by (simp add: sched_ok_def running_def kernel_frame)
  obtain k2 where k2: "resched ?k1 = Some k2" "switched ?k1 k2" "highest_runs k2"
    using resched_spec [OF ok1] so by blast
  have "tick_isr k = Some k2" using k1(1) k2(1) n1 by (simp add: tick_isr_def en OSIntExit_def Let_def)
  moreover have "ticking k2"
  proof -
    have "lists_ok k2"
    proof -
      have "task_lists k2 us i fs = task_lists ?k1 us i fs" for us i fs
        by (rule task_lists_cong) (simp_all add: switched_view [OF k2(2)] switched_more [OF k2(2)])
      then show ?thesis using k1(3) lists_ok_nest [of 0 k1] by (simp add: lists_ok_def)
    qed
    then show ?thesis using ok1 k2 n1 k1(6) kernel_ok_switched [OF k2(2)]
      by (simp add: ticking_def task_level_def switched_view [OF k2(2)] switched_more [OF k2(2)] highest_runs_def)
  qed
  moreover have "OSEventFreeList k2 = OSEventFreeList k"
    using same_kernel_kernel(6) [OF k1(5)] by (simp add: switched_view [OF k2(2)])
  moreover have "OSEventTbl k2 e = (OSEventTbl k e)\<lparr>OSEventWait := OSEventWait (OSEventTbl k2 e)\<rparr>" for e
  proof -
    have "OSEventTbl k1 e = (OSEventTbl k e)\<lparr>OSEventWait := OSEventWait (OSEventTbl k1 e)\<rparr>"
      using k1(5) by (simp add: same_kernel_def)
    then show ?thesis by (simp add: switched_view [OF k2(2)])
  qed
  moreover have "OSTime k2 = OSTime k + 1" "tcb_prio p k2 = tcb_prio p k" "e < OS_MAX_EVENTS \<Longrightarrow> waiters e k2 = waiters e k"
    "ready k2 = ready k1" for p e
    using k1 by (simp_all add: switched_view [OF k2(2)] kernel_frame)
  moreover have "\<exists>m. tcb_of p k2 = (tcb_of p k1)\<lparr>OSTCBCtxSwCtr := m\<rparr>" for p
    using switched_tcb [OF k2(2)] k1(9) by (simp add: tcb_of_def switched_view [OF k2(2)] kernel_frame)
  moreover have "(\<exists>m. tcb_of p k2 = (tick_tcb (tcb_of p k))\<lparr>OSTCBCtxSwCtr := m\<rparr>) \<and>
      (p \<in> ready k2 \<longleftrightarrow> p \<in> ready k \<or> tick_wakes (tcb_of p k))" if "p \<in> live k" "p \<noteq> OS_TASK_IDLE_PRIO" for p
  proof -
    have "tcb_of p k1 = tick_tcb (tcb_of p k)" "p \<in> ready k1 \<longleftrightarrow> p \<in> ready k \<or> tick_wakes (tcb_of p k)"
      using k1(11) that by blast+
    then show ?thesis using calculation(8,9) by metis
  qed
  ultimately show ?thesis using k2(3) by (intro exI [of _ k2]) simp
qed

section \<open>A delay\<close>

lemma OSTimeDly_step:
  assumes t: "ticking k" and run: "running k p c" and w: "waits p k = {}" and p: "p \<noteq> OS_TASK_IDLE_PRIO" and n: "0 < n"
  shows "\<exists>k'. OSTimeDly n k = Some k' \<and> evolves k k' \<and> ticking k' \<and> highest_runs k' \<and> ready k' = ready k - {p} \<and>
    OSTCBDly (tcb_of p k') = n \<and> suspended (tcb_of p k') = suspended (tcb_of p k) \<and> OSPrioCur k' \<noteq> p \<and>
    (\<forall>x < OS_MAX_EVENTS. waiters x k' = waiters x k)"
proof -
  have T: "kernel_ok k" "lists_ok k" "task_level k" "OSRunning k" "OSTickStepState k = OS_TICK_STEP_DIS"
    using t by (simp_all add: ticking_def)
  have pc: "tcb_prio p k = Some c" "OSTCBCur k = Some c" using run by (simp_all add: running_def)
  note C = cur_tcb_running [OF T(1) run]
  have f: "tcb_fields p (OSTCBTbl k c)" using C(3) by (simp add: task_ok_def)
  obtain k1 where k1: "cur_unready k = Some k1" "touches p c k k1" "OSTCBTbl k1 = OSTCBTbl k" "ready k1 = ready k - {p}"
    "waits p k1 = {}"
    using cur_unready_step [OF run C(2) f C(4) kernel_okD(2) [OF T(1)]] w by auto
  have cur1: "cur_tcb k1 = Some (c, OSTCBTbl k c)"
    using C(2) pc k1(2,3) by (simp add: cur_tcb_def touches_kernel)
  let ?b = "(OSTCBTbl k c)\<lparr>OSTCBDly := n\<rparr>"
  let ?k2 = "set_tcb c ?b k1"
  have t2: "touches p c k ?k2"
    by (rule touches_trans [OF k1(2) touches_set_tcb]) (simp add: k1(3) same_task_def)
  have "task_ok p ?b False {}"
    using C(3) by (simp add: task_ok_def tcb_fields_def event_bound_def linked_events_def split: option.splits)
  then have ok2: "kernel_ok ?k2"
    using p by (intro kernel_ok_touches [OF T(1) t2 pc(1)]) (simp_all add: k1(4,5))
  have sk: "same_kernel k ?k2" using t2 by (rule touches_same_kernel)
  obtain k3 where k3: "OS_Sched ?k2 = Some k3" "switched ?k2 k3" "kernel_ok k3" "highest_runs k3" "task_level k3"
    using OS_Sched_task_level [OF ok2] T(3) t2 by auto
  have ev: "evolves k k3" using sk k3(2) by (auto simp: evolves_def)
  have b3: "\<exists>m. tcb_of p k3 = ?b\<lparr>OSTCBCtxSwCtr := m\<rparr>"
    using switched_tcb [OF k3(2), of c] pc(1) by (simp add: tcb_of_def evolves_view(10) [OF ev])
  have b: "tcb_of p k = OSTCBTbl k c" using pc(1) by (simp add: tcb_of_def)
  have "OSTimeDly n k = Some k3"
    using n k1(1) cur1 k3(1) T(3) by (simp add: OSTimeDly_def task_level_def)
  moreover have "ticking k3" using k3 T by (simp add: ticking_def evolves_view [OF ev])
  moreover have "ready k3 = ready k - {p}" by (simp add: switched_view [OF k3(2)] k1(4))
  moreover have "OSPrioCur k3 \<noteq> p"
    using k3(4) min_ready(1) [OF k3(3)] calculation(3) by (auto simp: highest_runs_def)
  moreover have "OSTCBDly (tcb_of p k3) = n \<and> suspended (tcb_of p k3) = suspended (tcb_of p k)"
    using b3 by (auto simp: b suspended_def)
  moreover have "waiters x k3 = waiters x k" if "x < OS_MAX_EVENTS" for x
  proof -
    have "p \<notin> waiters x k" using w that by (auto simp: waits_def)
    then show ?thesis using waiters_touches [OF t2 that] k1(5) by (simp add: switched_view [OF k3(2)])
  qed
  ultimately show ?thesis using ev k3(4) by blast
qed

section \<open>Ticks\<close>

fun ticks :: "nat \<Rightarrow> kernel \<Rightarrow> kernel option" where
  "ticks 0 k = Some k"
| "ticks (Suc n) k = do { k \<leftarrow> ticks n k; tick_isr k }"

lemma ticks_step:
  assumes t: "ticking k" and p: "p \<in> live k" "p \<noteq> OS_TASK_IDLE_PRIO" "p \<notin> ready k" "\<not> suspended (tcb_of p k)"
    and m: "m \<le> unat (OSTCBDly (tcb_of p k))"
  shows "\<exists>k'. ticks m k = Some k' \<and> ticking k' \<and> (0 < m \<longrightarrow> highest_runs k') \<and> OSTime k' = OSTime k + of_nat m \<and>
    (\<forall>q. tcb_prio q k' = tcb_prio q k) \<and> \<not> suspended (tcb_of p k') \<and>
    unat (OSTCBDly (tcb_of p k')) = unat (OSTCBDly (tcb_of p k)) - m \<and>
    (p \<in> ready k' \<longleftrightarrow> 0 < m \<and> m = unat (OSTCBDly (tcb_of p k)))"
  using m
proof (induction m)
  case 0
  then show ?case using t p by simp
next
  case (Suc m)
  let ?d = "unat (OSTCBDly (tcb_of p k))"
  have lt: "m \<le> ?d" "m < ?d" using Suc.prems by simp_all
  obtain k1 where k1: "ticks m k = Some k1" "ticking k1" "OSTime k1 = OSTime k + of_nat m"
    "\<forall>q. tcb_prio q k1 = tcb_prio q k" "\<not> suspended (tcb_of p k1)" "unat (OSTCBDly (tcb_of p k1)) = ?d - m"
    "p \<in> ready k1 \<longleftrightarrow> 0 < m \<and> m = ?d"
    using Suc.IH [OF lt(1)] by (elim exE conjE)
  have live: "live k1 = live k" using k1(4) by (simp add: live_def)
  obtain k2 mm where k2: "tick_isr k1 = Some k2" "ticking k2" "highest_runs k2" "OSTime k2 = OSTime k1 + 1"
    "\<forall>q. tcb_prio q k2 = tcb_prio q k1" "tcb_of p k2 = (tick_tcb (tcb_of p k1))\<lparr>OSTCBCtxSwCtr := mm\<rparr>"
    "p \<in> ready k2 \<longleftrightarrow> p \<in> ready k1 \<or> tick_wakes (tcb_of p k1)"
    using tick_isr_step [OF k1(2)] p(1,2) live by blast
  have dnz: "OSTCBDly (tcb_of p k1) \<noteq> 0" using k1(6) lt(2) by (auto simp flip: unat_eq_0)
  have d2: "OSTCBDly (tcb_of p k2) = OSTCBDly (tcb_of p k1) - 1" using dnz by (simp add: k2(6) tick_tcb_def Let_def)
  have "unat (OSTCBDly (tcb_of p k2)) = ?d - Suc m" using d2 dnz k1(6) by (simp add: unat_minus_one)
  moreover have "\<not> suspended (tcb_of p k2)"
    using k1(5) by (simp add: k2(6) suspended_def tick_tcb_def Let_def suspended_unpend)
  moreover have "tick_wakes (tcb_of p k1) \<longleftrightarrow> Suc m = ?d"
  proof -
    have "OSTCBDly (tcb_of p k1) = 1 \<longleftrightarrow> unat (OSTCBDly (tcb_of p k1)) = 1" by (simp add: word_unat_eq_iff)
    then show ?thesis using k1(5,6) lt(2) by (auto simp: tick_wakes_def)
  qed
  ultimately show ?case using k1 k2 lt(2) by (intro exI [of _ k2]) auto
qed

text \<open>C5: A task that delays itself for \<open>n\<close> ticks loses the processor; it is not ready after fewer
  than \<open>n\<close> tick interrupts, and after the \<open>n\<close>-th it is, so that it runs if nothing of higher priority
  is ready. Nothing else needs to happen.\<close>

theorem OSTimeDly_wakes:
  assumes "ticking k" "running k p c" "waits p k = {}" "p \<noteq> OS_TASK_IDLE_PRIO" "0 < n" "p \<in> ready k"
  shows "\<exists>k1. OSTimeDly n k = Some k1 \<and> OSPrioCur k1 \<noteq> p \<and>
    (\<forall>m < unat n. \<exists>k2. ticks m k1 = Some k2 \<and> p \<notin> ready k2) \<and>
    (\<exists>k2. ticks (unat n) k1 = Some k2 \<and> p \<in> ready k2 \<and> OSPrioCur k2 = Min (ready k2) \<and> OSTime k2 = OSTime k + of_nat (unat n))"
proof -
  obtain k1 where k1: "OSTimeDly n k = Some k1" "evolves k k1" "ticking k1" "ready k1 = ready k - {p}"
    "OSTCBDly (tcb_of p k1) = n" "suspended (tcb_of p k1) = suspended (tcb_of p k)" "OSPrioCur k1 \<noteq> p"
    using OSTimeDly_step [OF assms(1-5)] by (elim exE conjE)
  have tp: "tcb_prio p k = Some c" using assms(2) by (simp add: running_def)
  have "kernel_ok k" using assms(1) by (simp add: ticking_def)
  from kernel_okD(7) [OF this tp] assms(6) have "\<not> suspended (tcb_of p k)" by (simp add: tcb_of_def tp task_ok_def)
  then have s: "\<not> suspended (tcb_of p k1)" using k1(6) by simp
  have l: "p \<in> live k1" using tp by (simp add: evolves_view [OF k1(2)] live_def)
  have r: "p \<notin> ready k1" using k1(4) by simp
  note step = ticks_step [OF k1(3) l assms(4) r s, unfolded k1(5)]
  have "\<exists>k2. ticks m k1 = Some k2 \<and> p \<notin> ready k2" if "m < unat n" for m
    using step [of m] that by auto
  moreover have "\<exists>k2. ticks (unat n) k1 = Some k2 \<and> p \<in> ready k2 \<and> OSPrioCur k2 = Min (ready k2) \<and>
      OSTime k2 = OSTime k + of_nat (unat n)"
  proof -
    have "0 < unat n" using assms(5) by (simp add: word_gt_0 unat_gt_0)
    then show ?thesis using step [of "unat n"] evolves_view(9) [OF k1(2)] by (auto simp: highest_runs_def)
  qed
  ultimately show ?thesis using k1(1,7) by blast
qed

section \<open>The booted kernel ticks\<close>

lemma step_state_sched: "OS_Sched k = Some k' \<Longrightarrow> OSTickStepState k' = OSTickStepState k"
  by (auto simp: OS_Sched_def resched_def OS_SchedNew_def OSCtxSw_def set_tcb_def Let_def split: if_splits bind_splits prod.splits)

lemma step_state_init: "OS_TCBInit prio psp pbos id_num stk_size pext opt k = Some (err, k') \<Longrightarrow> OSTickStepState k' = OSTickStepState k"
  by (auto simp: OS_TCBInit_def set_tcb_def Let_def split: option.splits if_splits bind_splits)

lemma step_state_create:
  assumes "OSTaskCreateExt port task p_arg ptos prio id_num pbos stk_size pext opt k = Some (err, k')"
  shows "OSTickStepState k' = OSTickStepState k"
proof -
  have e: "OSTickStepState k' = OSTickStepState k0"
    if "create_end prio (OS_TCBInit prio psp pbos id_num stk_size pext opt k0) = Some (err, k')" for psp k0
    using that step_state_init step_state_sched
    by (fastforce simp: create_end_def set_prio_def split: bind_splits if_splits)
  show ?thesis
    using assms
    by (auto simp: OSTaskCreateExt_def Let_def OSTaskStkInit_def OS_TaskStkClr_def set_prio_def split: if_splits bind_splits dest!: e)
qed

lemma step_state_name: "OSTaskNameSet prio pname perr k = Some (err, k') \<Longrightarrow> OSTickStepState k' = OSTickStepState k"
  by (auto simp: OSTaskNameSet_def Let_def set_tcb_def split: if_splits bind_splits option.splits prio_entry.splits)

lemma step_state_boot: "OSTickStepState boot_kernel = 0"
proof -
  obtain k1 where k1: "OSInit port0 sys0 bss_kernel = Some k1" "fresh_kernel k1" using OSInit_spec by blast
  then have f: "kernel_ok k1" "task_lists k1 [1] 0 [2..<OS_N_TCBS]" "\<not> OSRunning k1" by (simp_all add: fresh_kernel_def)
  obtain k2 where k2: "OSStart k1 = Some k2" using OSStart_spec [OF f] by blast
  have b: "boot_kernel = k2" by (simp add: boot_kernel_def k1(1) k2)
  obtain F where F: "OS_FlagInit (OS_InitEventList (OS_InitTCBList (OS_InitRdyList (OS_InitMisc bss_kernel)))) =
      OS_InitEventList (OS_InitTCBList (OS_InitRdyList (OS_InitMisc bss_kernel)))\<lparr>OSFlagTbl := F, OSFlagFreeList := Some 0\<rparr>"
    using OS_FlagInit_frame by blast
  have "OSTickStepState (init_tables bss_kernel) = 0"
    unfolding init_tables_def F
    by (simp add: OS_QInit_eq OS_MemInit_eq OS_InitEventList_eq OS_InitTCBList_eq OS_InitRdyList_def
        OS_InitMisc_def) (simp add: bss_kernel_def)
  then have "OSTickStepState k1 = 0"
    using k1(1) step_state_create step_state_name
    by (fastforce simp: OSInit_def init_tables_def OS_InitTaskIdle_def OS_InitTaskStat_def Let_def split: bind_splits)
  moreover have "OSTickStepState k2 = OSTickStepState k1"
    using k2 by (auto simp: OSStart_def OSStartHighRdy_def OSCtxSw_def OS_SchedNew_def split: bind_splits if_splits)
  ultimately show ?thesis by (simp add: b)
qed

lemma boot_ticking: "ticking boot_kernel" "waits OS_TASK_STAT_PRIO boot_kernel = {}" "running boot_kernel OS_TASK_STAT_PRIO 1"
  using boot_facts(1,3,7,10) step_state_boot boot_facts(16) by (simp_all add: ticking_def at_call_def)

theorem OSTimeDly_wakes_witness:
  "\<exists>k1 k2. OSTimeDly 3 boot_kernel = Some k1 \<and> ticks 3 k1 = Some k2 \<and> OS_TASK_STAT_PRIO \<in> ready k2 \<and>
     (\<exists>k3. ticks 2 k1 = Some k3 \<and> OS_TASK_STAT_PRIO \<notin> ready k3)"
proof -
  have p: "OS_TASK_STAT_PRIO \<noteq> OS_TASK_IDLE_PRIO" "(0 :: INT16U) < 3" "OS_TASK_STAT_PRIO \<in> ready boot_kernel"
    by (simp_all add: boot_facts(4))
  obtain k1 k2 where k: "OSTimeDly 3 boot_kernel = Some k1"
    "\<forall>m < unat (3 :: INT16U). \<exists>k2. ticks m k1 = Some k2 \<and> OS_TASK_STAT_PRIO \<notin> ready k2"
    "ticks (unat (3 :: INT16U)) k1 = Some k2" "OS_TASK_STAT_PRIO \<in> ready k2"
    using OSTimeDly_wakes [OF boot_ticking(1,3,2) p] by (elim exE conjE)
  moreover have "ticks 3 k1 = Some k2" using k(3) by simp
  moreover have "\<exists>k3. ticks 2 k1 = Some k3 \<and> OS_TASK_STAT_PRIO \<notin> ready k3" using k(2) by simp
  ultimately show ?thesis by blast
qed

section \<open>Runs of the kernel\<close>

text \<open>
  A step is a tick interrupt or a call of the running task: a semaphore is created, posted or
  waited for; a wait that was begun is completed; the task delays itself. The task that waits
  must not be the idle task, and calls a service only when it is not in the middle of a wait.
\<close>

inductive kstep :: "kernel \<Rightarrow> kernel \<Rightarrow> bool" where
  tick: "tick_isr k = Some k' \<Longrightarrow> kstep k k'"
| sem_create: "OSSemCreate cnt k = Some (pevent, k') \<Longrightarrow> kstep k k'"
| sem_post: "OSSemPost pevent k = Some (err, k') \<Longrightarrow> kstep k k'"
| sem_pend: "at_call k p c \<Longrightarrow> p \<noteq> OS_TASK_IDLE_PRIO \<Longrightarrow> OSSemPend pevent timeout perr k = Some (r, k') \<Longrightarrow> kstep k k'"
| sem_resume: "running k p c \<Longrightarrow> OSTCBEventPtr (OSTCBTbl k c) = Some e \<Longrightarrow> OSTCBEventMultiPtr (OSTCBTbl k c) = None \<Longrightarrow>
    OSSemPend_resume e k = Some (err, k') \<Longrightarrow> kstep k k'"
| delay: "at_call k p c \<Longrightarrow> p \<noteq> OS_TASK_IDLE_PRIO \<Longrightarrow> OSTimeDly n k = Some k' \<Longrightarrow> kstep k k'"

inductive reachable :: "kernel \<Rightarrow> bool" where
  boot: "reachable boot_kernel"
| step: "reachable k \<Longrightarrow> kstep k k' \<Longrightarrow> reachable k'"

definition sys_ok :: "kernel \<Rightarrow> bool" where
  "sys_ok k \<longleftrightarrow> ticking k \<and> highest_runs k \<and> (\<exists>es. events_ok k es) \<and>
     (\<forall>e < OS_MAX_EVENTS. OSEventType (OSEventTbl k e) = OS_EVENT_TYPE_SEM \<longrightarrow> sem_at e k)"

lemma sys_okD:
  assumes "sys_ok k"
  shows "kernel_ok k" "lists_ok k" "task_level k" "OSRunning k" "OSTickStepState k = OS_TICK_STEP_DIS" "highest_runs k"
    "\<exists>es. events_ok k es" "e < OS_MAX_EVENTS \<Longrightarrow> OSEventType (OSEventTbl k e) = OS_EVENT_TYPE_SEM \<Longrightarrow> sem_at e k"
  using assms by (simp_all add: sys_ok_def ticking_def)

lemma events_ok_evolves:
  assumes ev: "evolves k k'" and w: "\<forall>x\<in>set es. waiters x k' \<subseteq> waiters x k" and ok: "events_ok k es"
  shows "events_ok k' es"
proof -
  have "ev_next k' = ev_next k" by (rule ext) (simp add: ev_next_def evolves_view [OF ev])
  moreover have "event_free_ok k' x" if "x \<in> set es" "event_free_ok k x" for x
    using that w by (auto simp: event_free_ok_def evolves_view [OF ev])
  ultimately show ?thesis using ok by (auto simp: events_ok_def evolves_view [OF ev])
qed

text \<open>Every service that ends with the scheduler keeps the state well formed when it adds no waiter to
  a free event and none to a semaphore with tokens.\<close>

lemma sys_ok_evolves:
  assumes ok: "sys_ok k" and ev: "evolves k k'" and k': "kernel_ok k'" "task_level k'" "highest_runs k'"
    and w: "\<And>x. x < OS_MAX_EVENTS \<Longrightarrow> waiters x k' \<subseteq> waiters x k \<or>
      OSEventType (OSEventTbl k x) = OS_EVENT_TYPE_SEM \<and> OSEventCnt (OSEventTbl k x) = 0"
  shows "sys_ok k'"
proof -
  note K = sys_okD [OF ok]
  obtain es where es: "events_ok k es" using K(7) by blast
  have "waiters x k' \<subseteq> waiters x k" if "x \<in> set es" for x
    using es that w [of x] by (auto simp: events_ok_def event_free_ok_def)
  then have "events_ok k' es" using events_ok_evolves [OF ev _ es] by blast
  moreover have "sem_at e k'" if "e < OS_MAX_EVENTS" "OSEventType (OSEventTbl k' e) = OS_EVENT_TYPE_SEM" for e
    using K(8) [of e] that w [of e] by (auto simp: sem_at_def evolves_view [OF ev])
  ultimately show ?thesis
    using k' K by (auto simp: sys_ok_def ticking_def evolves_view [OF ev])
qed

text \<open>An event other than a free one changes, without its wait list.\<close>

lemma sys_ok_tasks_same:
  assumes ok: "sys_ok k" and s: "tasks_same k k'" "kernel_ok k'" "events_ok k' es" "OSTickStepState k' = OSTickStepState k"
    and sem: "\<And>e. e < OS_MAX_EVENTS \<Longrightarrow> OSEventType (OSEventTbl k' e) = OS_EVENT_TYPE_SEM \<Longrightarrow> sem_at e k'"
  shows "sys_ok k'"
  using sys_okD [OF ok] s sem by (auto simp: sys_ok_def ticking_def tasks_same_view [OF s(1)] lists_ok_def)

lemma tasks_same_step: "tasks_same k k' \<Longrightarrow> OSTickStepState k' = OSTickStepState k"
proof -
  assume "tasks_same k k'"
  then have "k' = k\<lparr>OSEventTbl := OSEventTbl k', OSEventFreeList := OSEventFreeList k', OSQTbl := OSQTbl k',
     OSQFreeList := OSQFreeList k', OSMem := OSMem k'\<rparr>" by (simp add: tasks_same_def)
  then obtain E F Q R M where "k' = k\<lparr>OSEventTbl := E, OSEventFreeList := F, OSQTbl := Q, OSQFreeList := R, OSMem := M\<rparr>" by blast
  then show ?thesis by simp
qed

lemma sys_ok_count:
  assumes ok: "sys_ok k" and e: "e < OS_MAX_EVENTS" "OSEventType (OSEventTbl k e) = OS_EVENT_TYPE_SEM"
    and c: "c > 0 \<longrightarrow> waiters e k = {}"
  shows "sys_ok (set_ecb e ((OSEventTbl k e)\<lparr>OSEventCnt := c\<rparr>) k)" (is "sys_ok ?k")
proof -
  note K = sys_okD [OF ok]
  obtain es where es: "events_ok k es" using K(7) by blast
  have s: "tasks_same k ?k" by (rule tasks_same_set_ecb) simp
  have "e \<notin> set es" using es e(2) by (auto simp: events_ok_def event_free_ok_def)
  then have "events_ok ?k es" using es by (subst events_ok_cong [of ?k k]) (auto simp: set_ecb_def)
  moreover have "kernel_ok ?k" using K(1) by (simp add: kernel_ok_set_ecb)
  moreover have "sem_at x ?k" if "x < OS_MAX_EVENTS" "OSEventType (OSEventTbl ?k x) = OS_EVENT_TYPE_SEM" for x
  proof -
    have w: "waiters x ?k = waiters x k" by (simp add: view_set_ecb)
    show ?thesis
    proof (cases "x = e")
      case True
      then show ?thesis using e c unfolding sem_at_def w by (simp add: set_ecb_def)
    next
      case False
      then show ?thesis using that K(8) [of x] unfolding sem_at_def w by (simp add: set_ecb_def)
    qed
  qed
  ultimately show ?thesis using sys_ok_tasks_same [OF ok s] tasks_same_step [OF s] by blast
qed

lemma sys_ok_tick: "sys_ok k \<Longrightarrow> \<exists>k'. tick_isr k = Some k' \<and> sys_ok k'"
proof -
  assume ok: "sys_ok k"
  note K = sys_okD [OF ok]
  obtain es where es: "events_ok k es" using K(7) by blast
  have t: "ticking k" using ok by (simp add: sys_ok_def)
  obtain k' where k': "tick_isr k = Some k'" "ticking k'" "highest_runs k'" "\<forall>e < OS_MAX_EVENTS. waiters e k' = waiters e k"
    "OSEventFreeList k' = OSEventFreeList k" "\<forall>e. OSEventTbl k' e = (OSEventTbl k e)\<lparr>OSEventWait := OSEventWait (OSEventTbl k' e)\<rparr>"
    using tick_isr_step [OF t] by (elim exE conjE)
  have ev: "OSEventType (OSEventTbl k' e) = OSEventType (OSEventTbl k e)"
    "OSEventPtr (OSEventTbl k' e) = OSEventPtr (OSEventTbl k e)" "OSEventCnt (OSEventTbl k' e) = OSEventCnt (OSEventTbl k e)" for e
  proof -
    obtain w where "OSEventTbl k' e = (OSEventTbl k e)\<lparr>OSEventWait := w\<rparr>" using k'(6) by blast
    then show "OSEventType (OSEventTbl k' e) = OSEventType (OSEventTbl k e)"
      "OSEventPtr (OSEventTbl k' e) = OSEventPtr (OSEventTbl k e)" "OSEventCnt (OSEventTbl k' e) = OSEventCnt (OSEventTbl k e)"
      by simp_all
  qed
  have "ev_next k' = ev_next k" by (rule ext) (simp add: ev_next_def ev)
  moreover have "event_free_ok k' x" if "event_free_ok k x" for x
    using that k'(4) by (auto simp: event_free_ok_def ev)
  ultimately have "events_ok k' es" using es by (auto simp: events_ok_def k'(5))
  moreover have "sem_at e k'" if "e < OS_MAX_EVENTS" "OSEventType (OSEventTbl k' e) = OS_EVENT_TYPE_SEM" for e
    using K(8) [of e] that k'(4) by (auto simp: sem_at_def ev)
  ultimately show ?thesis using k' by (auto simp: sys_ok_def)
qed

lemma sys_ok_create:
  assumes ok: "sys_ok k" and r: "OSSemCreate cnt k = Some (pevent, k')"
  shows "sys_ok k'"
proof -
  note K = sys_okD [OF ok]
  have int: "OSIntNesting k = 0" using K(3) by (rule task_levelD)
  obtain es where es: "events_ok k es" using K(7) by blast
  show ?thesis
  proof (cases es)
    case Nil
    then have "OSEventFreeList k = None" using es by (simp add: events_ok_def)
    then show ?thesis using r int ok by (simp add: OSSemCreate_def event_alloc_def)
  next
    case (Cons e es')
    from OSSemCreate_step [OF K(1) es [unfolded Cons] int, of cnt] obtain k2 where
      k2: "OSSemCreate cnt k = Some (Some e, k2)" "kernel_ok k2" "tasks_same k k2" "events_ok k2 es'" "sem_at e k2"
      "\<forall>x. x \<noteq> e \<longrightarrow> OSEventTbl k2 x = OSEventTbl k x" by (elim exE conjE)
    have "sem_at x k2" if "x < OS_MAX_EVENTS" "OSEventType (OSEventTbl k2 x) = OS_EVENT_TYPE_SEM" for x
      using k2(5,6) K(8) [of x] that by (cases "x = e") (auto simp: sem_at_def tasks_same_view [OF k2(3)])
    then have "sys_ok k2" using sys_ok_tasks_same [OF ok k2(3,2,4) tasks_same_step [OF k2(3)]] by blast
    then show ?thesis using r k2(1) by simp
  qed
qed

lemma sys_ok_post:
  assumes ok: "sys_ok k" and r: "OSSemPost pevent k = Some (err, k')"
  shows "sys_ok k'"
proof (cases "\<exists>e. pevent = Some e \<and> e < OS_MAX_EVENTS \<and> OSEventType (OSEventTbl k e) = OS_EVENT_TYPE_SEM")
  case False
  then show ?thesis using r ok by (auto simp: OSSemPost_def ecb_at_def split: option.splits if_splits)
next
  case True
  note K = sys_okD [OF ok]
  from True obtain e where e: "pevent = Some e" "e < OS_MAX_EVENTS" "OSEventType (OSEventTbl k e) = OS_EVENT_TYPE_SEM" by blast
  note grp = grp_zero_iff [OF K(1) e(2)]
  show ?thesis
  proof (cases "waiters e k = {}")
    case False
    have m: "OS_STAT_SEM AND OS_STAT_SUSPEND = 0" by simp
    obtain k1 k2 where k2: "OS_EventTaskRdy e VNull OS_STAT_SEM OS_STAT_PEND_OK k = Some (Min (waiters e k), k1)" "OS_Sched k1 = Some k2"
      "evolves k k2" "kernel_ok k2" "task_level k2" "highest_runs k2" "\<forall>x < OS_MAX_EVENTS. waiters x k2 \<subseteq> waiters x k"
      using wake_sched [OF K(1,3) e(2) False m, of VNull OS_STAT_PEND_OK] by (elim exE conjE)
    have "k' = k2" using r e False grp k2(1,2) by (simp add: OSSemPost_def)
    moreover have "sys_ok k2" by (rule sys_ok_evolves [OF ok k2(3-6)]) (use k2(7) in blast)
    ultimately show ?thesis by simp
  next
    case True
    then have "sys_ok (set_ecb e ((OSEventTbl k e)\<lparr>OSEventCnt := OSEventCnt (OSEventTbl k e) + 1\<rparr>) k)"
      using sys_ok_count [OF ok e(2,3)] by simp
    then show ?thesis using r e True grp ok by (auto simp: OSSemPost_def split: if_splits)
  qed
qed

lemma sys_ok_pend:
  assumes ok: "sys_ok k" and call: "at_call k p c" "p \<noteq> OS_TASK_IDLE_PRIO" and r: "OSSemPend pevent timeout perr k = Some (r, k')"
  shows "sys_ok k'"
proof (cases "perr \<and> (\<exists>e. pevent = Some e \<and> e < OS_MAX_EVENTS \<and> OSEventType (OSEventTbl k e) = OS_EVENT_TYPE_SEM)")
  case False
  then show ?thesis using r ok by (auto simp: OSSemPend_def ecb_at_def split: option.splits if_splits)
next
  case True
  note K = sys_okD [OF ok]
  from True obtain e where e: "pevent = Some e" "e < OS_MAX_EVENTS" "OSEventType (OSEventTbl k e) = OS_EVENT_TYPE_SEM" "perr" by blast
  note L = task_levelD [OF K(3)]
  show ?thesis
  proof (cases "OSEventCnt (OSEventTbl k e) > 0")
    case pos: True
    have "waiters e k = {}" using K(8) [OF e(2,3)] pos by (simp add: sem_at_def)
    then have "sys_ok (set_ecb e ((OSEventTbl k e)\<lparr>OSEventCnt := OSEventCnt (OSEventTbl k e) - 1\<rparr>) k)"
      using sys_ok_count [OF ok e(2,3)] by simp
    then show ?thesis using r e L pos by (simp add: OSSemPend_def)
  next
    case zero: False
    have m: "OS_STAT_SEM AND OS_STAT_PEND_ANY \<noteq> 0" by simp
    obtain k1 k2 where k2: "pend_block OS_STAT_SEM timeout e k = Some k1" "OS_Sched k1 = Some k2"
      "evolves k k2" "kernel_ok k2" "task_level k2" "highest_runs k2"
      "\<forall>x < OS_MAX_EVENTS. x \<noteq> e \<longrightarrow> waiters x k2 = waiters x k"
      using block_sched [OF K(1,3) call e(2) m, of timeout] by (elim exE conjE)
    have c0: "OSEventCnt (OSEventTbl k e) = 0" using zero by (simp add: word_gt_0)
    have "k' = k2" using r e L c0 k2(1,2) by (simp add: OSSemPend_def)
    moreover have "sys_ok k2"
      by (rule sys_ok_evolves [OF ok k2(3-6)]) (use k2(7) e(3) c0 in blast)
    ultimately show ?thesis by simp
  qed
qed

lemma sys_ok_resume:
  assumes ok: "sys_ok k" and run: "running k p c"
    and link: "OSTCBEventPtr (OSTCBTbl k c) = Some e" "OSTCBEventMultiPtr (OSTCBTbl k c) = None"
    and r: "OSSemPend_resume e k = Some (err, k')"
  shows "sys_ok k'"
proof -
  note K = sys_okD [OF ok]
  obtain c' where c': "running k (OSPrioCur k) c'" using K(6) by (auto simp: highest_runs_def sched_ok_def)
  then have t: "tcb_prio (OSPrioCur k) k = Some c" "tcb_prio p k = Some c" using run by (simp_all add: running_def)
  have "OSPrioCur k = p" using kernel_okD(7) [OF K(1) t(1)] kernel_okD(7) [OF K(1) t(2)] by (simp add: task_ok_def tcb_fields_def)
  then have p: "p \<in> ready k" using K(6) min_ready(1) [OF K(1)] by (simp add: highest_runs_def)
  have e: "e < OS_MAX_EVENTS"
    using cur_tcb_running(3) [OF K(1) run] link by (simp add: task_ok_def event_bound_def)
  obtain k2 where k2: "OSSemPend_resume e k =
      Some (if OSTCBStatPend (OSTCBTbl k c) = OS_STAT_PEND_OK then OS_ERR_NONE
            else if OSTCBStatPend (OSTCBTbl k c) = OS_STAT_PEND_ABORT then OS_ERR_PEND_ABORT else OS_ERR_TIMEOUT, k2)"
    "kernel_ok k2" "at_call k2 p c" "ready k2 = ready k" "touches p c k k2"
    using OSSemPend_resume_step [OF K(1) run p e link] by (elim exE conjE)
  have ev: "evolves k k2" using touches_same_kernel [OF k2(5)] by (auto simp: evolves_def)
  have w: "waiters x k2 \<subseteq> waiters x k" if "x < OS_MAX_EVENTS" for x
    using waiters_touches [OF k2(5) that] k2(3) by (auto simp: at_call_def)
  have "task_level k2" "highest_runs k2"
    using K(3,6) k2(4) by (simp_all add: highest_runs_def touches_kernel [OF k2(5)] sched_ok_touches [OF k2(5)] task_level_touches [OF k2(5)])
  then have "sys_ok k2" using w by (intro sys_ok_evolves [OF ok ev k2(2)]) auto
  then show ?thesis using r k2(1) by simp
qed

lemma sys_ok_delay:
  assumes ok: "sys_ok k" and call: "at_call k p c" "p \<noteq> OS_TASK_IDLE_PRIO" and r: "OSTimeDly n k = Some k'"
  shows "sys_ok k'"
proof (cases "n = 0")
  case True
  then show ?thesis using r ok task_levelD(1) [OF sys_okD(3) [OF ok]] by (simp add: OSTimeDly_def)
next
  case False
  have t: "ticking k" "running k p c" "waits p k = {}" "0 < n" using ok call False by (simp_all add: sys_ok_def at_call_def word_gt_0)
  obtain k2 where k2: "OSTimeDly n k = Some k2" "evolves k k2" "ticking k2" "highest_runs k2"
      "\<forall>x < OS_MAX_EVENTS. waiters x k2 = waiters x k"
    using OSTimeDly_step [OF t(1-3) call(2) t(4)] by (elim exE conjE)
  have "sys_ok k2"
    by (rule sys_ok_evolves [OF ok k2(2)]) (use k2 in \<open>auto simp: ticking_def\<close>)
  then show ?thesis using r k2(1) by simp
qed

lemma sys_ok_boot: "sys_ok boot_kernel"
  using boot_ticking(1) boot_facts(6,8,9,19) by (auto simp: sys_ok_def sem_at_def)

lemma reachable_sys_ok: "reachable k \<Longrightarrow> sys_ok k"
proof (induction rule: reachable.induct)
  case boot
  show ?case by (rule sys_ok_boot)
next
  case (step k k')
  from step(2) step(3) show ?case
    by cases (auto dest: sys_ok_tick intro: sys_ok_create sys_ok_post sys_ok_pend sys_ok_resume sys_ok_delay)
qed

text \<open>C2: In every state the kernel reaches from boot by tick interrupts and calls of the running
  task (semaphores, delays), its tables are consistent, the ready task of highest priority runs, no
  task waits for a semaphore that has tokens, and the next tick interrupt does not fault.\<close>

theorem reachable_safe:
  assumes "reachable k"
  shows "kernel_ok k \<and> lists_ok k \<and> highest_runs k \<and> tick_isr k \<noteq> None \<and>
    (\<forall>e < OS_MAX_EVENTS. OSEventType (OSEventTbl k e) = OS_EVENT_TYPE_SEM \<and> waiters e k \<noteq> {} \<longrightarrow>
       OSEventCnt (OSEventTbl k e) = 0)"
  using sys_okD [OF reachable_sys_ok [OF assms]] sys_ok_tick [OF reachable_sys_ok [OF assms]]
  by (auto simp: sem_at_def word_gt_0)

theorem reachable_safe_witness:
  "\<exists>k. OSSemPost (Some 0) demo_wait = Some (OS_ERR_NONE, k) \<and> reachable k \<and> kernel_ok k \<and> highest_runs k"
proof -
  have p: "OS_TASK_STAT_PRIO \<noteq> OS_TASK_IDLE_PRIO" by simp
  have "reachable demo_sem" using reachable.step [OF reachable.boot kstep.sem_create [OF demo_sem_facts(1)]] .
  moreover have "OSSemPend (Some 0) 100 True demo_sem = Some (Blocked, demo_wait)"
    using OSSemPend_blocks_step [OF demo_sem_facts(2-5,7) p, of 100] by (auto simp: demo_wait_def)
  ultimately have w: "reachable demo_wait" using reachable.step [OF _ kstep.sem_pend [OF demo_sem_facts(7) p]] by blast
  have ne: "waiters 0 demo_wait \<noteq> {}" using demo_wait_facts(5) by simp
  obtain k where k: "OSSemPost (Some 0) demo_wait = Some (OS_ERR_NONE, k)"
    using OSSemPost_wakes_step [OF demo_wait_facts(1-3) ne] by (elim exE conjE)
  then have "reachable k" using reachable.step [OF w kstep.sem_post] by blast
  then show ?thesis using k reachable_safe by blast
qed

end
