(* ===== verification/Error_Handler.thy ===== *)
theory Error_Handler
  imports Os_Multi
begin

text \<open>
  The error handlers of the application, \<^verbatim>\<open>server1/alt_error_handler.c\<close>. What they print is not
  modelled. A handler ends in one of three ways: it returns to its caller, it has deleted the
  calling task, or it spins for ever with the scheduler locked.
\<close>

section \<open>The handlers\<close>

abbreviation EXPANDED_DIAGNOSIS_CODE :: INT8U where "EXPANDED_DIAGNOSIS_CODE \<equiv> 255"

datatype FAULT_LEVEL = NONE | TASK | SYSTEM

datatype handled = Continues | Deleted | Spins

text \<open>The first switch of \<open>alt_uCOSIIErrorHandler\<close>.\<close>

definition ucosii_level :: "INT8U \<Rightarrow> FAULT_LEVEL" where
  "ucosii_level error_code =
     (if error_code = OS_ERR_PRIO_EXIST then SYSTEM
      else if error_code = OS_ERR_PRIO_INVALID then SYSTEM
      else if error_code = OS_ERR_TASK_NO_MORE_TCB then SYSTEM
      else if error_code = OS_ERR_MBOX_FULL then NONE
      else if error_code = OS_ERR_EVENT_TYPE then TASK
      else if error_code = OS_ERR_PEVENT_NULL then SYSTEM
      else if error_code = OS_ERR_POST_NULL_PTR then TASK
      else if error_code = OS_ERR_TIMEOUT then NONE
      else if error_code = OS_ERR_PEND_ISR then SYSTEM
      else if error_code = OS_ERR_TASK_DEL_IDLE then SYSTEM
      else if error_code = OS_ERR_TASK_DEL then NONE
      else if error_code = OS_ERR_TASK_DEL_ISR then SYSTEM
      else if error_code = OS_ERR_Q_FULL then NONE
      else if error_code = 100 then TASK
      else SYSTEM)"

text \<open>
  The second switch. When the task cannot be deleted the handler of \<open>MicroC/OS-II\<close> errors calls
  itself again.
\<close>

partial_function (option) alt_uCOSIIErrorHandler :: "INT8U \<Rightarrow> kernel \<Rightarrow> (handled \<times> kernel) option" where
  "alt_uCOSIIErrorHandler error_code k =
     (if error_code = OS_ERR_NONE then Some (Continues, k)
      else let k = OSSchedLock k
           in case ucosii_level error_code of
                TASK \<Rightarrow> do {
                  k \<leftarrow> OSSchedUnlock k;
                  (err, k) \<leftarrow> OSTaskDel OS_PRIO_SELF k;
                  if err = OS_ERR_NONE then Some (Deleted, k) else alt_uCOSIIErrorHandler error_code k }
              | SYSTEM \<Rightarrow> Some (Spins, k)
              | NONE \<Rightarrow> do { k \<leftarrow> OSSchedUnlock k; Some (Continues, k) })"

text \<open>
  After a failed deletion \<open>alt_NetworkErrorHandler\<close> runs \<open>alt_uCOSIIErrorHandler\<close> and, when that
  returns, the endless loop at its end.
\<close>

definition alt_NetworkErrorHandler :: "INT8U \<Rightarrow> kernel \<Rightarrow> (handled \<times> kernel) option" where
  "alt_NetworkErrorHandler error_code k =
     (if error_code = OS_ERR_NONE then Some (Continues, k)
      else let k = OSSchedLock k
           in if error_code = EXPANDED_DIAGNOSIS_CODE then Some (Spins, k)
              else do {
                k \<leftarrow> OSSchedUnlock k;
                (err, k) \<leftarrow> OSTaskDel OS_PRIO_SELF k;
                if err = OS_ERR_NONE then Some (Deleted, k)
                else do {
                  (r, k) \<leftarrow> alt_uCOSIIErrorHandler error_code k;
                  Some (if r = Continues then Spins else r, k) } })"

definition alt_SSSErrorHandler :: "INT8U \<Rightarrow> kernel \<Rightarrow> (handled \<times> kernel) option" where
  "alt_SSSErrorHandler error_code k =
     (if error_code = OS_ERR_NONE then Some (Continues, k)
      else let k = OSSchedLock k
           in if error_code = EXPANDED_DIAGNOSIS_CODE then Some (Spins, k)
              else if error_code = OS_ERR_Q_FULL then do { k \<leftarrow> OSSchedUnlock k; Some (Continues, k) }
              else Some (Spins, k))"

section \<open>When a handler returns\<close>

lemma handler_levels:
  "ucosii_level e = SYSTEM \<Longrightarrow> e \<noteq> OS_ERR_NONE \<Longrightarrow> alt_uCOSIIErrorHandler e k = Some (Spins, OSSchedLock k)"
  "ucosii_level e = NONE \<Longrightarrow> e \<noteq> OS_ERR_NONE \<Longrightarrow>
     alt_uCOSIIErrorHandler e k = map_option (\<lambda>k. (Continues, k)) (OSSchedUnlock (OSSchedLock k))"
  "alt_uCOSIIErrorHandler OS_ERR_NONE k = Some (Continues, k)"
  by (subst alt_uCOSIIErrorHandler.simps; cases "OSSchedUnlock (OSSchedLock k)"; simp)+

text \<open>C33: A task goes on after \<open>alt_uCOSIIErrorHandler\<close> only when there was no error or one of the
  four harmless ones; after any other error it is deleted or spins.\<close>

theorem handler_continues_only_if_harmless:
  assumes "alt_uCOSIIErrorHandler e k = Some (Continues, k')"
  shows "e \<in> {OS_ERR_NONE, OS_ERR_MBOX_FULL, OS_ERR_TIMEOUT, OS_ERR_TASK_DEL, OS_ERR_Q_FULL}"
proof -
  have "\<And>e k r. alt_uCOSIIErrorHandler e k = Some r \<Longrightarrow>
      fst r = Continues \<longrightarrow> e \<in> {OS_ERR_NONE, OS_ERR_MBOX_FULL, OS_ERR_TIMEOUT, OS_ERR_TASK_DEL, OS_ERR_Q_FULL}"
  proof (erule alt_uCOSIIErrorHandler.raw_induct [rotated])
    fix h e k r
    assume IH: "\<And>e k r. h e k = Some r \<Longrightarrow>
      fst r = Continues \<longrightarrow> e \<in> {OS_ERR_NONE, OS_ERR_MBOX_FULL, OS_ERR_TIMEOUT, OS_ERR_TASK_DEL, OS_ERR_Q_FULL}"
      and r: "(if e = OS_ERR_NONE then Some (Continues, k)
       else let k = OSSchedLock k
           in case ucosii_level e of
                TASK \<Rightarrow> do {
                  k \<leftarrow> OSSchedUnlock k;
                  (err, k) \<leftarrow> OSTaskDel OS_PRIO_SELF k;
                  if err = OS_ERR_NONE then Some (Deleted, k) else h e k }
              | SYSTEM \<Rightarrow> Some (Spins, k)
              | NONE \<Rightarrow> do { k \<leftarrow> OSSchedUnlock k; Some (Continues, k) }) = Some r"
    have "ucosii_level e = NONE \<Longrightarrow> e \<in> {OS_ERR_MBOX_FULL, OS_ERR_TIMEOUT, OS_ERR_TASK_DEL, OS_ERR_Q_FULL}"
      by (auto simp: ucosii_level_def split: if_splits)
    then show "fst r = Continues \<longrightarrow> e \<in> {OS_ERR_NONE, OS_ERR_MBOX_FULL, OS_ERR_TIMEOUT, OS_ERR_TASK_DEL, OS_ERR_Q_FULL}"
      using r by (auto simp: Let_def split: if_splits FAULT_LEVEL.splits bind_splits dest!: IH)
  qed
  with assms show ?thesis by fastforce
qed

theorem handler_continues_only_if_harmless_witness:
  "\<exists>k'. alt_uCOSIIErrorHandler OS_ERR_Q_FULL bss_kernel = Some (Continues, k') \<and>
     OS_ERR_Q_FULL \<in> {OS_ERR_NONE, OS_ERR_MBOX_FULL, OS_ERR_TIMEOUT, OS_ERR_TASK_DEL, OS_ERR_Q_FULL}"
proof -
  have "alt_uCOSIIErrorHandler OS_ERR_Q_FULL bss_kernel = Some (Continues, bss_kernel)"
    by (simp add: handler_levels(2) ucosii_level_def OSSchedLock_def OSSchedUnlock_def bss_kernel_def)
  then show ?thesis using handler_continues_only_if_harmless by blast
qed

end
