(* ===== verification/Led.thy ===== *)
theory Led
  imports Error_Handler Os_Time
begin

text \<open>
  The LED module, \<^verbatim>\<open>server1/led.c\<close>: commands arrive in a queue, the eight LEDs are eight event
  flags, the light show of the 7-segment display is stopped and started with a semaphore.
  \<open>LED_PIO_BASE\<close> and \<open>SEVEN_SEG_PIO_BASE\<close> are not defined in \<^verbatim>\<open>system.h\<close>, so nothing is
  written to the ports.
\<close>

section \<open>Resources\<close>

text \<open>The handles that \<open>SSSCreateOSDataStructs\<close> (\<^verbatim>\<open>simple_socket_server.c\<close>) fills in.\<close>

record sss =
  SSSLEDCommandQ :: "nat option"
  SSSLEDEventFlag :: "nat option"
  SSSLEDLightshowSem :: "nat option"

abbreviation CMD_LEDS_BIT_0_TOGGLE :: INT32U where "CMD_LEDS_BIT_0_TOGGLE \<equiv> 0x30"
abbreviation CMD_LEDS_LIGHTSHOW :: INT32U where "CMD_LEDS_LIGHTSHOW \<equiv> 0x53"
abbreviation CMD_QUIT :: INT32U where "CMD_QUIT \<equiv> 0x51"
abbreviation SSS_LED_COMMAND_Q_SIZE :: INT16U where "SSS_LED_COMMAND_Q_SIZE \<equiv> 30"

text \<open>A \<^verbatim>\<open>void *\<close> that carries a number.\<close>

fun ptr_num :: "vptr \<Rightarrow> INT32U option" where
  "ptr_num VNull = Some 0"
| "ptr_num (VAddr a) = Some a"
| "ptr_num _ = None"

section \<open>The LEDs\<close>

definition led_bit_toggle :: "sss \<Rightarrow> OS_FLAGS \<Rightarrow> kernel \<Rightarrow> (handled \<times> kernel) option" where
  "led_bit_toggle s bit_mask k = do {
     (led_8_val, err) \<leftarrow> OSFlagQuery (SSSLEDEventFlag s) True k;
     error_code \<leftarrow> err;
     (r, k) \<leftarrow> alt_uCOSIIErrorHandler error_code k;
     if r \<noteq> Continues then Some (r, k)
     else do {
       (_, err, k) \<leftarrow> OSFlagPost (SSSLEDEventFlag s) bit_mask
         (if bit_mask AND led_8_val \<noteq> 0 then OS_FLAG_CLR else OS_FLAG_SET) True k;
       error_code \<leftarrow> err;
       alt_uCOSIIErrorHandler error_code k } }"

text \<open>The masks \<open>BIT_0\<close> to \<open>BIT_7\<close> of the commands \<open>0\<close> to \<open>7\<close>.\<close>

definition led_mask :: "INT32U \<Rightarrow> OS_FLAGS option" where
  "led_mask cmd =
     (if cmd = 0x30 then Some 0x1 else if cmd = 0x31 then Some 0x2 else if cmd = 0x32 then Some 0x4
      else if cmd = 0x33 then Some 0x8 else if cmd = 0x34 then Some 0x10 else if cmd = 0x35 then Some 0x20
      else if cmd = 0x36 then Some 0x40 else if cmd = 0x37 then Some 0x80 else None)"

section \<open>The management task\<close>

text \<open>
  One round of \<open>LEDManagementTask\<close>: it waits for a command, and then executes it. \<open>active\<close> is
  \<open>SSSLEDLightshowActive\<close>. Stopping the light show may wait for the semaphore; then the round ends
  in \<open>led_stop_resume\<close>.
\<close>

definition led_wait :: "sss \<Rightarrow> kernel \<Rightarrow> ((vptr \<times> INT8U option) outcome \<times> kernel) option" where
  "led_wait s k = OSQPend (SSSLEDCommandQ s) 0 True k"

definition led_stop :: "INT8U \<Rightarrow> kernel \<Rightarrow> ((handled \<times> bool) outcome \<times> kernel) option" where
  "led_stop error_code k = do {
     (r, k) \<leftarrow> alt_uCOSIIErrorHandler error_code k;
     Some (Returns (r, False), k) }"

definition led_exec :: "sss \<Rightarrow> INT32U \<Rightarrow> bool \<Rightarrow> kernel \<Rightarrow> ((handled \<times> bool) outcome \<times> kernel) option" where
  "led_exec s led_command active k =
     (case led_mask led_command of
        Some m \<Rightarrow> do { (r, k) \<leftarrow> led_bit_toggle s m k; Some (Returns (r, active), k) }
      | None \<Rightarrow>
          if led_command = CMD_LEDS_LIGHTSHOW
          then if \<not> active
               then do {
                 (error_code, k) \<leftarrow> OSSemPost (SSSLEDLightshowSem s) k;
                 (r, k) \<leftarrow> alt_uCOSIIErrorHandler error_code k;
                 Some (Returns (r, True), k) }
               else do {
                 (r, k) \<leftarrow> OSSemPend (SSSLEDLightshowSem s) 0 True k;
                 case r of
                   Returns err \<Rightarrow> do { error_code \<leftarrow> err; led_stop error_code k }
                 | Blocked \<Rightarrow> Some (Blocked, k) }
          else Some (Returns (Continues, active), k))"

definition led_stop_resume :: "sss \<Rightarrow> kernel \<Rightarrow> ((handled \<times> bool) outcome \<times> kernel) option" where
  "led_stop_resume s k = do {
     e \<leftarrow> SSSLEDLightshowSem s;
     (error_code, k) \<leftarrow> OSSemPend_resume e k;
     led_stop error_code k }"

text \<open>The part of a round after \<open>OSQPend\<close> has returned a message and an error code.\<close>

definition led_round ::
  "sss \<Rightarrow> vptr \<Rightarrow> INT8U \<Rightarrow> bool \<Rightarrow> kernel \<Rightarrow> ((handled \<times> bool) outcome \<times> kernel) option" where
  "led_round s pmsg error_code active k = do {
     led_command \<leftarrow> ptr_num pmsg;
     (r, k) \<leftarrow> alt_uCOSIIErrorHandler error_code k;
     if r \<noteq> Continues then Some (Returns (r, active), k) else led_exec s led_command active k }"

section \<open>The light show task\<close>

text \<open>
  One round of \<open>LED7SegLightshowTask\<close>, in the pieces between its waits: a delay of 50 ms, the
  semaphore, and the post.
\<close>

definition show_delay :: "kernel \<Rightarrow> (INT8U \<times> INT16U list \<times> kernel) option" where
  "show_delay k = OSTimeDlyHMSM 0 0 0 50 k"

definition show_pend :: "sss \<Rightarrow> kernel \<Rightarrow> (INT8U option outcome \<times> kernel) option" where
  "show_pend s k = OSSemPend (SSSLEDLightshowSem s) 0 True k"

definition show_post :: "sss \<Rightarrow> INT8U \<Rightarrow> kernel \<Rightarrow> (handled \<times> kernel) option" where
  "show_post s pend_error k = do {
     (r, k) \<leftarrow> alt_uCOSIIErrorHandler pend_error k;
     if r \<noteq> Continues then Some (r, k)
     else do {
       (error_code, k) \<leftarrow> OSSemPost (SSSLEDLightshowSem s) k;
       alt_uCOSIIErrorHandler error_code k } }"

section \<open>The LEDs\<close>










end
