(* ===== verification/Socket_Server.thy ===== *)
theory Socket_Server
  imports Led
begin

text \<open>
  The socket server, \<^verbatim>\<open>server1/simple_socket_server.c\<close>: one connection at a time, a receive
  buffer, and commands that are posted to the LED module. The socket library is a parameter: what
  \<open>recv\<close> delivers is a list of results, one for each call (the empty string for a result that is
  not positive); what the server sends and closes is a list of \<open>net_out\<close>. \<open>others\<close> is what the
  other tasks do to the kernel from a call of \<open>OSQPost\<close> until the server runs again.
\<close>

section \<open>Memory\<close>

text \<open>A block of bytes written into a buffer; writing past its end is a fault.\<close>

definition mem_write :: "nat \<Rightarrow> INT8U list \<Rightarrow> INT8U list \<Rightarrow> INT8U list option" where
  "mem_write pos bs buf =
     (if pos + length bs \<le> length buf then Some (take pos buf @ bs @ drop (pos + length bs) buf) else None)"

definition byte_at :: "nat \<Rightarrow> INT8U list \<Rightarrow> INT8U option" where
  "byte_at i buf = (if i < length buf then Some (buf ! i) else None)"

text \<open>\<^verbatim>\<open>strchr(s, '\n') != NULL\<close>: a fault when neither the character nor NUL is in the buffer.\<close>

fun strchr_nl :: "INT8U list \<Rightarrow> bool option" where
  "strchr_nl [] = None"
| "strchr_nl (b # s) = (if b = 10 then Some True else if b = 0 then Some False else strchr_nl s)"

definition ascii :: "string \<Rightarrow> INT8U list" where
  "ascii s = map (\<lambda>c. of_nat (of_char c)) s"

section \<open>The connection\<close>

abbreviation SSS_RX_BUF_SIZE :: nat where "SSS_RX_BUF_SIZE \<equiv> 1500"
abbreviation SSS_TX_BUF_SIZE :: nat where "SSS_TX_BUF_SIZE \<equiv> 1500"

datatype sss_state = READY | COMPLETE | CLOSE

text \<open>The positions are offsets into \<open>rx_buffer\<close>.\<close>

record sss_conn =
  state :: sss_state
  fd :: int
  conn_close :: bool
  rx_buffer :: "INT8U list"
  rx_rd_pos :: nat
  rx_wr_pos :: nat

datatype net_out = Send int "INT8U list" | Close int

definition sss_reset_connection :: sss_conn where
  "sss_reset_connection = \<lparr>state = READY, fd = -1, conn_close = False, rx_buffer = replicate SSS_RX_BUF_SIZE 0,
     rx_rd_pos = 0, rx_wr_pos = 0\<rparr>"

text \<open>\<open>sprintf\<close> at the end of the text in a transmit buffer, with the NUL it writes.\<close>

definition sprintf_to :: "INT8U list \<Rightarrow> string \<Rightarrow> INT8U list option" where
  "sprintf_to tx s = (if length tx + length s + 1 \<le> SSS_TX_BUF_SIZE then Some (tx @ ascii s) else None)"

definition rule_line :: string where
  "rule_line = replicate 33 CHR ''='' @ [CHR 0x0A, CHR 0x0D]"

fun sprintf_all :: "INT8U list \<Rightarrow> string list \<Rightarrow> INT8U list option" where
  "sprintf_all tx [] = Some tx"
| "sprintf_all tx (s # ss) = do { tx \<leftarrow> sprintf_to tx s; sprintf_all tx ss }"

definition sss_send_menu :: "sss_conn \<Rightarrow> net_out option" where
  "sss_send_menu conn = do {
     tx \<leftarrow> sprintf_all []
       [rule_line, ''Nios II Simple Socket Server Menu'' @ [CHR 0x0A, CHR 0x0D], rule_line,
        ''0-7: Toggle board LEDs D0 - D7'' @ [CHR 0x0A, CHR 0x0D],
        ''S: 7-Segment LED Light Show'' @ [CHR 0x0A, CHR 0x0D],
        ''Q: Terminate session'' @ [CHR 0x0A, CHR 0x0D], rule_line,
        ''Enter your choice & press return:'' @ [CHR 0x0A, CHR 0x0D]];
     Some (Send (fd conn) tx) }"

text \<open>\<open>accepted\<close> is the result of \<open>accept\<close>, asked for only when no connection is open.\<close>

definition sss_handle_accept ::
  "int \<Rightarrow> sss_conn \<Rightarrow> kernel \<Rightarrow> (handled \<times> sss_conn \<times> net_out list \<times> kernel) option" where
  "sss_handle_accept accepted conn k =
     (if fd conn = -1
      then if accepted < 0
           then do { (r, k) \<leftarrow> alt_NetworkErrorHandler EXPANDED_DIAGNOSIS_CODE k; Some (r, conn, [], k) }
           else do {
             let conn = conn\<lparr>fd := accepted\<rparr>;
             m \<leftarrow> sss_send_menu conn;
             Some (Continues, conn, [m], k) }
      else Some (Continues, conn, [], k))"

section \<open>Commands\<close>

definition to_upper :: "INT8U \<Rightarrow> INT32U" where
  "to_upper b = ucast (if 0x61 \<le> b \<and> b \<le> 0x7A then b - 0x20 else b)"

definition command_text :: "INT32U \<Rightarrow> string" where
  "command_text cmd = ''--> Simple Socket Server Command '' @ [char_of (unat cmd)] @ ''.'' @ [CHR 0x0A]"

definition quit_text :: string where
  "quit_text = ''Terminating connection.'' @ [CHR 0x0A, CHR 0x0A, CHR 0x0D]"

text \<open>The loop of \<open>sss_exec_command\<close>, for \<open>n\<close> more bytes; \<open>tx\<close> is the reply so far.\<close>

fun exec_bytes :: "(kernel \<Rightarrow> kernel option) \<Rightarrow> sss \<Rightarrow> nat \<Rightarrow> sss_conn \<Rightarrow> INT8U list \<Rightarrow> kernel \<Rightarrow>
    (handled \<times> sss_conn \<times> INT8U list \<times> kernel) option" where
  "exec_bytes others s 0 conn tx k = Some (Continues, conn, tx, k)"
| "exec_bytes others s (Suc n) conn tx k = do {
     b \<leftarrow> byte_at (rx_rd_pos conn) (rx_buffer conn);
     let cmd = to_upper b;
     let conn = conn\<lparr>rx_rd_pos := rx_rd_pos conn + 1\<rparr>;
     if 0x20 \<le> cmd \<and> cmd \<le> 0x7E then do {
       tx \<leftarrow> sprintf_to tx (command_text cmd);
       if cmd = CMD_QUIT then do {
         tx \<leftarrow> sprintf_to tx quit_text;
         exec_bytes others s n (conn\<lparr>conn_close := True\<rparr>) tx k }
       else do {
         (error_code, k) \<leftarrow> OSQPost (SSSLEDCommandQ s) (VAddr cmd) k;
         k \<leftarrow> others k;
         (r, k) \<leftarrow> alt_SSSErrorHandler error_code k;
         if r = Continues then exec_bytes others s n conn tx k else Some (r, conn, tx, k) } }
     else exec_bytes others s n conn tx k }"

definition sss_exec_command :: "(kernel \<Rightarrow> kernel option) \<Rightarrow> sss \<Rightarrow> sss_conn \<Rightarrow> kernel \<Rightarrow>
    (handled \<times> sss_conn \<times> net_out list \<times> kernel) option" where
  "sss_exec_command others s conn k = do {
     (r, conn, tx, k) \<leftarrow> exec_bytes others s (rx_wr_pos conn - rx_rd_pos conn) conn [] k;
     Some (r, conn, if r = Continues then [Send (fd conn) tx] else [], k) }"

section \<open>Receiving\<close>

text \<open>What \<open>recv\<close> of the bytes \<open>bs\<close> does to the connection.\<close>

definition sss_recv :: "INT8U list \<Rightarrow> sss_conn \<Rightarrow> sss_conn option" where
  "sss_recv bs conn =
     (if bs = [] then Some conn
      else do {
        buf \<leftarrow> mem_write (rx_wr_pos conn) bs (rx_buffer conn);
        let wr = rx_wr_pos conn + length bs;
        buf \<leftarrow> mem_write (wr + 1) [0] buf;
        Some (conn\<lparr>rx_buffer := buf, rx_wr_pos := wr\<rparr>) })"

text \<open>The end of the loop of \<open>sss_handle_receive\<close>: the bytes that were used are moved out.\<close>

definition sss_shift :: "sss_conn \<Rightarrow> sss_conn option" where
  "sss_shift conn = do {
     let data_used = rx_rd_pos conn;
     let rest = take (rx_wr_pos conn - data_used) (drop data_used (rx_buffer conn));
     buf \<leftarrow> mem_write 0 rest (rx_buffer conn);
     let wr = rx_wr_pos conn - data_used;
     buf \<leftarrow> mem_write wr (replicate data_used 0) buf;
     Some (conn\<lparr>state := (if conn_close conn then CLOSE else READY), rx_buffer := buf, rx_rd_pos := 0,
                rx_wr_pos := wr\<rparr>) }"

text \<open>
  The loop; it stops when the connection is closed, when a handler does not return, or when a call
  of \<open>recv\<close> is due and \<open>inp\<close> holds no more results.
\<close>

partial_function (option) receive_loop :: "(kernel \<Rightarrow> kernel option) \<Rightarrow> sss \<Rightarrow> INT8U list list \<Rightarrow> sss_conn \<Rightarrow> kernel \<Rightarrow>
    (handled \<times> sss_conn \<times> net_out list \<times> kernel) option" where
  "receive_loop others s inp conn k =
     (if state conn = CLOSE then Some (Continues, conn, [], k)
      else do {
        lf \<leftarrow> strchr_nl (rx_buffer conn);
        if lf then do {
          (r, conn, out, k) \<leftarrow> sss_exec_command others s conn k;
          if r \<noteq> Continues then Some (r, conn, out, k)
          else do {
            conn \<leftarrow> sss_shift conn;
            (r, conn, out', k) \<leftarrow> receive_loop others s inp conn k;
            Some (r, conn, out @ out', k) } }
        else (case inp of
            [] \<Rightarrow> Some (Continues, conn, [], k)
          | bs # inp \<Rightarrow> do {
              conn \<leftarrow> sss_recv (take (SSS_RX_BUF_SIZE - rx_wr_pos conn - 1) bs) conn;
              conn \<leftarrow> sss_shift conn;
              receive_loop others s inp conn k }) })"

definition sss_handle_receive :: "(kernel \<Rightarrow> kernel option) \<Rightarrow> sss \<Rightarrow> INT8U list list \<Rightarrow> sss_conn \<Rightarrow> kernel \<Rightarrow>
    (handled \<times> sss_conn \<times> net_out list \<times> kernel) option" where
  "sss_handle_receive others s inp conn k = do {
     (r, conn, out, k) \<leftarrow> receive_loop others s inp (conn\<lparr>rx_rd_pos := 0, rx_wr_pos := 0\<rparr>) k;
     if r = Continues \<and> state conn = CLOSE then Some (r, sss_reset_connection, out @ [Close (fd conn)], k)
     else Some (r, conn, out, k) }"

section \<open>The task\<close>

text \<open>
  One round of \<open>SSSSimpleSocketServerTask\<close> after \<open>select\<close> has told which of the two sockets is
  ready.
\<close>

definition sss_round :: "(kernel \<Rightarrow> kernel option) \<Rightarrow> sss \<Rightarrow> bool \<Rightarrow> bool \<Rightarrow> int \<Rightarrow> INT8U list list \<Rightarrow> sss_conn \<Rightarrow> kernel \<Rightarrow>
    (handled \<times> sss_conn \<times> net_out list \<times> kernel) option" where
  "sss_round others s listen_ready conn_ready accepted inp conn k =
     (if listen_ready then sss_handle_accept accepted conn k
      else if fd conn \<noteq> -1 \<and> conn_ready then sss_handle_receive others s inp conn k
      else Some (Continues, conn, [], k))"

text \<open>The start of the task: the results of \<open>socket\<close>, \<open>bind\<close> and \<open>listen\<close>.\<close>

definition sss_start :: "int \<Rightarrow> int \<Rightarrow> int \<Rightarrow> kernel \<Rightarrow> (handled \<times> sss_conn \<times> kernel) option" where
  "sss_start fd_listen bound listening k =
     (if fd_listen < 0 \<or> bound < 0 \<or> listening < 0
      then do { (r, k) \<leftarrow> alt_NetworkErrorHandler EXPANDED_DIAGNOSIS_CODE k; Some (r, sss_reset_connection, k) }
      else Some (Continues, sss_reset_connection, k))"

section \<open>Creation\<close>

definition report :: "bool \<Rightarrow> INT8U \<Rightarrow> kernel \<Rightarrow> (handled \<times> kernel) option" where
  "report failed error_code k = (if failed then alt_uCOSIIErrorHandler error_code k else Some (Continues, k))"

text \<open>The storage of the queue, \<open>SSSLEDCommandQTbl\<close>, starts at the cell \<open>tbl\<close>.\<close>

definition SSSCreateOSDataStructs :: "nat \<Rightarrow> kernel \<Rightarrow> (handled \<times> sss \<times> kernel) option" where
  "SSSCreateOSDataStructs tbl k = do {
     (q, k) \<leftarrow> OSQCreate tbl SSS_LED_COMMAND_Q_SIZE k;
     (r1, k) \<leftarrow> report (q = None) EXPANDED_DIAGNOSIS_CODE k;
     if r1 \<noteq> Continues then Some (r1, \<lparr>SSSLEDCommandQ = q, SSSLEDEventFlag = None, SSSLEDLightshowSem = None\<rparr>, k)
     else do {
       (sm, k) \<leftarrow> OSSemCreate 1 k;
       (r2, k) \<leftarrow> report (sm = None) EXPANDED_DIAGNOSIS_CODE k;
       if r2 \<noteq> Continues then Some (r2, \<lparr>SSSLEDCommandQ = q, SSSLEDEventFlag = None, SSSLEDLightshowSem = sm\<rparr>, k)
       else do {
         (g, err, k) \<leftarrow> OSFlagCreate 0 True k;
         error_code \<leftarrow> err;
         (r3, k) \<leftarrow> report (g = None) error_code k;
         Some (r3, \<lparr>SSSLEDCommandQ = q, SSSLEDEventFlag = g, SSSLEDLightshowSem = sm\<rparr>, k) } } }"

text \<open>Entry points and stacks of the two tasks are addresses; a stack has \<open>TASK_STACKSIZE\<close> words.\<close>

abbreviation TASK_STACKSIZE :: INT32U where "TASK_STACKSIZE \<equiv> 2048"
abbreviation LED_MANAGEMENT_TASK_PRIORITY :: INT8U where "LED_MANAGEMENT_TASK_PRIORITY \<equiv> 7"
abbreviation LED_7SEG_LIGHTSHOW_TASK_PRIORITY :: INT8U where "LED_7SEG_LIGHTSHOW_TASK_PRIORITY \<equiv> 18"

record app_tasks =
  LED7SegLightshowTask :: INT32U
  LED7SegLightshowTaskStk :: INT32U
  LEDManagementTask :: INT32U
  LEDManagementTaskStk :: INT32U

definition SSSCreateTasks :: "(kernel \<Rightarrow> kernel option) \<Rightarrow> port \<Rightarrow> app_tasks \<Rightarrow> kernel \<Rightarrow> (handled \<times> kernel) option" where
  "SSSCreateTasks others port app k = do {
     (error_code, k) \<leftarrow> OSTaskCreateExt port (LED7SegLightshowTask app) 0
        (LED7SegLightshowTaskStk app + 4 * (TASK_STACKSIZE - 1)) LED_7SEG_LIGHTSHOW_TASK_PRIORITY
        (ucast LED_7SEG_LIGHTSHOW_TASK_PRIORITY) (LED7SegLightshowTaskStk app) TASK_STACKSIZE VNull 0 k;
     k \<leftarrow> others k;
     (r, k) \<leftarrow> alt_uCOSIIErrorHandler error_code k;
     if r \<noteq> Continues then Some (r, k)
     else do {
       (error_code, k) \<leftarrow> OSTaskCreateExt port (LEDManagementTask app) 0
          (LEDManagementTaskStk app + 4 * (TASK_STACKSIZE - 1)) LED_MANAGEMENT_TASK_PRIORITY
          (ucast LED_MANAGEMENT_TASK_PRIORITY) (LEDManagementTaskStk app) TASK_STACKSIZE VNull 0 k;
       k \<leftarrow> others k;
       alt_uCOSIIErrorHandler error_code k } }"

section \<open>The receive buffer\<close>

text \<open>
  What holds of the connection whenever \<open>select\<close> or \<open>recv\<close> is called: behind the received bytes the
  buffer is zero, and at least the last byte is free.
\<close>

definition rx_ok :: "sss_conn \<Rightarrow> bool" where
  "rx_ok conn \<longleftrightarrow> length (rx_buffer conn) = SSS_RX_BUF_SIZE \<and> rx_rd_pos conn \<le> rx_wr_pos conn \<and>
     rx_wr_pos conn < SSS_RX_BUF_SIZE - 1 \<and> (\<forall>i. rx_wr_pos conn \<le> i \<and> i < SSS_RX_BUF_SIZE \<longrightarrow> rx_buffer conn ! i = 0)"

lemma rx_ok_reset: "rx_ok sss_reset_connection"
  by (simp add: rx_ok_def sss_reset_connection_def)



lemma strchr_reset:
  "strchr_nl (rx_buffer sss_reset_connection) = Some False" "state sss_reset_connection = READY"
proof -
  have "strchr_nl (replicate n 0) = Some False" if "0 < n" for n using that by (cases n) simp_all
  then show "strchr_nl (rx_buffer sss_reset_connection) = Some False" by (simp add: sss_reset_connection_def)
qed (simp add: sss_reset_connection_def)




section \<open>Commands\<close>

text \<open>The reply to a byte, and whether it ends the session.\<close>

definition printable :: "INT8U \<Rightarrow> bool" where
  "printable b \<longleftrightarrow> 0x20 \<le> to_upper b \<and> to_upper b \<le> 0x7E"

definition reply :: "INT8U \<Rightarrow> INT8U list" where
  "reply b = (if printable b then ascii (command_text (to_upper b)) @ (if to_upper b = CMD_QUIT then ascii quit_text else [])
              else [])"

lemma sprintf_to_some: "sprintf_to tx s = Some tx' \<longleftrightarrow> tx' = tx @ ascii s \<and> length tx + length s + 1 \<le> SSS_TX_BUF_SIZE"
  by (auto simp: sprintf_to_def)

lemma exec_bytes_step:
  "exec_bytes others s n conn tx k = Some (Continues, conn', tx', k') \<Longrightarrow>
   rx_rd_pos conn + n \<le> length (rx_buffer conn) \<or> n = 0 \<Longrightarrow>
   tx' = tx @ concat (map reply (take n (drop (rx_rd_pos conn) (rx_buffer conn)))) \<and>
   conn' = conn\<lparr>rx_rd_pos := rx_rd_pos conn + n,
     conn_close := conn_close conn \<or> (\<exists>b\<in>set (take n (drop (rx_rd_pos conn) (rx_buffer conn))). to_upper b = CMD_QUIT)\<rparr> \<and>
   (length tx < SSS_TX_BUF_SIZE \<longrightarrow> length tx' < SSS_TX_BUF_SIZE)"
proof (induction n arbitrary: conn tx k)
  case (Suc n)
  let ?b = "rx_buffer conn ! rx_rd_pos conn"
  from Suc.prems have lt: "rx_rd_pos conn < length (rx_buffer conn)" by auto
  then have td: "take (Suc n) (drop (rx_rd_pos conn) (rx_buffer conn)) = ?b # take n (drop (Suc (rx_rd_pos conn)) (rx_buffer conn))"
    by (metis Cons_nth_drop_Suc take_Suc_Cons)
  show ?case
  proof (cases "printable ?b")
    case False
    then have "exec_bytes others s n (conn\<lparr>rx_rd_pos := Suc (rx_rd_pos conn)\<rparr>) tx k = Some (Continues, conn', tx', k')"
      using Suc.prems(1) lt by (auto simp: byte_at_def Let_def printable_def)
    moreover have "to_upper ?b \<noteq> CMD_QUIT" using False by (auto simp: printable_def)
    ultimately show ?thesis
      using Suc.IH [of "conn\<lparr>rx_rd_pos := Suc (rx_rd_pos conn)\<rparr>" tx k] Suc.prems(2) False by (auto simp: td reply_def)
  next
    case True
    show ?thesis
    proof (cases "to_upper ?b = CMD_QUIT")
      case q: True
      let ?tx = "tx @ ascii (command_text (to_upper ?b)) @ ascii quit_text"
      have "exec_bytes others s n (conn\<lparr>rx_rd_pos := Suc (rx_rd_pos conn), conn_close := True\<rparr>) ?tx k = Some (Continues, conn', tx', k')"
        and l: "length ?tx < SSS_TX_BUF_SIZE"
        using Suc.prems(1) lt True q
        by (auto simp: byte_at_def Let_def printable_def sprintf_to_some ascii_def split: bind_splits)
      then show ?thesis
        using Suc.IH [of "conn\<lparr>rx_rd_pos := Suc (rx_rd_pos conn), conn_close := True\<rparr>" ?tx k] Suc.prems(2) True q
        by (auto simp: td reply_def)
    next
      case q: False
      let ?tx = "tx @ ascii (command_text (to_upper ?b))"
      obtain k1 where "exec_bytes others s n (conn\<lparr>rx_rd_pos := Suc (rx_rd_pos conn)\<rparr>) ?tx k1 = Some (Continues, conn', tx', k')"
        and l: "length ?tx < SSS_TX_BUF_SIZE"
        using Suc.prems(1) lt True q
        by (auto simp: byte_at_def Let_def printable_def sprintf_to_some ascii_def split: bind_splits if_splits)
      then show ?thesis
        using Suc.IH [of "conn\<lparr>rx_rd_pos := Suc (rx_rd_pos conn)\<rparr>" ?tx k1] Suc.prems(2) True q
        by (auto simp: td reply_def)
    qed
  qed
qed simp

text \<open>The bytes that are waiting to be executed.\<close>

definition pending_bytes :: "sss_conn \<Rightarrow> INT8U list" where
  "pending_bytes conn = take (rx_wr_pos conn - rx_rd_pos conn) (drop (rx_rd_pos conn) (rx_buffer conn))"

lemma sss_exec_command_step:
  assumes "rx_ok conn" "sss_exec_command others s conn k = Some (Continues, conn', out, k')"
  shows "out = [Send (fd conn) (concat (map reply (pending_bytes conn)))]"
    "length (concat (map reply (pending_bytes conn))) < SSS_TX_BUF_SIZE"
    "conn' = conn\<lparr>rx_rd_pos := rx_wr_pos conn,
       conn_close := conn_close conn \<or> (\<exists>b\<in>set (pending_bytes conn). to_upper b = CMD_QUIT)\<rparr>"
proof -
  have r: "rx_rd_pos conn \<le> rx_wr_pos conn" "rx_wr_pos conn \<le> length (rx_buffer conn)" using assms(1) by (auto simp: rx_ok_def)
  obtain tx where tx: "exec_bytes others s (rx_wr_pos conn - rx_rd_pos conn) conn [] k = Some (Continues, conn', tx, k')"
    "out = [Send (fd conn') tx]"
    using assms(2) by (auto simp: sss_exec_command_def split: bind_splits if_splits)
  note e = exec_bytes_step [OF tx(1)]
  show "out = [Send (fd conn) (concat (map reply (pending_bytes conn)))]"
    "length (concat (map reply (pending_bytes conn))) < SSS_TX_BUF_SIZE"
    "conn' = conn\<lparr>rx_rd_pos := rx_wr_pos conn,
       conn_close := conn_close conn \<or> (\<exists>b\<in>set (pending_bytes conn). to_upper b = CMD_QUIT)\<rparr>"
    using e r tx(2) by (auto simp: pending_bytes_def)
qed

lemma reply_length: "printable b \<Longrightarrow> 36 \<le> length (reply b)"
  by (simp add: reply_def command_text_def ascii_def)

text \<open>C30: When \<open>sss_exec_command\<close> goes on, it has sent one answer with the replies to the waiting
  bytes in order, has used them all, and closes the session when one of them was \<open>Q\<close>; the answer fits
  its buffer only when at most 41 of the bytes were printable.\<close>

theorem sss_exec_command_replies:
  assumes "rx_ok conn" "sss_exec_command others s conn k = Some (Continues, conn', out, k')"
  shows "out = [Send (fd conn) (concat (map reply (pending_bytes conn)))] \<and> rx_rd_pos conn' = rx_wr_pos conn \<and>
    conn_close conn' = (conn_close conn \<or> (\<exists>b\<in>set (pending_bytes conn). to_upper b = CMD_QUIT)) \<and>
    length (filter printable (pending_bytes conn)) \<le> 41"
proof -
  have "36 * length (filter printable bs) \<le> length (concat (map reply bs))" for bs
    using reply_length by (induction bs) fastforce+
  from this [of "pending_bytes conn"] sss_exec_command_step [OF assms] show ?thesis by simp
qed

definition quit_conn :: sss_conn where
  "quit_conn = sss_reset_connection\<lparr>fd := 3, rx_buffer := 0x51 # 10 # replicate 1498 0, rx_wr_pos := 2\<rparr>"

theorem sss_exec_command_replies_witness:
  "\<exists>conn' out. sss_exec_command Some \<lparr>SSSLEDCommandQ = None, SSSLEDEventFlag = None, SSSLEDLightshowSem = None\<rparr>
       quit_conn bss_kernel = Some (Continues, conn', out, bss_kernel) \<and> conn_close conn' \<and> rx_rd_pos conn' = 2"
proof -
  have ok: "rx_ok quit_conn"
    by (auto simp: rx_ok_def quit_conn_def sss_reset_connection_def nth_Cons split: nat.split)
  have p: "pending_bytes quit_conn = [0x51, 10]"
    by (simp add: pending_bytes_def quit_conn_def sss_reset_connection_def)
  have u: "to_upper 0x51 = 0x51" "to_upper 10 = 10" by (simp_all add: to_upper_def)
  have two: "exec_bytes o1 s1 2 c t k = exec_bytes o1 s1 (Suc (Suc 0)) c t k" for o1 s1 c t k
    by (simp only: numeral_2_eq_2)
  obtain conn' out where e: "sss_exec_command Some \<lparr>SSSLEDCommandQ = None, SSSLEDEventFlag = None, SSSLEDLightshowSem = None\<rparr>
       quit_conn bss_kernel = Some (Continues, conn', out, bss_kernel)"
    by (simp add: sss_exec_command_def quit_conn_def sss_reset_connection_def two byte_at_def u sprintf_to_def
        command_text_def quit_text_def ascii_def Let_def)
  have "rx_wr_pos quit_conn = 2" by (simp add: quit_conn_def)
  then show ?thesis using sss_exec_command_replies [OF ok e] e u by (auto simp: p)
qed

section \<open>The loop\<close>





text \<open>C28: A call of \<open>recv\<close> that fills the buffer writes the terminating NUL outside it; it does so
  exactly when at least \<^verbatim>\<open>1499 - wr\<close> bytes are delivered.\<close>

theorem sss_recv_overruns:
  assumes "rx_ok conn"
  shows "sss_recv (take (SSS_RX_BUF_SIZE - rx_wr_pos conn - 1) bs) conn = None \<longleftrightarrow>
    SSS_RX_BUF_SIZE - rx_wr_pos conn - 1 \<le> length bs"
proof -
  have "rx_wr_pos conn < 1499" "length (rx_buffer conn) = 1500" using assms by (auto simp: rx_ok_def)
  then show ?thesis by (auto simp: sss_recv_def mem_write_def Let_def min_def)
qed

theorem sss_recv_overruns_witness:
  "sss_recv (take (SSS_RX_BUF_SIZE - 0 - 1) (replicate 1499 65)) sss_reset_connection = None \<and>
   sss_recv (take (SSS_RX_BUF_SIZE - 0 - 1) (replicate 1498 65)) sss_reset_connection \<noteq> None"
proof -
  have "rx_wr_pos sss_reset_connection = 0" by (simp add: sss_reset_connection_def)
  note r = sss_recv_overruns [OF rx_ok_reset, unfolded this]
  show ?thesis unfolding r by simp
qed

lemma sss_shift_idle:
  assumes "rx_ok conn" "rx_rd_pos conn = 0" "state conn = READY" "\<not> conn_close conn"
  shows "sss_shift conn = Some conn"
  using assms by (simp add: sss_shift_def rx_ok_def mem_write_def Let_def)

text \<open>C31: A client that has closed its side without a newline is never noticed: however often
  \<open>recv\<close> reports the end of the stream, the loop stays where it is, and the connection stays open.\<close>

theorem receive_loop_ignores_close:
  assumes "rx_ok conn" "rx_rd_pos conn = 0" "state conn = READY" "\<not> conn_close conn"
    and "strchr_nl (rx_buffer conn) = Some False"
  shows "receive_loop others s (replicate n []) conn k = Some (Continues, conn, [], k)"
proof (induction n)
  case (Suc n)
  then show ?case
    using assms by (subst receive_loop.simps) (simp add: sss_recv_def sss_shift_idle)
qed (use assms in \<open>subst receive_loop.simps, simp\<close>)

theorem receive_loop_ignores_close_witness:
  "receive_loop Some \<lparr>SSSLEDCommandQ = None, SSSLEDEventFlag = None, SSSLEDLightshowSem = None\<rparr> (replicate 1000 [])
     sss_reset_connection bss_kernel = Some (Continues, sss_reset_connection, [], bss_kernel)"
  by (rule receive_loop_ignores_close [OF rx_ok_reset]) (simp_all only: strchr_reset, simp_all add: sss_reset_connection_def)

text \<open>A second client is not accepted while a connection is open, and as long as it waits the open
  connection is not read: the round does nothing.\<close>

lemma second_client_blocks:
  "fd conn \<noteq> -1 \<Longrightarrow> sss_round others s True conn_ready accepted inp conn k = Some (Continues, conn, [], k)"
  by (simp add: sss_round_def sss_handle_accept_def)

end
