(* ===== verification/Net_Utils.thy ===== *)
theory Net_Utils
  imports Prelude
begin

text \<open>
  The network utilities, \<^verbatim>\<open>server1/network_utilities.c\<close> and \<^verbatim>\<open>server1/SSS_DE2_115.c\<close>: the serial
  number the user types, the MAC address made from it, its place in the last sector of the flash.
  Standard input is a list of characters; \<open>None\<close> is an end of the input before the number is
  complete. The flash device and its driver are the parameter \<open>dev\<close>.
\<close>

section \<open>The serial number\<close>

definition is_digit :: "INT8U \<Rightarrow> bool" where
  "is_digit c \<longleftrightarrow> 0x30 \<le> c \<and> c \<le> 0x39"

text \<open>
  The first inner loop: nine characters into \<open>serial_number\<close>, from the index \<open>i\<close> on. The index
  is an \<open>int\<close>: a backspace steps it back by one, and the loop steps it forward again. The result
  is None when the input ends.
\<close>

fun read_serial :: "int \<Rightarrow> INT8U list \<Rightarrow> INT8U list \<Rightarrow> (INT8U list \<times> INT8U list) option" where
  "read_serial i serial [] = (if i < 9 then None else Some (serial, []))"
| "read_serial i serial (c # inp) =
     (if i < 9
      then if 0 \<le> i
           then let serial = serial[nat i := c];
                    i = (if c = 0x08 \<and> i \<ge> 0 then i - 1 else i)
                in read_serial (i + 1) serial inp
           else None
      else Some (serial, c # inp))"

text \<open>The second inner loop: the number the digits denote, 0 when one is not a digit.\<close>

fun serial_value :: "INT32U \<Rightarrow> INT8U list \<Rightarrow> INT32U" where
  "serial_value n [] = n"
| "serial_value n (c # cs) = (if is_digit c then serial_value (n * 10 + (ucast c - 0x30)) cs else 0)"

text \<open>The outer loop; the array has arbitrary contents \<open>serial\<close> at first.\<close>

partial_function (option) get_serial_number :: "INT8U list \<Rightarrow> INT8U list \<Rightarrow> (INT32U \<times> INT8U list) option" where
  "get_serial_number serial inp = do {
     (serial, inp) \<leftarrow> read_serial 0 serial inp;
     let ser_num = serial_value 0 serial;
     if ser_num = 0 then get_serial_number serial inp else Some (ser_num, inp) }"

section \<open>The MAC address\<close>

definition serial_mac :: "INT32U \<Rightarrow> INT8U list" where
  "serial_mac ser_num =
     [0x00, 0x07, 0xED, 0xFF, ucast (drop_bit 8 (ser_num AND 0xFF00)), ucast (ser_num AND 0xFF)]"

text \<open>The error is 0 or -1; the MAC address is written only when the error is 0.\<close>

definition generate_mac_addr :: "INT8U list \<Rightarrow> INT8U list \<Rightarrow> INT8U list \<Rightarrow> (int \<times> INT8U list \<times> INT8U list) option" where
  "generate_mac_addr serial inp mac_addr = do {
     (ser_num, inp) \<leftarrow> get_serial_number serial inp;
     Some (if ser_num \<noteq> 0 then (0, serial_mac ser_num, inp) else (-1, mac_addr, inp)) }"

section \<open>The flash\<close>

record flash_region =
  r_offset :: int
  region_size :: int
  block_size :: int

text \<open>
  The driver: whether the device opens, the error of \<open>alt_get_flash_info\<close> and the regions it
  gives, and \<open>alt_write_flash\<close>, which turns the contents of the flash into the new contents.
\<close>

record 'f flash_dev =
  fd_ok :: bool
  info_err :: int
  regions :: "flash_region list"
  write_flash :: "nat \<Rightarrow> INT8U list \<Rightarrow> 'f \<Rightarrow> 'f"
  read_flash :: "'f \<Rightarrow> nat \<Rightarrow> INT8U"

fun last_region :: "flash_region \<Rightarrow> flash_region list \<Rightarrow> flash_region" where
  "last_region p [] = p"
| "last_region p (r # rs) = last_region (if r_offset r > r_offset p then r else p) rs"

definition FindLastFlashSectorOffset :: "'f flash_dev \<Rightarrow> (int \<times> int option) option" where
  "FindLastFlashSectorOffset dev =
     (if \<not> fd_ok dev then Some (-1, None)
      else if info_err dev \<noteq> 0 then Some (info_err dev, None)
      else case regions dev of
        [] \<Rightarrow> None
      | r # rs \<Rightarrow> let p = last_region r rs in Some (0, Some (r_offset p + region_size p - block_size p)))"

text \<open>The 32 bytes stored: signature, MAC address, and network settings.\<close>

definition flash_content :: "INT32U \<Rightarrow> INT8U list" where
  "flash_content ser_num =
     [0xFE, 0x5A, 0x00, 0x00] @ serial_mac ser_num @ [0xFF, 0xFF] @ [0, 0, 0, 0] @ replicate 4 0xFF @
     [255, 255, 255, 0] @ [0, 0, 0, 0] @ replicate 4 0xFF"

definition generate_and_store_mac_addr ::
  "'f flash_dev \<Rightarrow> nat \<Rightarrow> INT8U list \<Rightarrow> INT8U list \<Rightarrow> 'f \<Rightarrow> (int \<times> INT8U list \<times> 'f) option" where
  "generate_and_store_mac_addr dev last_flash_sector_offset serial inp f = do {
     (ser_num, inp) \<leftarrow> get_serial_number serial inp;
     Some (if ser_num \<noteq> 0 \<and> fd_ok dev
           then (0, inp, write_flash dev last_flash_sector_offset (flash_content ser_num) f)
           else (-1, inp, f)) }"

definition read_32 :: "'f flash_dev \<Rightarrow> 'f \<Rightarrow> nat \<Rightarrow> INT32U" where
  "read_32 dev f a = ucast (read_flash dev f a) OR push_bit 8 (ucast (read_flash dev f (a + 1))) OR
     push_bit 16 (ucast (read_flash dev f (a + 2))) OR push_bit 24 (ucast (read_flash dev f (a + 3)))"

definition read_mac :: "'f flash_dev \<Rightarrow> 'f \<Rightarrow> nat \<Rightarrow> INT8U list" where
  "read_mac dev f a = map (\<lambda>i. read_flash dev f (a + i)) [4, 5, 6, 7, 8, 9]"

text \<open>Addresses of the flash are offsets from \<open>CFI_FLASH_0_BASE\<close>.\<close>

definition get_board_mac_addr ::
  "'f flash_dev \<Rightarrow> INT8U list \<Rightarrow> INT8U list \<Rightarrow> INT8U list \<Rightarrow> 'f \<Rightarrow> (int \<times> INT8U list \<times> INT8U list \<times> 'f) option" where
  "get_board_mac_addr dev serial inp mac_addr f = do {
     (error, off) \<leftarrow> FindLastFlashSectorOffset dev;
     (case off of
        None \<Rightarrow> Some (error, mac_addr, inp, f)
      | Some ofs \<Rightarrow> do {
          let a = nat ofs;
          (error, inp, f) \<leftarrow>
            (if read_32 dev f a \<noteq> 0x00005AFE then generate_and_store_mac_addr dev a serial inp f
             else Some (error, inp, f));
          Some (error, if error = 0 then read_mac dev f a else mac_addr, inp, f) }) }"

definition get_mac_addr ::
  "'f flash_dev \<Rightarrow> INT8U list \<Rightarrow> INT8U list \<Rightarrow> INT8U list \<Rightarrow> 'f \<Rightarrow> (int \<times> INT8U list \<times> INT8U list \<times> 'f) option" where
  "get_mac_addr dev serial inp mac_addr f = do {
     (error, mac, inp, f) \<leftarrow> get_board_mac_addr dev serial inp mac_addr f;
     if error \<noteq> 0 then do { (error, mac, inp) \<leftarrow> generate_mac_addr serial inp mac; Some (error, mac, inp, f) }
     else Some (error, mac, inp, f) }"

definition get_DE2_115_mac_addr :: "'f flash_dev \<Rightarrow> INT8U list \<Rightarrow> 'f \<Rightarrow> (int \<times> INT8U list) option" where
  "get_DE2_115_mac_addr dev mac_addr f = do {
     (error, off) \<leftarrow> FindLastFlashSectorOffset dev;
     Some (error, case off of None \<Rightarrow> mac_addr | Some ofs \<Rightarrow> read_mac dev f (nat ofs)) }"

section \<open>The address\<close>

text \<open>
  The configured addresses, in network byte order; \<open>DHCP_CLIENT\<close> is defined in \<^verbatim>\<open>system.h\<close>, so
  DHCP is asked for.
\<close>

definition htonl :: "INT32U \<Rightarrow> INT32U" where
  "htonl x = push_bit 24 (x AND 0xFF) OR push_bit 8 (x AND 0xFF00) OR drop_bit 8 (x AND 0xFF0000) OR drop_bit 24 x"

definition IP4_ADDR :: "INT32U \<Rightarrow> INT32U \<Rightarrow> INT32U \<Rightarrow> INT32U \<Rightarrow> INT32U" where
  "IP4_ADDR a b c d = htonl (push_bit 24 (a AND 0xFF) OR push_bit 16 (b AND 0xFF) OR push_bit 8 (c AND 0xFF) OR (d AND 0xFF))"

record ip_config =
  ipaddr :: INT32U
  gw :: INT32U
  netmask :: INT32U
  use_dhcp :: bool

definition get_ip_addr :: "int \<times> ip_config" where
  "get_ip_addr = (1, \<lparr>ipaddr = IP4_ADDR 0 0 0 0, gw = IP4_ADDR 0 0 0 0, netmask = IP4_ADDR 255 255 255 0,
     use_dhcp = True\<rparr>)"

section \<open>The number that is read\<close>

definition dec :: "INT8U list \<Rightarrow> nat" where
  "dec s = foldl (\<lambda>n c. n * 10 + (unat c - 48)) 0 s"

definition good_serial :: "INT8U list \<Rightarrow> bool" where
  "good_serial s \<longleftrightarrow> (\<forall>c\<in>set s. is_digit c) \<and> dec s \<noteq> 0"

lemma read_serial_nine:
  "8 \<notin> set cs \<Longrightarrow> i + length cs = 9 \<Longrightarrow> length serial = 9 \<Longrightarrow>
   read_serial (int i) serial (cs @ rest) = Some (take i serial @ cs, rest)"
proof (induction cs arbitrary: i serial)
  case Nil
  then show ?case by (cases rest) simp_all
next
  case (Cons c cs)
  then have i: "i < 9" by simp
  have "read_serial (int i) serial ((c # cs) @ rest) = read_serial (int (Suc i)) (serial[i := c]) (cs @ rest)"
    using Cons.prems i by (simp add: add.commute)
  also have "\<dots> = Some (take (Suc i) (serial[i := c]) @ cs, rest)"
    by (rule Cons.IH) (use Cons.prems in simp_all)
  also have "take (Suc i) (serial[i := c]) = take i serial @ [c]"
    using Cons.prems i by (simp add: take_Suc_conv_app_nth)
  finally show ?case by simp
qed

lemma digit_value: "is_digit c \<Longrightarrow> (ucast c - 0x30 :: INT32U) = of_nat (unat c - 48)"
proof -
  assume "is_digit c"
  then have "48 \<le> unat c" by (simp add: is_digit_def word_le_nat_alt)
  then show ?thesis by (simp add: of_nat_diff)
qed

lemma serial_value_digits:
  "\<forall>c\<in>set cs. is_digit c \<Longrightarrow>
   serial_value (of_nat n) cs = of_nat (foldl (\<lambda>n c. n * 10 + (unat c - 48)) n cs)"
proof (induction cs arbitrary: n)
  case (Cons c cs)
  then have "serial_value (of_nat n) (c # cs) = serial_value (of_nat (n * 10 + (unat c - 48))) cs"
    by (simp add: digit_value)
  with Cons.IH [of "n * 10 + (unat c - 48)"] Cons.prems show ?case by simp
qed simp

lemma serial_value_other: "\<exists>c\<in>set cs. \<not> is_digit c \<Longrightarrow> serial_value n cs = 0"
  by (induction n cs rule: serial_value.induct) auto

lemma dec_bound: "\<forall>c\<in>set cs. is_digit c \<Longrightarrow> dec cs < 10 ^ length cs"
proof (induction cs rule: rev_induct)
  case (snoc c cs)
  have "unat c - 48 \<le> 9" using snoc.prems by (auto simp: is_digit_def word_le_nat_alt)
  moreover have "dec cs < 10 ^ length cs" using snoc by simp
  ultimately show ?case by (simp add: dec_def)
qed (simp add: dec_def)

lemma serial_value_dec:
  assumes "length cs = 9"
  shows "serial_value 0 cs = (if good_serial cs then of_nat (dec cs) else 0)"
    "good_serial cs \<Longrightarrow> serial_value 0 cs \<noteq> 0"
proof -
  show v: "serial_value 0 cs = (if good_serial cs then of_nat (dec cs) else 0)"
    using serial_value_digits [of cs 0] serial_value_other [of cs 0] by (cases "\<forall>c\<in>set cs. is_digit c") (auto simp: good_serial_def dec_def)
  assume g: "good_serial cs"
  then have "dec cs < 2 ^ 32" "dec cs \<noteq> 0"
    using dec_bound [of cs] assms by (auto simp: good_serial_def)
  then have "unat (of_nat (dec cs) :: INT32U) \<noteq> 0" by (simp add: unat_of_nat)
  then show "serial_value 0 cs \<noteq> 0" using v g by auto
qed

lemma get_serial_number_try:
  assumes "8 \<notin> set cs" "length cs = 9" "length serial = 9"
  shows "get_serial_number serial (cs @ rest) =
     (if good_serial cs then Some (of_nat (dec cs), rest) else get_serial_number cs rest)"
proof -
  have "read_serial 0 serial (cs @ rest) = Some (cs, rest)"
    using read_serial_nine [of cs 0 serial rest] assms by simp
  then show ?thesis
    using serial_value_dec [OF assms(2)] by (subst get_serial_number.simps) simp
qed

text \<open>C34: The prompt for the serial number repeats until nine digits of a number that is not 0 are
  typed; then it returns that number and reads nothing more.\<close>

theorem get_serial_number_returns:
  assumes "\<forall>a\<in>set bad. length a = 9 \<and> 8 \<notin> set a \<and> \<not> good_serial a"
    and "length s = 9" "good_serial s" "length serial = 9"
  shows "get_serial_number serial (concat bad @ s @ rest) = Some (of_nat (dec s), rest)"
  using assms(1,4)
proof (induction bad arbitrary: serial)
  case Nil
  have "8 \<notin> set s" using assms(3) by (auto simp: good_serial_def is_digit_def)
  with Nil show ?case using assms(2,3) by (simp add: get_serial_number_try)
next
  case (Cons a bad)
  then show ?case using get_serial_number_try [of a serial "concat bad @ s @ rest"] by simp
qed

theorem get_serial_number_returns_witness:
  "get_serial_number (replicate 9 0) ([0x30, 0x30, 0x30, 0x30, 0x30, 0x30, 0x30, 0x30, 0x30] @ [0x30, 0x34, 0x30, 0x38, 0x30, 0x30, 0x30, 0x31, 0x37] @ [10])
   = Some (40800017, [10])"
  using get_serial_number_returns
    [of "[[0x30, 0x30, 0x30, 0x30, 0x30, 0x30, 0x30, 0x30, 0x30]]" "[0x30, 0x34, 0x30, 0x38, 0x30, 0x30, 0x30, 0x31, 0x37]" "replicate 9 0" "[10]"]
  by (simp add: good_serial_def is_digit_def dec_def)

section \<open>The MAC address\<close>

lemma serial_mac_bytes: "serial_mac n = [0x00, 0x07, 0xED, 0xFF, ucast (drop_bit 8 n), ucast n]"
proof -
  have m: "(0xFF00 :: INT32U) = push_bit 8 (mask 8)" "(0xFF :: INT32U) = mask 8" by (simp_all add: mask_eq_exp_minus_1)
  have "(ucast (drop_bit 8 (n AND push_bit 8 (mask 8))) :: INT8U) = ucast (drop_bit 8 n)"
    by (rule bit_word_eqI) (auto simp: bit_simps)
  moreover have "(ucast (n AND mask 8) :: INT8U) = ucast n"
    by (rule bit_word_eqI) (auto simp: bit_simps)
  ultimately show ?thesis unfolding serial_mac_def m by simp
qed

lemma bytes_eq_iff:
  fixes m n :: INT32U
  shows "(ucast (drop_bit 8 n) :: INT8U) = ucast (drop_bit 8 m) \<and> (ucast n :: INT8U) = ucast m \<longleftrightarrow>
    unat n mod 2 ^ 16 = unat m mod 2 ^ 16"
proof -
  have e: "(ucast x :: INT8U) = ucast y \<longleftrightarrow> unat x mod 2 ^ 8 = unat y mod 2 ^ 8" for x y :: INT32U
    by (simp add: word_unat_eq_iff unsigned_ucast_eq take_bit_eq_mod)
  have "a div 2 ^ 8 mod 2 ^ 8 = b div 2 ^ 8 mod 2 ^ 8 \<and> a mod 2 ^ 8 = b mod 2 ^ 8 \<longleftrightarrow> a mod 2 ^ 16 = b mod 2 ^ 16" for a b :: nat
  proof -
    have s: "c mod 2 ^ 16 = 2 ^ 8 * (c div 2 ^ 8 mod 2 ^ 8) + c mod 2 ^ 8" for c :: nat
      using mod_mult2_eq [of c "2 ^ 8" "2 ^ 8"] by simp
    show ?thesis
    proof
      assume e: "a mod 2 ^ 16 = b mod 2 ^ 16"
      have "(2 ^ 8 :: nat) dvd 2 ^ 16" by (rule le_imp_power_dvd) simp
      then have "a mod 2 ^ 8 = b mod 2 ^ 8" using e by (metis mod_mod_cancel)
      then show "a div 2 ^ 8 mod 2 ^ 8 = b div 2 ^ 8 mod 2 ^ 8 \<and> a mod 2 ^ 8 = b mod 2 ^ 8"
        using e unfolding s [of a] s [of b] by simp
    qed (simp only: s)
  qed
  then show ?thesis by (simp only: e unat_shr)
qed

text \<open>C35: Two boards get the same MAC address exactly when their serial numbers agree modulo 65536;
  the address of the documentation's example is the one it gives.\<close>

theorem serial_mac_collides:
  "(serial_mac n = serial_mac m \<longleftrightarrow> unat n mod 2 ^ 16 = unat m mod 2 ^ 16) \<and>
   serial_mac 40800017 = [0x00, 0x07, 0xED, 0xFF, 0x8F, 0x11]"
  using bytes_eq_iff [of n m] by (simp add: serial_mac_bytes)

section \<open>The settings in the flash\<close>

lemma read_written:
  assumes "\<forall>i<32. read_flash dev f (a + i) = flash_content n ! i"
  shows "read_32 dev f a = 0x00005AFE" "read_mac dev f a = serial_mac n"
proof -
  have r: "i < 32 \<Longrightarrow> read_flash dev f (a + i) = flash_content n ! i" for i using assms by blast
  have c: "flash_content n ! 0 = 0xFE" "flash_content n ! Suc 0 = 0x5A" "flash_content n ! 2 = 0" "flash_content n ! 3 = 0"
    by (simp_all add: flash_content_def)
  have r0: "read_flash dev f a = flash_content n ! 0" using r [of 0] by simp
  show "read_32 dev f a = 0x00005AFE" unfolding read_32_def using r [of 1] r [of 2] r [of 3] by (simp add: r0 c)
  show "read_mac dev f a = serial_mac n" by (simp add: read_mac_def r) (simp add: flash_content_def serial_mac_def)
qed

text \<open>
  The flash driver keeps what it writes: the documented effect of \<open>alt_write_flash\<close> on the bytes
  that are read afterwards.
\<close>

definition flash_keeps :: "'f flash_dev \<Rightarrow> bool" where
  "flash_keeps dev \<longleftrightarrow>
     (\<forall>a bs f i. i < length bs \<longrightarrow> read_flash dev (write_flash dev a bs f) (a + i) = bs ! i)"

lemma stored_content:
  assumes "flash_keeps dev" "generate_and_store_mac_addr dev a serial inp f = Some (0, inp', f')"
  shows "read_32 dev f' a = 0x00005AFE"
proof -
  obtain n where f': "f' = write_flash dev a (flash_content n) f"
    using assms(2) by (auto simp: generate_and_store_mac_addr_def split: bind_splits if_splits)
  have "length (flash_content n) = 32" by (simp add: flash_content_def serial_mac_def)
  then show ?thesis using assms(1) by (intro read_written(1) [of dev f' a n]) (simp add: flash_keeps_def f')
qed

text \<open>C36: The MAC address survives a reboot: once the board has read or made one, the next boot
  finds it in the flash, asks for nothing and leaves the flash alone.\<close>

theorem get_board_mac_addr_stable:
  assumes "flash_keeps dev" "get_board_mac_addr dev serial inp mac f = Some (0, m, inp', f')"
  shows "get_board_mac_addr dev serial2 inp2 mac2 f' = Some (0, m, inp2, f')"
proof -
  obtain e off where o: "FindLastFlashSectorOffset dev = Some (e, off)"
    using assms(2) by (auto simp: get_board_mac_addr_def split: bind_splits)
  show ?thesis
  proof (cases off)
    case None
    then show ?thesis using o assms(2)
      by (auto simp: get_board_mac_addr_def FindLastFlashSectorOffset_def Let_def split: if_splits list.splits)
  next
    case (Some ofs)
    have e: "e = 0" using o Some by (auto simp: FindLastFlashSectorOffset_def Let_def split: if_splits list.splits)
    have "m = read_mac dev f' (nat ofs)"
      using assms(2) o Some by (auto simp: get_board_mac_addr_def Let_def split: if_splits bind_splits)
    moreover have "read_32 dev f' (nat ofs) = 0x00005AFE"
    proof (cases "read_32 dev f (nat ofs) = 0x00005AFE")
      case True
      then show ?thesis using assms(2) o Some e by (auto simp: get_board_mac_addr_def Let_def)
    next
      case False
      then show ?thesis using assms o Some e
        by (auto simp: get_board_mac_addr_def Let_def split: bind_splits if_splits intro!: stored_content)
    qed
    ultimately show ?thesis using o Some e by (simp add: get_board_mac_addr_def)
  qed
qed

text \<open>A flash of one region whose contents are a function.\<close>

definition demo_flash :: "(nat \<Rightarrow> INT8U) flash_dev" where
  "demo_flash = \<lparr>fd_ok = True, info_err = 0, regions = [\<lparr>r_offset = 0, region_size = 128, block_size = 64\<rparr>],
     write_flash = (\<lambda>a bs f i. if a \<le> i \<and> i < a + length bs then bs ! (i - a) else f i),
     read_flash = (\<lambda>f a. f a)\<rparr>"

lemma demo_flash_keeps: "flash_keeps demo_flash"
  by (simp add: flash_keeps_def demo_flash_def)

theorem get_board_mac_addr_stable_witness:
  "\<exists>f'. get_board_mac_addr demo_flash (replicate 9 0) [0x31, 0x31, 0x31, 0x31, 0x31, 0x31, 0x31, 0x31, 0x31]
       (replicate 6 0) (\<lambda>_. 0xFF) = Some (0, serial_mac 111111111, [], f') \<and>
     get_board_mac_addr demo_flash [] [] [] f' = Some (0, serial_mac 111111111, [], f')"
proof -
  let ?s = "[0x31, 0x31, 0x31, 0x31, 0x31, 0x31, 0x31, 0x31, 0x31] :: INT8U list"
  have "get_serial_number (replicate 9 0) (?s @ []) = Some (of_nat (dec ?s), [])"
    by (subst get_serial_number_try) (simp_all add: good_serial_def is_digit_def dec_def)
  then have s: "get_serial_number (replicate 9 0) ?s = Some (111111111, [])" by (simp add: dec_def)
  let ?f = "write_flash demo_flash 64 (flash_content 111111111) (\<lambda>_. 0xFF)"
  have "length (flash_content 111111111) = 32" by (simp add: flash_content_def serial_mac_def)
  then have r: "read_mac demo_flash ?f 64 = serial_mac 111111111"
    using demo_flash_keeps by (intro read_written(2)) (simp add: flash_keeps_def)
  have o: "FindLastFlashSectorOffset demo_flash = Some (0, Some 64)"
    by (simp add: FindLastFlashSectorOffset_def demo_flash_def Let_def)
  have u: "read_32 demo_flash (\<lambda>_. 0xFF) 64 \<noteq> 0x00005AFE"
    by (simp add: read_32_def demo_flash_def)
  have g: "get_board_mac_addr demo_flash (replicate 9 0) ?s (replicate 6 0) (\<lambda>_. 0xFF) =
      Some (0, serial_mac 111111111, [], ?f)"
    using u by (simp add: get_board_mac_addr_def o generate_and_store_mac_addr_def s r) (simp add: demo_flash_def)
  then show ?thesis using get_board_mac_addr_stable [OF demo_flash_keeps g] by blast
qed

text \<open>C37: \<open>get_DE2_115_mac_addr\<close>, which the DE2-115 uses, reads the six bytes as a MAC address
  even when the sector has no valid signature.\<close>

theorem get_DE2_115_mac_addr_unchecked:
  assumes "fd_ok dev" "info_err dev = 0" "regions dev = r # rs"
  shows "\<exists>p\<in>set (regions dev). (\<forall>q\<in>set (regions dev). r_offset q \<le> r_offset p) \<and>
     get_DE2_115_mac_addr dev mac f = Some (0, read_mac dev f (nat (r_offset p + region_size p - block_size p)))"
proof -
  have l: "last_region p qs \<in> insert p (set qs) \<and> (\<forall>q\<in>insert p (set qs). r_offset q \<le> r_offset (last_region p qs))"
    for p qs
  proof (induction p qs rule: last_region.induct)
    case (2 p r rs)
    then show ?case by (cases "r_offset r > r_offset p") force+
  qed simp
  show ?thesis
    using l [of r rs] assms
    by (intro bexI [of _ "last_region r rs"]) (simp_all add: get_DE2_115_mac_addr_def FindLastFlashSectorOffset_def Let_def)
qed

theorem get_DE2_115_mac_addr_unchecked_witness:
  "get_DE2_115_mac_addr demo_flash (replicate 6 0) (\<lambda>_. 0xFF) = Some (0, replicate 6 0xFF)"
  using get_DE2_115_mac_addr_unchecked
    [of demo_flash "\<lparr>r_offset = 0, region_size = 128, block_size = 64\<rparr>" "[]" "replicate 6 0" "\<lambda>_. 0xFF"]
  by (simp add: demo_flash_def read_mac_def numeral_eq_Suc)

end
