(* ===== verification/Dm9000a.thy ===== *)
theory Dm9000a
  imports Prelude
begin

text \<open>
  The driver of the DM9000A Ethernet controller, \<^verbatim>\<open>server1/dm9000a.c\<close>, without the
  \<open>NicheStack\<close> structures it fills in. The controller has two ports, an index (0) and a data port
  (1). An operation takes what the data port will deliver, one word for each read, and gives the
  list of accesses it makes; it is \<open>None\<close> when it accesses memory outside a buffer, or when it
  reads on after the given words.
\<close>

section \<open>Ports\<close>

datatype access = Wr nat INT32U | Rd nat | Delay nat

abbreviation NCR :: INT32U where "NCR \<equiv> 0x00"
abbreviation NSR :: INT32U where "NSR \<equiv> 0x01"
abbreviation TCR :: INT32U where "TCR \<equiv> 0x02"
abbreviation RCR :: INT32U where "RCR \<equiv> 0x05"
abbreviation ETXCSR :: INT32U where "ETXCSR \<equiv> 0x30"
abbreviation MRCMDX :: INT32U where "MRCMDX \<equiv> 0xF0"
abbreviation MRCMD :: INT32U where "MRCMD \<equiv> 0xF2"
abbreviation MWCMD :: INT32U where "MWCMD \<equiv> 0xF8"
abbreviation ISR :: INT32U where "ISR \<equiv> 0xFE"
abbreviation IMR :: INT32U where "IMR \<equiv> 0xFF"
abbreviation PAR_set :: INT32U where "PAR_set \<equiv> 0x80"
abbreviation INTR_set :: INT32U where "INTR_set \<equiv> 0x81"
abbreviation IO_addr :: nat where "IO_addr \<equiv> 0"
abbreviation IO_data :: nat where "IO_data \<equiv> 1"
abbreviation STD_DELAY :: nat where "STD_DELAY \<equiv> 1"
abbreviation DMFE_SUCCESS :: INT32U where "DMFE_SUCCESS \<equiv> 0"
abbreviation DMFE_FAIL :: INT32U where "DMFE_FAIL \<equiv> 1"
abbreviation MAX_PACKET_SIZE :: INT32U where "MAX_PACKET_SIZE \<equiv> 1522"
abbreviation ETHHDR_BIAS :: nat where "ETHHDR_BIAS \<equiv> 2"
abbreviation ETHHDR_SIZE :: nat where "ETHHDR_SIZE \<equiv> 16"

definition dm9000a_iow :: "INT32U \<Rightarrow> INT32U \<Rightarrow> access list" where
  "dm9000a_iow reg data = [Wr IO_addr reg, Delay STD_DELAY, Wr IO_data data]"

text \<open>The accesses of a read, and the word it delivers: the next of \<open>inp\<close>.\<close>

fun next_word :: "INT32U list \<Rightarrow> (INT32U \<times> INT32U list) option" where
  "next_word [] = None"
| "next_word (w # inp) = Some (w, inp)"

definition ior_access :: "INT32U \<Rightarrow> access list" where
  "ior_access reg = [Wr IO_addr reg, Delay STD_DELAY, Rd IO_data]"

definition dm9000a_ior :: "INT32U \<Rightarrow> INT32U list \<Rightarrow> (INT32U \<times> access list \<times> INT32U list) option" where
  "dm9000a_ior reg inp = do { (w, inp) \<leftarrow> next_word inp; Some (w, ior_access reg, inp) }"

definition phy_write :: "INT32U \<Rightarrow> INT32U \<Rightarrow> access list" where
  "phy_write reg val =
     dm9000a_iow 0x0C (reg OR 0x40) @
     dm9000a_iow 0x0E (drop_bit 8 val AND 0xFF) @ dm9000a_iow 0x0D (val AND 0xFF) @
     dm9000a_iow 0x0B 0x8 @ [Wr IO_data 0x0A, Delay STD_DELAY, Wr IO_data 0x08, Delay 50]"

section \<open>Reset\<close>

text \<open>The sequence that resets the chip and returns it to loopback-free mode.\<close>

definition ncr_reset :: "access list" where
  "ncr_reset = dm9000a_iow NCR 0x03 @ [Delay 20] @ dm9000a_iow NCR 0x00 @ dm9000a_iow NCR 0x03 @ [Delay 20] @
     dm9000a_iow NCR 0x00"

definition chip_config :: "access list" where
  "chip_config = dm9000a_iow NCR 0x00 @ dm9000a_iow 0x08 0x3F @ dm9000a_iow 0x09 0x5A @ dm9000a_iow 0x0A 0x29 @
     dm9000a_iow 0x0F 0x00"

definition chip_enable :: "access list" where
  "chip_enable = dm9000a_iow ETXCSR 0x83 @ dm9000a_iow IMR INTR_set @ dm9000a_iow RCR (0x30 OR 0x01 OR 0x08)"

fun write_mac :: "INT32U \<Rightarrow> INT8U list \<Rightarrow> access list" where
  "write_mac reg [] = []"
| "write_mac reg (b # bs) = dm9000a_iow reg (ucast b) @ write_mac (reg + 1) bs"

definition dm9000a_reset :: "INT8U list \<Rightarrow> INT32U list \<Rightarrow> (INT32U \<times> access list \<times> INT32U list) option" where
  "dm9000a_reset mac_address inp =
     (if length mac_address < 6 then None
      else do {
        (w, acc, inp) \<leftarrow> dm9000a_ior 0x2D inp;
        Some (if w = 0x80 then DMFE_SUCCESS else DMFE_FAIL,
          dm9000a_iow 0x1E 0x01 @ dm9000a_iow 0x1F 0x00 @ [Delay 10000] @ ncr_reset @
          dm9000a_iow ISR 0x3F @ dm9000a_iow NSR 0x2C @
          dm9000a_iow 0x1F 0x01 @ dm9000a_iow 0x1F 0x00 @ [Delay 20000] @
          phy_write 0 0x8000 @ [Delay 50] @ phy_write 16 0x404 @ phy_write 4 0x05E1 @ phy_write 0 0x1200 @
          [Delay 20000] @ write_mac 16 (take 6 mac_address) @
          dm9000a_iow ISR 0x3F @ dm9000a_iow NSR 0x2C @ chip_config @ chip_enable @ acc, inp) })"

section \<open>Transmission\<close>

text \<open>The words of a packet, low byte first; the byte after the last one of an odd packet is read too.\<close>

fun tx_words :: "INT8U list \<Rightarrow> nat \<Rightarrow> INT32U list option" where
  "tx_words data 0 = Some []"
| "tx_words (b0 # b1 # data) (Suc n) =
     map_option (Cons (push_bit 8 (ucast b1) OR ucast b0)) (tx_words data (n - 1))"
| "tx_words data (Suc n) = None"

text \<open>The wait for the end of the transmission: read until one of the bits 2 and 3 of NSR is set.\<close>

fun tx_wait :: "INT32U list \<Rightarrow> (access list \<times> INT32U list) option" where
  "tx_wait [] = None"
| "tx_wait (w # inp) =
     (if w AND 0x0C \<noteq> 0 then Some (ior_access NSR, inp)
      else map_option (\<lambda>(acc, inp). (ior_access NSR @ [Delay STD_DELAY] @ acc, inp)) (tx_wait inp))"

definition TransmitPacket ::
  "INT8U list \<Rightarrow> INT32U \<Rightarrow> INT32U list \<Rightarrow> (INT32U \<times> access list \<times> INT32U list) option" where
  "TransmitPacket data_ptr tx_len inp = do {
     ws \<leftarrow> tx_words data_ptr (unat tx_len);
     (acc, inp) \<leftarrow> tx_wait inp;
     Some (DMFE_SUCCESS,
       dm9000a_iow IMR PAR_set @
       dm9000a_iow 0xFD (drop_bit 8 tx_len AND 0xFF) @ dm9000a_iow 0xFC (tx_len AND 0xFF) @
       [Wr IO_addr MWCMD] @ concat (map (\<lambda>w. [Delay STD_DELAY, Wr IO_data w]) ws) @
       dm9000a_iow TCR 0x01 @ acc @ dm9000a_iow NSR 0x00 @ dm9000a_iow IMR INTR_set, inp) }"

text \<open>
  \<open>dm9ka_pkt_send\<close>: the packet starts \<open>ETHHDR_BIAS\<close> bytes into \<open>nb_prot\<close>; \<open>nb_prot\<close> is given as
  the memory from there to the end of the packet's buffer. The result has the lengths that are
  added to the counters \<open>ifOutOctets\<close>, \<open>ifOutNUcastPkts\<close> and \<open>ifOutUcastPkts\<close>.
\<close>

definition send_len :: "INT32U \<Rightarrow> INT32U" where
  "send_len nb_plen = (let slen = nb_plen - of_nat ETHHDR_BIAS in if slen < 64 then 64 else slen)"

definition dm9ka_pkt_send ::
  "INT8U list \<Rightarrow> INT32U \<Rightarrow> INT32U list \<Rightarrow> ((INT32U \<times> INT32U \<times> INT32U) \<times> access list \<times> INT32U list) option" where
  "dm9ka_pkt_send nb_prot nb_plen inp = do {
     (rv, acc, inp) \<leftarrow> TransmitPacket (drop ETHHDR_BIAS nb_prot) (send_len nb_plen) inp;
     first \<leftarrow> (case nb_prot of [] \<Rightarrow> None | b # _ \<Rightarrow> Some b);
     Some (if rv = DMFE_SUCCESS
           then (nb_plen, if first AND 0x80 \<noteq> 0 then 1 else 0, if first AND 0x80 \<noteq> 0 then 0 else 1)
           else (0, 0, 0), acc, inp) }"

section \<open>Reception\<close>

definition dm9000a_rxReady :: "INT32U list \<Rightarrow> (INT32U \<times> access list \<times> INT32U list) option" where
  "dm9000a_rxReady inp = do {
     (_, acc, inp) \<leftarrow> dm9000a_ior MRCMDX inp;
     (w, inp) \<leftarrow> next_word inp;
     Some (w AND 0x03, acc @ [Rd IO_data], inp) }"

text \<open>Reading the words of a packet of \<open>n\<close> bytes, two bytes each.\<close>

fun rx_bytes :: "nat \<Rightarrow> INT32U list \<Rightarrow> (INT8U list \<times> access list \<times> INT32U list) option" where
  "rx_bytes 0 inp = Some ([], [], inp)"
| "rx_bytes (Suc n) [] = None"
| "rx_bytes (Suc n) (w # inp) =
     map_option (\<lambda>(bs, acc, inp). (ucast (w AND 0xFF) # ucast (drop_bit 8 w AND 0xFF) # bs,
                                   [Delay STD_DELAY, Rd IO_data] @ acc, inp)) (rx_bytes (n - 1) inp)"

text \<open>
  A received packet: its buffer, the offset of its payload and its length as the driver sets them.
  \<open>pk_alloc\<close> is the allocator of the stack: the size of the buffer it gives for a request, or no
  buffer.
\<close>

record packet =
  nb_buff :: "INT8U list"
  nb_prot :: nat
  nb_plen :: INT32U

definition rx_packet :: "(nat \<Rightarrow> nat option) \<Rightarrow> INT32U \<Rightarrow> INT8U list \<Rightarrow> packet option option" where
  "rx_packet pk_alloc rx_len bs =
     (case pk_alloc (unat rx_len + ETHHDR_BIAS) of
        None \<Rightarrow> Some None
      | Some n \<Rightarrow>
          if ETHHDR_BIAS + length bs \<le> n
          then Some (Some \<lparr>nb_buff = replicate ETHHDR_BIAS 0 @ bs @ replicate (n - ETHHDR_BIAS - length bs) 0,
                           nb_prot = ETHHDR_SIZE, nb_plen = rx_len - 14\<rparr>)
          else None)"

text \<open>
  The loop of the interrupt handler: the packets it queues, the number it discards, and the last
  value of \<open>rx_rdy\<close>.
\<close>

partial_function (option) rx_loop :: "(nat \<Rightarrow> nat option) \<Rightarrow> INT32U \<Rightarrow> INT32U list \<Rightarrow>
    (packet list \<times> nat \<times> INT32U \<times> access list \<times> INT32U list) option" where
  "rx_loop pk_alloc rx_rdy inp =
     (if rx_rdy \<noteq> 1 then Some ([], 0, rx_rdy, [], inp)
      else do {
        (rx_sts, inp) \<leftarrow> next_word inp;
        (rx_len, inp) \<leftarrow> next_word inp;
        (bs, acc1, inp) \<leftarrow> rx_bytes (unat rx_len) inp;
        r \<leftarrow> (if rx_sts AND 0xBF00 = 0 \<and> rx_len < MAX_PACKET_SIZE then rx_packet pk_alloc rx_len bs else Some None);
        (rx_rdy, acc2, inp) \<leftarrow> dm9000a_rxReady inp;
        (ps, d, rx_rdy, acc3, inp) \<leftarrow> rx_loop pk_alloc rx_rdy inp;
        Some (case r of None \<Rightarrow> ps | Some p \<Rightarrow> p # ps,
              if r = None \<and> rx_sts AND 0xBF00 = 0 \<and> rx_len < MAX_PACKET_SIZE then d + 1 else d, rx_rdy,
              [Wr IO_addr MRCMD, Delay STD_DELAY, Rd IO_data, Delay STD_DELAY, Rd IO_data] @ acc1 @
              [Delay STD_DELAY] @ acc2 @ [Delay STD_DELAY] @ acc3, inp) })"

definition dm9000a_isr :: "(nat \<Rightarrow> nat option) \<Rightarrow> INT32U list \<Rightarrow>
    (packet list \<times> nat \<times> access list \<times> INT32U list) option" where
  "dm9000a_isr pk_alloc inp = do {
     (istatus, acc1, inp) \<leftarrow> dm9000a_ior ISR inp;
     (rx_rdy, acc2, inp) \<leftarrow> dm9000a_rxReady inp;
     (ps, d, rx_rdy, acc3, inp) \<leftarrow> rx_loop pk_alloc rx_rdy inp;
     Some (ps, d, dm9000a_iow IMR PAR_set @ acc1 @ acc2 @ [Delay STD_DELAY] @ acc3 @
       (if rx_rdy AND 0x02 \<noteq> 0
        then ncr_reset @ chip_config @ dm9000a_iow 0x2D 0x80 @ chip_enable else []) @
       dm9000a_iow ISR 0x3F @ dm9000a_iow IMR INTR_set, inp) }"

definition close_access :: "access list" where
  "close_access = ncr_reset @ dm9000a_iow IMR 0x00 @ dm9000a_iow RCR 0x00 @ dm9000a_iow 0x0F 0x00"

section \<open>Words and bytes of a packet\<close>

lemma low_byte: "(ucast ((push_bit 8 (ucast b1) OR ucast b0 :: INT32U) AND 0xFF) :: INT8U) = b0"
proof -
  have m: "(0xFF :: INT32U) = mask 8" by (simp add: mask_eq_exp_minus_1)
  show ?thesis unfolding m by (rule bit_word_eqI) (auto simp: bit_simps)
qed

lemma high_byte:
  fixes b0 b1 :: INT8U
  shows "(ucast (drop_bit 8 (push_bit 8 (ucast b1) OR ucast b0 :: INT32U) AND 0xFF) :: INT8U) = b1"
proof -
  have m: "(0xFF :: INT32U) = mask 8" by (simp add: mask_eq_exp_minus_1)
  have "\<not> bit b0 (8 + n)" for n :: nat using bit_imp_le_length [of b0 "8 + n"] by auto
  then show ?thesis unfolding m by (intro bit_word_eqI) (auto simp: bit_simps)
qed

text \<open>The words cover the bytes up to the next even number.\<close>

lemma even_up: "Suc n + Suc n mod 2 = Suc (Suc (n - 1 + (n - 1) mod 2))"
  by (cases n) (auto simp: mod_Suc)

lemma tx_words_some: "tx_words data n \<noteq> None \<longleftrightarrow> n + n mod 2 \<le> length data"
proof (induction data n rule: tx_words.induct)
  case (2 b0 b1 data n)
  then show ?case unfolding even_up by simp
qed (unfold even_up, simp_all)

lemma tx_words_rx_bytes:
  "tx_words data n = Some ws \<Longrightarrow>
   \<exists>acc. rx_bytes n (ws @ inp) = Some (take (n + n mod 2) data, acc, inp)"
proof (induction data n arbitrary: ws rule: tx_words.induct)
  case (2 b0 b1 data n)
  then obtain ws' where w: "tx_words data (n - 1) = Some ws'"
      "ws = (push_bit 8 (ucast b1) OR ucast b0) # ws'" by auto
  obtain acc where a: "rx_bytes (n - 1) (ws' @ inp) = Some (take (n - 1 + (n - 1) mod 2) data, acc, inp)"
    using 2 w(1) by blast
  show ?case unfolding even_up using a by (simp add: w(2) low_byte high_byte del: drop_bit_or)
qed simp_all

text \<open>C38: A packet that is sent as words and received from these words is the same, for any length:
  an odd packet gets the byte behind it too.\<close>

theorem packet_roundtrip:
  assumes "n + n mod 2 \<le> length data"
  shows "\<exists>ws acc. tx_words data n = Some ws \<and> rx_bytes n (ws @ inp) = Some (take (n + n mod 2) data, acc, inp)"
  using assms tx_words_some [of data n] tx_words_rx_bytes [of data n _ inp] by force

theorem packet_roundtrip_witness:
  "\<exists>ws acc. tx_words [1, 2, 3, 4] 3 = Some ws \<and> rx_bytes 3 (ws @ [9]) = Some ([1, 2, 3, 4], acc, [9])"
  using packet_roundtrip [of 3 "[1, 2, 3, 4]" "[9]"] by simp

section \<open>Transmission\<close>

text \<open>C39: A packet goes out only when the memory behind its start holds 64 bytes, or its length
  rounded up to an even number: short packets are padded with whatever follows them.\<close>

theorem dm9ka_pkt_send_reads:
  assumes "dm9ka_pkt_send start plen inp = Some r"
  shows "66 \<le> length start \<and>
    (let n = unat (send_len plen) in 64 \<le> n \<and> ETHHDR_BIAS + n + n mod 2 \<le> length start)"
proof -
  let ?n = "unat (send_len plen)"
  have 64: "64 \<le> ?n"
  proof (cases "plen - 2 < 64")
    case True
    then show ?thesis by (simp add: send_len_def)
  next
    case False
    then have "unat (64 :: INT32U) \<le> unat (plen - 2)" by (simp only: word_le_nat_alt [symmetric] not_less)
    then show ?thesis using False by (simp add: send_len_def)
  qed
  have "tx_words (drop ETHHDR_BIAS start) ?n \<noteq> None"
    using assms by (auto simp: dm9ka_pkt_send_def TransmitPacket_def split: bind_splits)
  then have "?n + ?n mod 2 \<le> length start - 2" by (simp only: tx_words_some length_drop)
  then have "?n + ?n mod 2 + 2 \<le> length start" using 64 by linarith
  then show ?thesis using 64 by (simp add: Let_def)
qed

text \<open>The accesses of a transmission: interrupts masked first and unmasked last.\<close>

lemma tx_wait_accesses: "tx_wait inp = Some (acc, inp') \<Longrightarrow> \<forall>x\<in>set acc. x = Wr IO_addr NSR \<or> x = Delay STD_DELAY \<or> x = Rd IO_data"
  by (induction inp arbitrary: acc rule: tx_wait.induct) (auto simp: ior_access_def split: if_splits)

theorem dm9ka_pkt_send_reads_witness:
  "dm9ka_pkt_send (replicate 66 1) 16 [4] \<noteq> None \<and> dm9ka_pkt_send (replicate 64 1) 16 [4] = None"
proof -
  have n: "unat (send_len 16) = 64" by (simp add: send_len_def)
  have "tx_words (drop 2 (replicate 66 1)) 64 \<noteq> None" by (subst tx_words_some) simp
  then obtain ws where ws: "tx_words (replicate 64 1) 64 = Some ws" by auto
  obtain r where r: "dm9ka_pkt_send (replicate 66 1) 16 [4] = Some r"
    by (simp add: dm9ka_pkt_send_def TransmitPacket_def n ws) (simp add: numeral_eq_Suc)
  have "66 \<le> length (replicate 64 (1 :: INT8U))" if "dm9ka_pkt_send (replicate 64 1) 16 [4] = Some r" for r
    using dm9ka_pkt_send_reads [OF that] by (rule conjunct1)
  then have "dm9ka_pkt_send (replicate 64 1) 16 [4] = None" by (cases "dm9ka_pkt_send (replicate 64 1) 16 [4]") auto
  with r show ?thesis by simp
qed

section \<open>Reception\<close>

lemma rx_bytes_length: "rx_bytes n inp = Some (bs, acc, inp') \<Longrightarrow> length bs = n + n mod 2"
proof (induction n inp arbitrary: bs acc rule: rx_bytes.induct)
  case (3 n w inp)
  then show ?case unfolding even_up by auto
qed simp_all

text \<open>C40: The bytes of a received packet go past the end of its buffer exactly when the buffer is
  smaller than the length rounded up to an even number, so an odd packet overruns a buffer of the size
  the driver asks for; the length the stack gets wraps around for a packet shorter than a header.\<close>

theorem rx_packet_overruns:
  assumes "rx_bytes (unat rx_len) inp = Some (bs, acc, inp')" "pk_alloc (unat rx_len + ETHHDR_BIAS) = Some m"
  shows "(rx_packet pk_alloc rx_len bs = None \<longleftrightarrow> m < ETHHDR_BIAS + unat rx_len + unat rx_len mod 2) \<and>
    (\<forall>p. rx_packet pk_alloc rx_len bs = Some (Some p) \<and> rx_len < 14 \<longrightarrow> unat (nb_plen p) = unat rx_len + 2 ^ 32 - 14)"
proof
  show "rx_packet pk_alloc rx_len bs = None \<longleftrightarrow> m < ETHHDR_BIAS + unat rx_len + unat rx_len mod 2"
    using rx_bytes_length [OF assms(1)] assms(2) by (simp add: rx_packet_def)
  have "unat (rx_len - 14) = unat rx_len + 2 ^ 32 - 14" if "rx_len < 14"
    using that by (simp add: unat_sub_if_size word_less_nat_alt size_word_def)
  then show "\<forall>p. rx_packet pk_alloc rx_len bs = Some (Some p) \<and> rx_len < 14 \<longrightarrow> unat (nb_plen p) = unat rx_len + 2 ^ 32 - 14"
    using assms(2) by (auto simp: rx_packet_def split: if_splits)
qed

theorem rx_packet_overruns_witness:
  "rx_packet Some 15 (replicate 16 0) = None \<and> rx_packet Some 14 (replicate 14 0) \<noteq> None"
proof -
  have b: "\<exists>acc. rx_bytes 15 (replicate 8 0) = Some (replicate 16 0, acc, [])"
    "\<exists>acc. rx_bytes 14 (replicate 7 0) = Some (replicate 14 0, acc, [])"
    by (simp_all add: numeral_eq_Suc)
  then obtain a1 a2 where "rx_bytes (unat (15 :: INT32U)) (replicate 8 0) = Some (replicate 16 0, a1, [])"
      "rx_bytes (unat (14 :: INT32U)) (replicate 7 0) = Some (replicate 14 0, a2, [])" by auto
  note r = rx_packet_overruns [OF this(1), of Some 17] rx_packet_overruns [OF this(2), of Some 16]
  then show ?thesis by simp
qed

end
