(* ===== verification/Quat_Client.thy ===== *)
theory Quat_Client
  imports Half_Float Socket_Server
begin

text \<open>
  The quaternion client: \<open>SSSInitialTask\<close> and \<open>main\<close> of \<^verbatim>\<open>server1/iniche_init.c\<close>, and the LCD,
  \<^verbatim>\<open>server1/LCD.c\<close>. What a function does to the world is a list of \<open>io\<close>; a function is \<open>None\<close>
  when it reads or writes outside an object. The socket library and the quaternion unit of the FPGA
  are parameters: the results of \<open>recv\<close>, \<open>send\<close> and of the reads of the unit.
\<close>

section \<open>Effects\<close>

datatype lcd = Cmd INT8U | Data INT8U

datatype io = Lcd lcd | Usleep nat | IOWR nat INT32U | IORD nat | Net net_out | Exit

section \<open>The LCD\<close>

definition lcd_do :: "lcd \<Rightarrow> io list" where
  "lcd_do x = [Lcd x, Usleep 2000]"

definition LCD_Init :: "io list" where
  "LCD_Init = lcd_do (Cmd 0x38) @ lcd_do (Cmd 0x0C) @ lcd_do (Cmd 0x01) @ lcd_do (Cmd 0x06) @ lcd_do (Cmd 0x80)"

text \<open>\<open>strlen\<close> of the text that starts at the given memory; None when the object holds no NUL.\<close>

fun strlen :: "INT8U list \<Rightarrow> nat option" where
  "strlen [] = None"
| "strlen (c # s) = (if c = 0 then Some 0 else map_option Suc (strlen s))"

fun show_from :: "nat \<Rightarrow> INT8U list \<Rightarrow> io list" where
  "show_from 0 s = []"
| "show_from (Suc n) [] = []"
| "show_from (Suc n) (c # s) = lcd_do (Data c) @ show_from n s"

definition LCD_Show_Text :: "INT8U list \<Rightarrow> io list option" where
  "LCD_Show_Text t = do { n \<leftarrow> strlen t; Some (show_from n t) }"

definition LCD_Line2 :: "io list" where "LCD_Line2 = lcd_do (Cmd 0xC0)"
definition LCD_Line1 :: "io list" where "LCD_Line1 = lcd_do (Cmd 0x80)"
definition LCD_Clear :: "io list" where "LCD_Clear = lcd_do (Cmd 0x01)"

text \<open>A string literal has a NUL; as the initial value of an array it is cut at the size of the array.\<close>

definition literal :: "string \<Rightarrow> INT8U list" where
  "literal s = ascii s @ [0]"

definition char_array :: "nat \<Rightarrow> string \<Rightarrow> INT8U list" where
  "char_array n s = take n (ascii s @ replicate n 0)"

definition LCD_Test :: "io list option" where
  "LCD_Test = do {
     a \<leftarrow> LCD_Show_Text (char_array 16 ''Placa de logica '');
     b \<leftarrow> LCD_Show_Text (char_array 16 ''Ta trocando essa'');
     Some (LCD_Init @ a @ LCD_Line2 @ b) }"

section \<open>Conversions\<close>

text \<open>
  \<open>IOWR\<close> takes an \<^verbatim>\<open>int\<close>, so a component is converted, towards zero; a value outside the range
  of \<^verbatim>\<open>int\<close> has no defined result: the parameter \<open>oob\<close>. \<open>IORD\<close> gives an \<^verbatim>\<open>int\<close>.
\<close>

definition int_of_float :: "(float32 \<Rightarrow> INT32U) \<Rightarrow> float32 \<Rightarrow> INT32U" where
  "int_of_float oob f =
     (let n = (2 ^ 23 + man32 f) * 2 ^ exp32 f div 2 ^ 150
      in if exp32 f < 127 then 0
         else if exp32 f < 158 then (if sign32 f = 0 then of_nat n else - of_nat n)
         else if exp32 f = 158 \<and> man32 f = 0 \<and> sign32 f = 1 then 0x80000000
         else oob f)"

definition float_of_int :: "INT32U \<Rightarrow> float32" where
  "float_of_int w =
     (if w AND 0x80000000 = 0 then float_of_uint w
      else as_float (0x80000000 OR as_uint (float_of_uint (- w))))"

section \<open>The initial task\<close>

text \<open>
  The memory from the array \<^verbatim>\<open>quaternion[2][4]\<close> on, as cells of four bytes: the eight elements
  of the array and what the compiler placed behind it. Nothing gives the array a value.
\<close>

definition quat_cell :: "nat \<Rightarrow> float32 list \<Rightarrow> float32 option" where
  "quat_cell i frame = (if i < 8 \<and> i < length frame then Some (frame ! i) else None)"

definition send_quat :: "(float32 \<Rightarrow> INT32U) \<Rightarrow> nat \<Rightarrow> float32 list \<Rightarrow> io list option" where
  "send_quat oob r frame = do {
     q0 \<leftarrow> quat_cell (4 * r) frame;
     q1 \<leftarrow> quat_cell (4 * r + 1) frame;
     q2 \<leftarrow> quat_cell (4 * r + 2) frame;
     q3 \<leftarrow> quat_cell (4 * r + 3) frame;
     Some [IOWR r (int_of_float oob q0), IOWR r (int_of_float oob q1),
           IOWR r (int_of_float oob q2), IOWR r (int_of_float oob q3)] }"

text \<open>
  \<open>quaternion[2][0] = IORD(QUAT_0_BASE, 2)\<close>: the element behind the array. It is a fault when the
  memory ends there.
\<close>

definition write_quat2 :: "INT32U \<Rightarrow> float32 list \<Rightarrow> float32 list option" where
  "write_quat2 w frame = (if 8 < length frame then Some (frame[8 := float_of_int w]) else None)"

text \<open>A result of \<open>recv\<close>: None when it is negative.\<close>

definition recv_into :: "INT8U list \<Rightarrow> INT8U list \<Rightarrow> INT8U list option" where
  "recv_into bs buffer = mem_write 0 bs buffer"

text \<open>
  What the environment does in one round of the loop: the results of three calls of \<open>recv\<close>, the
  four words the unit delivers, and whether \<open>send\<close> succeeds.
\<close>

record round_env =
  recv1 :: "INT8U list option"
  recv2 :: "INT8U list option"
  recv3 :: "INT8U list option"
  words :: "INT32U \<times> INT32U \<times> INT32U \<times> INT32U"
  send_ok :: bool

text \<open>The outcome of a round: the next buffer and memory, or None after \<open>exit\<close>.\<close>

definition quat_round :: "(float32 \<Rightarrow> INT32U) \<Rightarrow> int \<Rightarrow> round_env \<Rightarrow> INT8U list \<Rightarrow> float32 list
    \<Rightarrow> ((INT8U list \<times> float32 list) option \<times> io list) option" where
  "quat_round oob sock env buffer frame =
     (case recv1 env of
        None \<Rightarrow> Some (None, [Exit])
      | Some bs1 \<Rightarrow> do {
          buffer \<leftarrow> recv_into bs1 buffer;
          case recv2 env of
            None \<Rightarrow> Some (None, [Exit])
          | Some bs2 \<Rightarrow> do {
              buffer \<leftarrow> recv_into bs2 buffer;
              o1 \<leftarrow> send_quat oob 0 frame;
              (buffer, o2) \<leftarrow> (case recv3 env of
                 None \<Rightarrow> do { t \<leftarrow> LCD_Show_Text (literal ''Conection error quat1''); Some (buffer, t) }
               | Some bs3 \<Rightarrow> do { buffer \<leftarrow> recv_into bs3 buffer; Some (buffer, []) });
              o3 \<leftarrow> send_quat oob 1 frame;
              let (w0, w1, w2, w3) = words env;
              frame \<leftarrow> write_quat2 w0 frame;
              frame \<leftarrow> write_quat2 w1 frame;
              frame \<leftarrow> write_quat2 w2 frame;
              frame \<leftarrow> write_quat2 w3 frame;
              o4 \<leftarrow> (if send_ok env then Some [] else LCD_Show_Text (literal ''Conection error quat2''));
              Some (Some (buffer, frame),
                o1 @ o2 @ o3 @ [Usleep 100000, IORD 2, IORD 2, IORD 2, IORD 2] @ [Net (Send sock buffer)] @ o4) } })"

text \<open>The loop, for as many rounds as the environment gives.\<close>

fun quat_loop :: "(float32 \<Rightarrow> INT32U) \<Rightarrow> int \<Rightarrow> round_env list \<Rightarrow> INT8U list \<Rightarrow> float32 list \<Rightarrow> io list option" where
  "quat_loop oob sock [] buffer frame = Some []"
| "quat_loop oob sock (env # envs) buffer frame = do {
     (next, out) \<leftarrow> quat_round oob sock env buffer frame;
     case next of
       None \<Rightarrow> Some out
     | Some (buffer, frame) \<Rightarrow> do { rest \<leftarrow> quat_loop oob sock envs buffer frame; Some (out @ rest) } }"

text \<open>The task, after the stack is ready; \<open>conn_res\<close> is the result of \<open>connect\<close>.\<close>

definition SSSInitialTask :: "(float32 \<Rightarrow> INT32U) \<Rightarrow> int \<Rightarrow> int \<Rightarrow> round_env list \<Rightarrow> INT8U list \<Rightarrow> float32 list
    \<Rightarrow> io list option" where
  "SSSInitialTask oob sock conn_res envs buffer frame =
     (if conn_res = -1 then Some (LCD_Init @ [Net (Close sock), Exit])
      else do { out \<leftarrow> quat_loop oob sock envs buffer frame; Some (LCD_Init @ out) })"

section \<open>\<open>main\<close>\<close>

abbreviation SSS_INITIAL_TASK_PRIORITY :: INT8U where "SSS_INITIAL_TASK_PRIORITY \<equiv> 5"

text \<open>
  \<open>entry\<close> is the address of \<open>SSSInitialTask\<close>, \<open>stk\<close> that of its stack. The top of the stack is given
  as the address behind the array. When \<open>OSStart\<close> returns, \<open>main\<close> loops for ever.
\<close>

definition main_start :: "port \<Rightarrow> INT32U \<Rightarrow> INT32U \<Rightarrow> kernel \<Rightarrow> (handled \<times> kernel) option" where
  "main_start port entry stk k = do {
     let k = OSTimeSet 0 k;
     (error_code, k) \<leftarrow> OSTaskCreateExt port entry 0 (stk + 4 * TASK_STACKSIZE) SSS_INITIAL_TASK_PRIORITY
        (ucast SSS_INITIAL_TASK_PRIORITY) stk TASK_STACKSIZE VNull 0 k;
     (r, k) \<leftarrow> alt_uCOSIIErrorHandler error_code k;
     if r \<noteq> Continues then Some (r, k) else do { k \<leftarrow> OSStart k; Some (Spins, k) } }"

section \<open>What the LCD shows\<close>

lemma strlen_takeWhile: "strlen t = (if 0 \<in> set t then Some (length (takeWhile (\<lambda>c. c \<noteq> 0) t)) else None)"
  by (induction t) auto

lemma show_from_take: "show_from n t = concat (map (\<lambda>c. lcd_do (Data c)) (take n t))"
  by (induction n t rule: show_from.induct) simp_all

text \<open>C27: \<open>LCD_Show_Text\<close> writes exactly the characters before the first NUL of the object, and
  reads outside the object when there is none.\<close>

theorem LCD_Show_Text_shows:
  "LCD_Show_Text t =
     (if 0 \<in> set t then Some (concat (map (\<lambda>c. lcd_do (Data c)) (takeWhile (\<lambda>c. c \<noteq> 0) t))) else None)"
  by (simp add: LCD_Show_Text_def strlen_takeWhile show_from_take takeWhile_eq_take [symmetric])

text \<open>\<open>LCD_Test\<close> reads outside its arrays: their initial values fill them without a NUL.\<close>

lemma LCD_Test_overruns: "LCD_Test = None"
proof -
  have "0 \<notin> set (char_array 16 ''Placa de logica '')" by code_simp
  then show ?thesis by (simp add: LCD_Test_def LCD_Show_Text_def strlen_takeWhile)
qed

section \<open>The conversion of a component\<close>

lemma sign32_cases: "sign32 f = 0 \<or> sign32 f = 1"
proof -
  have "unat (bits_of f) < 2 ^ 32" using unsigned_less [of "bits_of f"] by simp
  then have "sign32 f < 2" unfolding sign32_def by (simp add: less_mult_imp_div_less)
  then show ?thesis by linarith
qed


lemma val32_abs: "\<bar>val32 f\<bar> = real (mag 23 (exp32 f) (man32 f)) / 2 ^ 149"
  using sign32_cases [of f] by (auto simp: val32_def)











section \<open>What the task does\<close>

definition same_array :: "float32 list \<Rightarrow> float32 list \<Rightarrow> bool" where
  "same_array f g \<longleftrightarrow> length f = length g \<and> (\<forall>i<8. i < length f \<longrightarrow> f ! i = g ! i)"

lemma same_array_refl [simp]: "same_array f f"
  by (simp add: same_array_def)

lemma quat_cell_cong: "same_array f g \<Longrightarrow> quat_cell i f = quat_cell i g"
  by (auto simp: same_array_def quat_cell_def)

lemma send_quat_cong: "same_array f g \<Longrightarrow> send_quat oob r f = send_quat oob r g"
  by (simp add: send_quat_def quat_cell_cong)

lemma same_array_write: "same_array f g \<Longrightarrow> same_array (f[8 := x]) (g[8 := y])"
  by (simp add: same_array_def)

lemma write_four:
  "do { f \<leftarrow> write_quat2 w0 f; f \<leftarrow> write_quat2 w1 f; f \<leftarrow> write_quat2 w2 f; f \<leftarrow> write_quat2 w3 f; h f } =
     (if 8 < length f then h (f[8 := float_of_int w3]) else None)"
  by (simp add: write_quat2_def)

definition array_rel ::
  "((INT8U list \<times> float32 list) option \<times> io list) option \<Rightarrow> ((INT8U list \<times> float32 list) option \<times> io list) option \<Rightarrow> bool"
where
  "array_rel = rel_option (rel_prod (rel_option (rel_prod (=) same_array)) (=))"

lemma array_rel_simps [simp]:
  "array_rel None None" "array_rel (Some (None, out)) (Some (None, out))"
  "array_rel (Some (Some (b, f), out)) (Some (Some (b, g), out)) \<longleftrightarrow> same_array f g"
  by (simp_all add: array_rel_def)

lemma array_rel_bind:
  "(\<And>x. array_rel (f x) (g x)) \<Longrightarrow> array_rel (Option.bind m f) (Option.bind m g)"
  by (cases m) (simp_all add: array_rel_def)

lemma quat_round_cong:
  assumes "same_array f g"
  shows "array_rel (quat_round oob sock (words_update h env) buffer f) (quat_round oob sock env buffer g)"
proof -
  have len: "length f = length g" using assms by (simp add: same_array_def)
  obtain u where u: "words env = u" by blast
  obtain a b c d where w: "u = (a, b, c, d)" by (cases u) auto
  obtain a' b' c' d' where w': "h u = (a', b', c', d')" by (cases "h u") auto
  show ?thesis
    by (auto simp: quat_round_def u w w' [unfolded w] write_four send_quat_cong [OF assms] len same_array_write [OF assms]
        intro!: array_rel_bind split: option.split cong del: option.case_cong_weak)
qed

lemma quat_loop_cong:
  "same_array f g \<Longrightarrow> quat_loop oob sock (map (words_update h) envs) buffer f = quat_loop oob sock envs buffer g"
proof (induction envs arbitrary: buffer f g)
  case (Cons env envs)
  have "array_rel (quat_round oob sock (words_update h env) buffer f) (quat_round oob sock env buffer g)"
    by (rule quat_round_cong [OF Cons.prems])
  then show ?case
    unfolding array_rel_def by (cases rule: option.rel_cases) (auto elim!: option.rel_cases simp: Cons.IH)
qed simp

text \<open>C24: What the quaternion unit computes has no effect on what the task sends or displays: it
  is the same whatever words the unit delivers.\<close>

theorem quat_result_ignored:
  "SSSInitialTask oob sock c (map (words_update h) envs) buffer frame = SSSInitialTask oob sock c envs buffer frame"
  by (simp only: SSSInitialTask_def quat_loop_cong [OF same_array_refl])

lemma lcd_no_write: "IOWR r w \<in> set (show_from n s) \<longleftrightarrow> False"
  by (induction n s rule: show_from.induct) (auto simp: lcd_do_def)

lemma LCD_Show_Text_no_write: "LCD_Show_Text t = Some out \<Longrightarrow> IOWR r w \<notin> set out"
  by (auto simp: LCD_Show_Text_def lcd_no_write split: bind_splits)

lemma send_quat_writes:
  assumes "send_quat oob r f = Some out"
  shows "r < 2 \<and> (\<forall>x\<in>set out. \<exists>i<4. x = IOWR r (int_of_float oob (f ! (4 * r + i))))"
proof -
  have lt: "4 * r + 3 < 8" using assms by (auto simp: send_quat_def quat_cell_def split: bind_splits if_splits)
  have "out = map (\<lambda>i. IOWR r (int_of_float oob (f ! (4 * r + i)))) [0, 1, 2, 3]"
    using assms by (auto simp: send_quat_def quat_cell_def split: bind_splits if_splits)
  then show ?thesis using lt by (auto intro: exI [of _ 0] exI [of _ 1] exI [of _ 2] exI [of _ 3])
qed

definition array_writes :: "(float32 \<Rightarrow> INT32U) \<Rightarrow> float32 list \<Rightarrow> io list \<Rightarrow> bool" where
  "array_writes oob f out \<longleftrightarrow>
     (\<forall>r w. IOWR r w \<in> set out \<longrightarrow> r < 2 \<and> (\<exists>i<4. w = int_of_float oob (f ! (4 * r + i))))"

lemma array_writes_simps [simp]:
  "array_writes oob f (a @ b) \<longleftrightarrow> array_writes oob f a \<and> array_writes oob f b" "array_writes oob f []"
  "array_writes oob f (Usleep n # out) \<longleftrightarrow> array_writes oob f out"
  "array_writes oob f (IORD r # out) \<longleftrightarrow> array_writes oob f out"
  "array_writes oob f (Net x # out) \<longleftrightarrow> array_writes oob f out"
  "array_writes oob f (Lcd l # out) \<longleftrightarrow> array_writes oob f out"
  "array_writes oob f (Exit # out) \<longleftrightarrow> array_writes oob f out"
  by (auto simp: array_writes_def)

lemma array_writes_parts:
  "send_quat oob r f = Some out \<Longrightarrow> array_writes oob f out"
  "LCD_Show_Text t = Some out \<Longrightarrow> array_writes oob f out"
  using send_quat_writes [of oob r f out] LCD_Show_Text_no_write [of t out]
  by (fastforce simp: array_writes_def)+

lemma quat_round_step:
  assumes "quat_round oob sock env buffer frame = Some (next, out)"
  shows "array_writes oob frame out"
    "next = Some (b, f) \<Longrightarrow> 8 < length frame \<and> f = frame[8 := float_of_int (snd (snd (snd (words env))))]"
  using assms
  by (auto simp: quat_round_def write_four array_writes_parts split: option.splits bind_splits prod.splits if_splits)

lemma array_writes_same: "same_array f g \<Longrightarrow> 8 \<le> length f \<Longrightarrow> array_writes oob f out = array_writes oob g out"
proof -
  assume "same_array f g" "8 \<le> length f"
  then have "f ! (4 * r + i) = g ! (4 * r + i)" if "r < 2" "i < 4" for r i
    using that by (simp add: same_array_def)
  then show ?thesis unfolding array_writes_def by (metis (no_types, lifting))
qed

lemma quat_loop_writes:
  "quat_loop oob sock envs buffer frame = Some out \<Longrightarrow> array_writes oob frame out"
proof (induction envs arbitrary: buffer frame out)
  case (Cons env envs)
  from Cons.prems obtain nxt o1 where r: "quat_round oob sock env buffer frame = Some (nxt, o1)"
    by (auto split: bind_splits)
  show ?case
  proof (cases nxt)
    case None
    then show ?thesis using Cons.prems r quat_round_step(1) [OF r] by simp
  next
    case (Some p)
    obtain b f where p: "p = (b, f)" by (cases p)
    have f: "8 < length frame" "f = frame[8 := float_of_int (snd (snd (snd (words env))))]"
      using quat_round_step(2) [OF r] Some p by simp_all
    obtain o2 where o2: "quat_loop oob sock envs b f = Some o2" "out = o1 @ o2"
      using Cons.prems r Some p by (auto split: bind_splits)
    have "array_writes oob frame o2 = array_writes oob f o2"
      by (rule array_writes_same) (use f in \<open>simp_all add: same_array_def\<close>)
    then show ?thesis using Cons.IH [OF o2(1)] quat_round_step(1) [OF r] o2(2) by simp
  qed
qed simp

text \<open>C23: Everything the task writes to the quaternion unit is one of the eight values the array
  held before the first round (nothing gives it a value): no received byte reaches the unit.\<close>

theorem quat_task_writes:
  assumes "SSSInitialTask oob sock c envs buffer frame = Some out" "IOWR r w \<in> set out"
  shows "r < 2 \<and> (\<exists>i<4. w = int_of_float oob (frame ! (4 * r + i)))"
proof -
  have "array_writes oob frame out"
    using assms(1) quat_loop_writes [of oob sock envs buffer frame]
    by (auto simp: SSSInitialTask_def LCD_Init_def lcd_do_def split: if_splits bind_splits)
  then show ?thesis using assms(2) unfolding array_writes_def by blast
qed

definition demo_env :: round_env where
  "demo_env = \<lparr>recv1 = Some [1], recv2 = Some [2], recv3 = Some [3], words = (1, 2, 3, 4), send_ok = True\<rparr>"

definition demo_frame :: "float32 list" where
  "demo_frame = (let q = as_float 0x40A00000 in [q, q, q, q, q, q, q, q, as_float 0])"

definition demo_out :: "io list" where
  "demo_out = the (SSSInitialTask (\<lambda>_. 0) 7 0 [demo_env] (replicate 80 0) demo_frame)"

lemma demo_five: "int_of_float (\<lambda>_. 0) (as_float 0x40A00000) = 5"
  by (simp add: int_of_float_def exp32_def man32_def sign32_def as_float_def)

lemmas demo_defs = quat_round_def demo_env_def demo_frame_def recv_into_def mem_write_def send_quat_def quat_cell_def
  write_quat2_def Let_def

lemma demo_task: "SSSInitialTask (\<lambda>_. 0) 7 0 [demo_env] (replicate 80 0) demo_frame = Some demo_out"
  "IOWR 0 5 \<in> set demo_out"
  by (simp_all add: demo_out_def SSSInitialTask_def demo_defs demo_five)

theorem quat_task_writes_witness:
  "\<exists>i<4. (5 :: INT32U) = int_of_float (\<lambda>_. 0) (demo_frame ! (4 * 0 + i))"
  using quat_task_writes [OF demo_task] by (rule conjunct2)

text \<open>C25: A round that ends stores what the unit delivers behind the array \<^verbatim>\<open>quaternion\<close>: the
  last word lands in the next cell of the stack, and no element of the array changes.\<close>

theorem quat_round_overruns:
  assumes "quat_round oob sock env buffer frame = Some (Some (b, f), out)"
  shows "8 < length frame \<and> f = frame[8 := float_of_int (snd (snd (snd (words env))))] \<and> take 8 f = take 8 frame"
  using quat_round_step(2) [OF assms refl] by simp

theorem quat_round_overruns_witness:
  "\<exists>b f out. quat_round (\<lambda>_. 0) 7 demo_env (replicate 80 0) demo_frame = Some (Some (b, f), out) \<and>
     f ! 8 = as_float 0x40800000"
proof -
  obtain b f out where r: "quat_round (\<lambda>_. 0) 7 demo_env (replicate 80 0) demo_frame = Some (Some (b, f), out)"
    by (simp add: demo_defs)
  have "float_of_int 4 = as_float 0x40800000" by (simp add: float_of_int_def float_of_uint_def as_float_def top_bit.simps)
  then have "f ! 8 = as_float 0x40800000"
    using quat_round_overruns [OF r] by (simp add: demo_frame_def demo_env_def)
  with r show ?thesis by blast
qed

end
