(* ===== verification/Spec2Isabelle.thy ===== *)
theory Spec2Isabelle
  imports Half_Float Os_Sem Os_Time Os_Mem Os_Mbox Os_Queue Os_Flag_List Os_Mutex_Prio Os_Multi
    Os_System Error_Handler Led Socket_Server Net_Utils Dm9000a Quat_Client
begin

text \<open>
  Verification library for the firmware of the FPGA quaternion server: the MicroC/OS-II kernel
  of \<^verbatim>\<open>src/fpga/software/server1_bsp/UCOSII\<close> in its configuration of
  \<^verbatim>\<open>server1_bsp/system.h\<close>, and the application of \<^verbatim>\<open>src/fpga/software/server1\<close>.

  Theories.
  \<^item> \<open>Prelude\<close>: C integer types as words, shifts, word lemmas.
  \<^item> \<open>Half_Float\<close>: conversion and printing of 16-bit floats (\<^verbatim>\<open>server1/iniche_init.c\<close>).
  \<^item> \<open>Prio_Table\<close>: the table \<open>OSUnMapTbl\<close> and the bit tables of priorities (ready and wait lists),
    with the locale \<open>prio_set\<close>: a table is a finite set of priorities with its minimum.
  \<^item> \<open>Os_Kernel\<close>, \<open>Os_Core\<close>: control blocks, global variables, \<^verbatim>\<open>os_core.c\<close>.
  \<^item> \<open>Os_Inv\<close>, \<open>Os_Events\<close>, \<open>Os_Sched\<close>, \<open>Os_Tick\<close>: the invariant \<open>kernel_ok\<close> and what the wait
    lists, the scheduler and the clock tick do to it.
  \<^item> \<open>Os_Task\<close>, \<open>Os_Init\<close>: \<^verbatim>\<open>os_task.c\<close>, \<open>OSInit\<close> and \<open>OSStart\<close>.
  \<^item> \<open>Os_Pool\<close>: free lists, with the locale \<open>pool\<close>.
  \<^item> \<open>Os_Boot\<close>: the state after boot, on which the witnesses run.
  \<^item> \<open>Os_Sem\<close>: semaphores, \<^verbatim>\<open>os_sem.c\<close>.
\<close>

end
